(* ===== verification/UCPrelude.thy ===== *)
theory UCPrelude
  imports Main "HOL-Library.Word" "HOL-Library.Signed_Division"
begin

text \<open>
  Shared vocabulary of the development: names for the machine integers and the instants of
  the program, checked arithmetic, the collections of rewrite rules that carry the
  component proofs, and the generic list, map and arithmetic lemmas used by more than one
  component.

  Conventions.  A Rust \<open>Result<T, E>\<close> is a sum \<open>'e + 'a\<close> with \<open>Inl\<close> the error.  A
  computation that can panic (\<open>expect\<close>, an index out of range, \<open>unreachable!\<close>) returns an
  \<open>option\<close> whose \<open>None\<close> is the panic; the release profile of the repository aborts the
  process on a panic.  The release profile has no overflow checks, so unsigned arithmetic
  that can overflow is word arithmetic and wraps.  Signed 64-bit values are integers with
  their range stated where it matters.  A point in time is an integer number of
  nanoseconds since the Unix epoch, a duration is an integer number of nanoseconds.
\<close>

section \<open>Machine integers, instants and durations\<close>

type_synonym u8 = "8 word"
type_synonym u16 = "16 word"
type_synonym u32 = "32 word"
type_synonym u64 = "64 word"
type_synonym u128 = "128 word"
type_synonym usize = "64 word"
type_synonym i64 = int

type_synonym datetime = int
type_synonym time_delta = int
type_synonym instant = int

abbreviation nanos_per_sec :: int where
  "nanos_per_sec \<equiv> 1000000000"

text \<open>Whole seconds of an instant since the epoch, rounded towards minus infinity.\<close>

definition timestamp :: "datetime \<Rightarrow> i64" where
  "timestamp t = t div nanos_per_sec"

text \<open>A duration of a number of whole seconds.\<close>

definition seconds :: "int \<Rightarrow> time_delta" where
  "seconds n = n * nanos_per_sec"

text \<open>Rust's \<open>checked_rem\<close> on an unsigned value read as a natural number.\<close>

definition checked_rem :: "nat \<Rightarrow> nat \<Rightarrow> nat option" where
  "checked_rem a b = (if b = 0 then None else Some (a mod b))"

definition i64_min :: int where "i64_min = - (2 ^ 63)"
definition i64_max :: int where "i64_max = 2 ^ 63 - 1"

section \<open>Collections of facts\<close>

named_theorems uc_simps \<open>rewrite rules of the components, used by the proofs that cross them\<close>
named_theorems uc_intros \<open>introduction rules for the component invariants\<close>

section \<open>Arithmetic shared by the components\<close>

lemma checked_rem_pos [simp]: "0 < b \<Longrightarrow> checked_rem a b = Some (a mod b)"
  by (simp add: checked_rem_def)

lemma unat_sub_le [simp]: "a \<le> (g :: 'a::len word) \<Longrightarrow> unat (g - a) = unat g - unat a"
  by (rule unat_sub)

lemma timestamp_add_seconds [simp]: "timestamp (t + seconds n) = timestamp t + n"
  by (simp add: timestamp_def seconds_def)

lemma timestamp_seconds [simp]: "timestamp (seconds n) = n"
  by (simp add: timestamp_def seconds_def)

text \<open>
  A residue class meets every window of the length of its modulus exactly once.
\<close>

lemma unique_residue_in_window:
  fixes a m r :: int
  assumes "0 < m" "0 \<le> r" "r < m"
  shows "\<exists>!x. a \<le> x \<and> x < a + m \<and> x mod m = r"
proof -
  define x where "x = a + (r - a) mod m"
  have x: "a \<le> x \<and> x < a + m \<and> x mod m = r"
    using assms by (simp add: x_def mod_simps)
  show ?thesis
  proof (intro ex1I [of _ x])
    show "a \<le> x \<and> x < a + m \<and> x mod m = r" by (rule x)
  next
    fix y assume y: "a \<le> y \<and> y < a + m \<and> y mod m = r"
    with x have "y mod m = x mod m" by simp
    then have "m dvd (y - x)" by (simp only: mod_eq_dvd_iff)
    moreover from x y have "\<bar>y - x\<bar> < m" by linarith
    ultimately show "y = x" using dvd_imp_le_int [of "y - x" m] assms by fastforce
  qed
qed

section \<open>Lists and maps\<close>

lemma nth_list_update_set:
  "i < length bs \<Longrightarrow> j < length bs \<Longrightarrow>
     bs[i := f (bs ! i)] ! j = (if i = j then f (bs ! j) else bs ! j)"
  by (simp add: nth_list_update)

lemma map_add_mult_distinct:
  "0 < (m::nat) \<Longrightarrow> distinct (map (\<lambda>k. a + m * k) [0..<n])"
  by (simp add: distinct_map inj_on_def)

text \<open>
  Sets of values filed under their own key, as a map is updated; stated for any type, so that
  the proofs about records do not split them into their fields.
\<close>

lemma keyed_set_delete:
  fixes m :: "'k \<Rightarrow> 'c option" and f :: "'c \<Rightarrow> 'k"
  assumes "m k = Some c" "f c = k"
  shows "{d. (m(k := None)) (f d) = Some d \<and> P d}
           = (if P c then {d. m (f d) = Some d \<and> P d} - {c} else {d. m (f d) = Some d \<and> P d})"
proof (rule set_eqI)
  fix d
  show "d \<in> {d. (m(k := None)) (f d) = Some d \<and> P d}
    \<longleftrightarrow> d \<in> (if P c then {d. m (f d) = Some d \<and> P d} - {c} else {d. m (f d) = Some d \<and> P d})"
    using assms by (cases "d = c"; cases "f d = k") simp_all
qed

lemma keyed_set_insert:
  fixes m :: "'k \<Rightarrow> 'c option" and f :: "'c \<Rightarrow> 'k"
  assumes "m (f c) = None"
  shows "{d. (m(f c \<mapsto> c)) (f d) = Some d \<and> P d}
           = (if P c then insert c {d. m (f d) = Some d \<and> P d} else {d. m (f d) = Some d \<and> P d})"
proof (rule set_eqI)
  fix d
  show "d \<in> {d. (m(f c \<mapsto> c)) (f d) = Some d \<and> P d}
    \<longleftrightarrow> d \<in> (if P c then insert c {d. m (f d) = Some d \<and> P d} else {d. m (f d) = Some d \<and> P d})"
    using assms by (cases "d = c"; cases "f d = f c") auto
qed

lemma keyed_set_same:
  fixes m :: "'k \<Rightarrow> 'c option" and f :: "'c \<Rightarrow> 'k"
  shows "{d \<in> {d. (m(f c \<mapsto> c)) (f d) = Some d \<and> P d}. f d = f c} = (if P c then {c} else {})"
proof (rule set_eqI)
  fix d
  show "d \<in> {d \<in> {d. (m(f c \<mapsto> c)) (f d) = Some d \<and> P d}. f d = f c}
    \<longleftrightarrow> d \<in> (if P c then {c} else {})"
    by (cases "d = c"; cases "f d = f c") auto
qed

lemma keyed_set_none:
  "{d \<in> {d. (m(k := None)) (f d) = Some d \<and> P d}. f d = k} = {}"
  by auto

lemma keyed_set_inj: "inj_on f {d. m (f d) = Some d \<and> P d}"
  by (rule inj_onI) auto

lemma keyed_dom_delete:
  "\<forall>k c. m k = Some c \<longrightarrow> f c = k \<Longrightarrow> \<forall>k c. (m(j := None)) k = Some c \<longrightarrow> f c = k"
  by auto

lemma keyed_dom_insert:
  "\<forall>k c. m k = Some c \<longrightarrow> f c = k \<Longrightarrow> \<forall>k c'. (m(f c \<mapsto> c)) k = Some c' \<longrightarrow> f c' = k"
  by auto

end
