(* ===== verification/AssertSyntax.thy ===== *)
theory AssertSyntax
  imports UCPrelude
begin

text \<open>
  The user-facing assertion language of \<open>src/src/assertions/mod.rs\<close>: comparisons, operands,
  the operation tree and the test whether an assertion needs the response body.
\<close>

section \<open>Data model\<close>

datatype Comparison = Always | Never | LessThan | GreaterThan | Equals | NotEqual

record GlobPattern =
  glob_value :: string

datatype HeaderOperand = HONone | HOLiteral string | HOGlob GlobPattern

datatype JSONPathOperand = JONone | JOLiteral string | JOGlob GlobPattern

datatype Op =
    OpAnd "Op list"
  | OpOr "Op list"
  | OpNot Op
  | OpStatusCodeCheck u16 Comparison
  | OpJsonPath string Comparison JSONPathOperand
  | OpHeaderCheck Comparison HeaderOperand Comparison HeaderOperand

record Assertion =
  root :: Op

section \<open>Does an assertion read the body?\<close>

fun requires_body_impl :: "Op \<Rightarrow> bool" where
  "requires_body_impl (OpAnd children) = list_ex requires_body_impl children"
| "requires_body_impl (OpOr children) = list_ex requires_body_impl children"
| "requires_body_impl (OpNot operand) = requires_body_impl operand"
| "requires_body_impl (OpStatusCodeCheck _ _) = False"
| "requires_body_impl (OpJsonPath _ _ _) = True"
| "requires_body_impl (OpHeaderCheck _ _ _ _) = False"

definition requires_body :: "Assertion \<Rightarrow> bool" where
  "requires_body a = requires_body_impl (root a)"

text \<open>The number of operations of a tree, the quantity the compiler's budget counts.\<close>

fun op_count :: "Op \<Rightarrow> nat" where
  "op_count (OpAnd children) = Suc (sum_list (map op_count children))"
| "op_count (OpOr children) = Suc (sum_list (map op_count children))"
| "op_count (OpNot operand) = Suc (op_count operand)"
| "op_count (OpStatusCodeCheck _ _) = 1"
| "op_count (OpJsonPath _ _ _) = 1"
| "op_count (OpHeaderCheck _ _ _ _) = 1"

text \<open>The subtree a path of child indices leads to.\<close>

fun op_at :: "nat list \<Rightarrow> Op \<Rightarrow> Op option" where
  "op_at [] t = Some t"
| "op_at (i # is) (OpAnd children) = (if i < length children then op_at is (children ! i) else None)"
| "op_at (i # is) (OpOr children) = (if i < length children then op_at is (children ! i) else None)"
| "op_at (i # is) (OpNot operand) = (if i = 0 then op_at is operand else None)"
| "op_at (i # is) _ = None"

lemma op_count_pos [simp]: "0 < op_count t"
  by (cases t) simp_all

end
