(* ===== verification/CheckConfigs.thy ===== *)
theory CheckConfigs
  imports AssertSyntax
begin

text \<open>
  The check configuration: \<open>src/src/types/shared.rs\<close>, \<open>src/src/types/check_config.rs\<close>, and
  the tick type of \<open>src/src/config_store.rs\<close> that the configuration's operations take.
  The version-5 UUID derivation (a hash of a third-party package) is the parameter
  \<open>v5 namespace bytes\<close> of every definition that uses it.
\<close>

section \<open>Shared enumerations\<close>

datatype RequestMethod = Get | Post | Head | Put | Delete | Patch | Options

datatype RegionScheduleMode = RoundRobin

fun http_method :: "RequestMethod \<Rightarrow> string" where
  "http_method Get = ''GET''"
| "http_method Post = ''POST''"
| "http_method Head = ''HEAD''"
| "http_method Put = ''PUT''"
| "http_method Delete = ''DELETE''"
| "http_method Patch = ''PATCH''"
| "http_method Options = ''OPTIONS''"

section \<open>Intervals and ticks\<close>

datatype CheckInterval =
  OneMinute | FiveMinutes | TenMinutes | TwentyMinutes | ThirtyMinutes | SixtyMinutes

fun interval_secs :: "CheckInterval \<Rightarrow> nat" where
  "interval_secs OneMinute = 60"
| "interval_secs FiveMinutes = 60 * 5"
| "interval_secs TenMinutes = 60 * 10"
| "interval_secs TwentyMinutes = 60 * 20"
| "interval_secs ThirtyMinutes = 60 * 30"
| "interval_secs SixtyMinutes = 60 * 60"

definition MAX_CHECK_INTERVAL_SECS :: nat where
  "MAX_CHECK_INTERVAL_SECS = interval_secs SixtyMinutes"

record Tick =
  tick_index :: nat
  tick_time :: datetime

text \<open>
  The cast of a signed timestamp to an unsigned machine word wraps, as the cast of the
  source does.
\<close>

definition from_time :: "datetime \<Rightarrow> Tick" where
  "from_time time =
     \<lparr>tick_index = unat (word_of_int (timestamp time) :: usize) mod MAX_CHECK_INTERVAL_SECS,
      tick_time = time\<rparr>"

section \<open>The configuration record\<close>

record check_config =
  cc_subscription_id :: u128
  cc_interval :: CheckInterval
  cc_timeout :: time_delta
  cc_url :: string
  cc_request_method :: RequestMethod
  cc_request_headers :: "(string \<times> string) list"
  cc_request_body :: string
  cc_trace_sampling :: bool
  cc_active_regions :: "string list option"
  cc_region_schedule_mode :: "RegionScheduleMode option"
  cc_assertion :: "Assertion option"
  cc_capture_response_on_failure :: bool

definition SUBSCRIPTION_SLOT_NAMESPACE :: u128 where
  "SUBSCRIPTION_SLOT_NAMESPACE = 134104732365955935133175004175948885464"

definition SUBSCRIPTION_SHOULD_RUN_NAMESPACE :: u128 where
  "SUBSCRIPTION_SHOULD_RUN_NAMESPACE = 31415926535897932384626433832795"

definition ROBOTS_TXT_CHECK_INTERVAL_MINUTES :: nat where
  "ROBOTS_TXT_CHECK_INTERVAL_MINUTES = 60 * 24"

text \<open>The sixteen bytes of a UUID, most significant first.\<close>

definition uuid_bytes :: "u128 \<Rightarrow> u8 list" where
  "uuid_bytes u = map (\<lambda>i. ucast (drop_bit (8 * (15 - i)) u)) [0..<16]"

type_synonym uuid_v5 = "u128 \<Rightarrow> u8 list \<Rightarrow> u128"

section \<open>Operations\<close>

definition slots :: "uuid_v5 \<Rightarrow> check_config \<Rightarrow> nat list option" where
  "slots v5 c =
     (let interval_secs = interval_secs (cc_interval c)
      in case checked_rem
                (unat (v5 SUBSCRIPTION_SLOT_NAMESPACE (uuid_bytes (cc_subscription_id c))))
                interval_secs of
           None \<Rightarrow> None
         | Some first_slot \<Rightarrow>
             (let pattern_count = MAX_CHECK_INTERVAL_SECS div interval_secs
              in Some (map (\<lambda>k. first_slot + interval_secs * k) [0..<pattern_count])))"

text \<open>Minute and hour of the wall clock of an instant in UTC.\<close>

definition minute_of :: "datetime \<Rightarrow> int" where
  "minute_of t = (timestamp t mod 3600) div 60"

definition hour_of :: "datetime \<Rightarrow> int" where
  "hour_of t = (timestamp t mod 86400) div 3600"

definition should_check_robots :: "check_config \<Rightarrow> Tick \<Rightarrow> bool" where
  "should_check_robots c tick =
     (let daily_minute_to_check =
            int (unat (cc_subscription_id c) mod ROBOTS_TXT_CHECK_INTERVAL_MINUTES);
          current_minute = minute_of (tick_time tick) + hour_of (tick_time tick) * 60;
          interval_in_minutes = int (interval_secs (cc_interval c)) div 60
      in current_minute - interval_in_minutes < daily_minute_to_check
         \<and> daily_minute_to_check \<le> current_minute)"

definition should_run :: "uuid_v5 \<Rightarrow> check_config \<Rightarrow> Tick \<Rightarrow> string \<Rightarrow> bool option" where
  "should_run v5 c tick current_region =
     (if cc_region_schedule_mode c = None then Some True
      else case cc_active_regions c of
        None \<Rightarrow> Some True
      | Some active_regions \<Rightarrow>
          if active_regions = [] then Some True
          else
            (let seed =
                   v5 SUBSCRIPTION_SHOULD_RUN_NAMESPACE (uuid_bytes (cc_subscription_id c));
                 turn = word_of_int (timestamp (tick_time tick) sdiv
                          int (interval_secs (cc_interval c))) + seed
             in case checked_rem (unat turn) (length active_regions) of
                  None \<Rightarrow> None
                | Some running_region_idx \<Rightarrow>
                    if running_region_idx < length active_regions
                    then Some (active_regions ! running_region_idx = current_region)
                    else None))"

definition first_slot :: "uuid_v5 \<Rightarrow> check_config \<Rightarrow> nat" where
  "first_slot v5 c =
     unat (v5 SUBSCRIPTION_SLOT_NAMESPACE (uuid_bytes (cc_subscription_id c)))
       mod interval_secs (cc_interval c)"

definition due :: "uuid_v5 \<Rightarrow> check_config \<Rightarrow> Tick \<Rightarrow> bool" where
  "due v5 c tick = (case slots v5 c of None \<Rightarrow> False | Some ss \<Rightarrow> tick_index tick \<in> set ss)"

section \<open>Slots\<close>

lemma max_interval [simp]: "MAX_CHECK_INTERVAL_SECS = 3600"
  by (simp add: MAX_CHECK_INTERVAL_SECS_def)

lemma interval_secs_pos [simp]: "0 < interval_secs i"
  by (cases i) simp_all

lemma interval_secs_le: "interval_secs i \<le> 3600"
  by (cases i) simp_all

lemma interval_secs_dvd: "interval_secs i dvd 3600"
  by (cases i) simp_all

lemma interval_secs_minutes: "interval_secs i = 60 * (interval_secs i div 60)"
  by (cases i) simp_all

lemma interval_minutes_dvd: "int (interval_secs i) div 60 dvd 1440"
  by (cases i) simp_all

lemma interval_minutes_pos: "0 < int (interval_secs i) div 60"
  by (cases i) simp_all

lemma first_slot_less [simp]: "first_slot v5 c < interval_secs (cc_interval c)"
  by (simp add: first_slot_def)

lemma slots_eq [simp]:
  "slots v5 c = Some (map (\<lambda>k. first_slot v5 c + interval_secs (cc_interval c) * k)
                       [0..<3600 div interval_secs (cc_interval c)])"
  by (simp add: slots_def first_slot_def Let_def)

lemma residue_class_below:
  fixes a n i :: nat
  assumes "0 < i" "i dvd n" "a < i"
  shows "(\<lambda>k. a + i * k) ` {0..<n div i} = {s. s < n \<and> s mod i = a}"
proof
  from assms(2) obtain q where n: "n = i * q" by (auto elim: dvdE)
  show "(\<lambda>k. a + i * k) ` {0..<n div i} \<subseteq> {s. s < n \<and> s mod i = a}"
  proof clarsimp
    fix k assume "k < n div i"
    with n assms have "Suc k \<le> q" by simp
    then have "i * Suc k \<le> n" unfolding n by (rule mult_le_mono2)
    with assms show "a + i * k < n \<and> a mod i = a" by simp
  qed
  show "{s. s < n \<and> s mod i = a} \<subseteq> (\<lambda>k. a + i * k) ` {0..<n div i}"
  proof clarsimp
    fix s assume s: "s < n" "a = s mod i"
    have "s = s mod i + i * (s div i)" by simp
    moreover have "s div i < n div i"
      using s n assms by (simp add: less_mult_imp_div_less mult.commute)
    ultimately show "s \<in> (\<lambda>k. s mod i + i * k) ` {0..<n div i}" by (metis atLeastLessThan_iff imageI le0)
  qed
qed

lemma set_slots:
  "(\<lambda>k. first_slot v5 c + interval_secs (cc_interval c) * k)
      ` {0..<3600 div interval_secs (cc_interval c)}
   = {s. s < 3600 \<and> s mod interval_secs (cc_interval c) = first_slot v5 c}"
  by (rule residue_class_below) (simp_all add: interval_secs_dvd)

text \<open>
  The slots of a configuration are exactly the seconds of the hour that are congruent to
  its first slot modulo its interval: they exist (no panic), are pairwise distinct, there are
  \<open>MAX_CHECK_INTERVAL_SECS / interval\<close> of them and each is a valid bucket index.
\<close>

theorem slots_residue_class:
  "\<exists>ss. slots v5 c = Some ss \<and> distinct ss
     \<and> length ss = MAX_CHECK_INTERVAL_SECS div interval_secs (cc_interval c)
     \<and> set ss = {s. s < MAX_CHECK_INTERVAL_SECS
                    \<and> s mod interval_secs (cc_interval c) = first_slot v5 c}"
  by (simp add: set_slots distinct_map inj_on_def del: set_map) (simp add: set_slots)

lemma due_iff:
  "due v5 c tick \<longleftrightarrow> tick_index tick < 3600
     \<and> tick_index tick mod interval_secs (cc_interval c) = first_slot v5 c"
  using set_slots [of v5 c] by (auto simp: due_def)

lemma from_time_index:
  assumes "0 \<le> timestamp t" "timestamp t < 2 ^ 63"
  shows "tick_index (from_time t) = nat (timestamp t) mod 3600"
  using assms by (simp add: from_time_def unsigned_of_int take_bit_int_eq_self nat_mod_distrib)

lemma tick_index_less: "tick_index (from_time t) < 3600"
  by (simp add: from_time_def)

lemma from_time_residue:
  assumes "0 \<le> s" "s < 2 ^ 63"
  shows "int (tick_index (from_time (seconds s)) mod interval_secs i) = s mod int (interval_secs i)"
proof -
  have "tick_index (from_time (seconds s)) mod interval_secs i = nat s mod interval_secs i"
    using assms by (simp add: from_time_index mod_mod_cancel interval_secs_dvd)
  then show ?thesis using assms by (simp add: zmod_int)
qed

text \<open>
  C24: in every window of one interval's length, whatever second it starts at, a configuration
  is due at exactly one second: the tick index of \<open>from_time\<close> and the slots of \<open>slots\<close> agree on
  the schedule, so no check is skipped and none runs twice.
\<close>

theorem once_per_interval:
  assumes "0 \<le> a" and "a + int (interval_secs (cc_interval c)) \<le> 2 ^ 63"
  shows "\<exists>!s. a \<le> s \<and> s < a + int (interval_secs (cc_interval c))
           \<and> due v5 c (from_time (seconds s))"
proof -
  let ?i = "int (interval_secs (cc_interval c))"
  have "due v5 c (from_time (seconds s)) \<longleftrightarrow> s mod ?i = int (first_slot v5 c)"
    if "a \<le> s" "s < a + ?i" for s
    using that assms from_time_residue [of s "cc_interval c"]
    by (simp add: due_iff tick_index_less) (metis of_nat_eq_iff)
  then have "(a \<le> s \<and> s < a + ?i \<and> due v5 c (from_time (seconds s)))
     \<longleftrightarrow> (a \<le> s \<and> s < a + ?i \<and> s mod ?i = int (first_slot v5 c))" for s
    by blast
  moreover have "\<exists>!s. a \<le> s \<and> s < a + ?i \<and> s mod ?i = int (first_slot v5 c)"
    by (rule unique_residue_in_window) simp_all
  ultimately show ?thesis by simp
qed

definition default_check_config :: check_config where
  "default_check_config =
     \<lparr>cc_subscription_id = 0, cc_interval = OneMinute, cc_timeout = seconds 10,
      cc_url = ''https://example.com'', cc_request_method = Get, cc_request_headers = [],
      cc_request_body = [], cc_trace_sampling = False, cc_active_regions = None,
      cc_region_schedule_mode = None, cc_assertion = None,
      cc_capture_response_on_failure = True\<rparr>"

theorem once_per_interval_witness:
  "(0::int) + int (interval_secs (cc_interval default_check_config)) \<le> 2 ^ 63
   \<and> (\<exists>!s. 0 \<le> s \<and> s < 0 + int (interval_secs (cc_interval default_check_config))
           \<and> due (\<lambda>_ _. 130) default_check_config (from_time (seconds s)))"
proof -
  have b: "(0::int) + int (interval_secs (cc_interval default_check_config)) \<le> 2 ^ 63"
    by (simp add: default_check_config_def)
  show ?thesis using b once_per_interval [OF _ b, of "\<lambda>_ _. 130"] by simp
qed

section \<open>Regions\<close>

definition region_turn :: "uuid_v5 \<Rightarrow> check_config \<Rightarrow> Tick \<Rightarrow> u128" where
  "region_turn v5 c tick =
     word_of_int (timestamp (tick_time tick) sdiv int (interval_secs (cc_interval c)))
       + v5 SUBSCRIPTION_SHOULD_RUN_NAMESPACE (uuid_bytes (cc_subscription_id c))"

lemma should_run_unscheduled [simp]:
  "cc_region_schedule_mode c = None \<Longrightarrow> should_run v5 c tick r = Some True"
  by (simp add: should_run_def)

lemma should_run_scheduled:
  assumes "cc_region_schedule_mode c = Some m" "cc_active_regions c = Some rs" "rs \<noteq> []"
  shows "should_run v5 c tick r =
           Some (rs ! (unat (region_turn v5 c tick) mod length rs) = r)"
  using assms by (simp add: should_run_def region_turn_def Let_def)

lemma should_run_no_panic: "\<exists>b. should_run v5 c tick r = Some b"
proof (cases "cc_region_schedule_mode c = None \<or> cc_active_regions c = None \<or> cc_active_regions c = Some []")
  case True
  then show ?thesis by (auto simp: should_run_def)
next
  case False
  then show ?thesis by (auto simp: should_run_scheduled)
qed

text \<open>
  With a schedule mode and at least one active region, at every tick the configuration runs
  in exactly one region, which is one of its active regions; the decision is the same for every
  checker that asks and never panics, even where the 128-bit sum wraps.
\<close>

theorem should_run_one_region:
  assumes "cc_region_schedule_mode c = Some m" and "cc_active_regions c = Some rs" and "rs \<noteq> []"
  shows "\<exists>r\<in>set rs. (\<lambda>r'. should_run v5 c tick r') = (\<lambda>r'. Some (r' = r))"
  using assms by (auto simp: should_run_scheduled fun_eq_iff intro!: bexI [of _ "rs ! (unat (region_turn v5 c tick) mod length rs)"])

theorem should_run_one_region_witness:
  "\<exists>r\<in>set [''us'', ''eu''].
     (\<lambda>r'. should_run (\<lambda>_ _. 7)
        (default_check_config\<lparr>cc_region_schedule_mode := Some RoundRobin,
                              cc_active_regions := Some [''us'', ''eu'']\<rparr>)
        (from_time 0) r') = (\<lambda>r'. Some (r' = r))"
  by (rule should_run_one_region [of _ RoundRobin]) (simp_all add: default_check_config_def)

lemma region_turn_seconds:
  fixes v5 c
  defines "seed \<equiv> v5 SUBSCRIPTION_SHOULD_RUN_NAMESPACE (uuid_bytes (cc_subscription_id c))"
    and "i \<equiv> int (interval_secs (cc_interval c))"
  assumes "0 \<le> s" and "unat seed + nat (s div i) < 2 ^ 128"
  shows "unat (region_turn v5 c (from_time (seconds s))) = unat seed + nat (s div i)"
proof -
  have i: "0 < i" by (simp add: i_def)
  with assms have q: "0 \<le> s div i" by (simp add: pos_imp_zdiv_nonneg_iff)
  have "s sdiv i = s div i" using i assms(3) by (cases "s = 0") (simp_all add: signed_divide_int_def)
  moreover have "(word_of_int (s div i) :: u128) = word_of_nat (nat (s div i))"
    using q by simp
  ultimately have turn: "region_turn v5 c (from_time (seconds s)) = word_of_nat (nat (s div i)) + seed"
    by (simp add: region_turn_def from_time_def seed_def i_def)
  have "unat (word_of_nat (nat (s div i)) :: u128) = nat (s div i)"
    using assms by (simp add: unsigned_of_nat take_bit_nat_eq_self)
  then show ?thesis
    unfolding turn using assms by (simp add: unat_word_ariths)
qed

text \<open>Over as many intervals as there are regions, every region has exactly one turn.\<close>

lemma one_turn_per_cycle:
  fixes n a b :: nat
  assumes "distinct rs" "r \<in> set rs" "n = length rs"
  shows "\<exists>!j. j < n \<and> rs ! ((b + j) mod n) = r"
proof -
  from assms obtain p where p: "p < n" "rs ! p = r" by (auto simp: in_set_conv_nth)
  then have n: "0 < n" by simp
  have eq: "rs ! ((b + j) mod n) = r \<longleftrightarrow> (b + j) mod n = p" for j
    using p n assms by (metis mod_less_divisor nth_eq_iff_index_eq)
  have "\<exists>!x::int. int b \<le> x \<and> x < int b + int n \<and> x mod int n = int p"
    using p n by (intro unique_residue_in_window) auto
  then obtain x where x: "int b \<le> x" "x < int b + int n" "x mod int n = int p"
    and u: "\<And>y. int b \<le> y \<Longrightarrow> y < int b + int n \<Longrightarrow> y mod int n = int p \<Longrightarrow> y = x"
    by blast
  show ?thesis
  proof (intro ex1I [of _ "nat (x - int b)"])
    have "int ((b + nat (x - int b)) mod n) = int p"
      using x by (simp add: zmod_int)
    then have "(b + nat (x - int b)) mod n = p" by (simp only: of_nat_eq_iff)
    then show "nat (x - int b) < n \<and> rs ! ((b + nat (x - int b)) mod n) = r"
      using x p by (simp add: nat_less_iff)
  next
    fix j assume "j < n \<and> rs ! ((b + j) mod n) = r"
    then have "j < n" "(b + j) mod n = p" by (simp_all add: eq)
    then have "int (b + j) = x"
      by (intro u) (simp, simp, simp only: zmod_int [symmetric])
    then show "j = nat (x - int b)" by simp
  qed
qed

text \<open>
  C30: over as many consecutive intervals as there are active regions, each region has exactly
  one turn, as long as the 128-bit sum of the seed and the turn number does not wrap.
\<close>

theorem region_round_robin:
  assumes mode: "cc_region_schedule_mode c = Some m"
    and regions: "cc_active_regions c = Some rs" "distinct rs" "r \<in> set rs"
    and i: "i = int (interval_secs (cc_interval c))"
    and s: "0 \<le> s"
    and room: "unat (v5 SUBSCRIPTION_SHOULD_RUN_NAMESPACE (uuid_bytes (cc_subscription_id c)))
                 + nat (s div i) + length rs \<le> 2 ^ 128"
  shows "\<exists>!j. j < length rs
           \<and> should_run v5 c (from_time (seconds (s + int j * i))) r = Some True"
proof -
  let ?seed = "unat (v5 SUBSCRIPTION_SHOULD_RUN_NAMESPACE (uuid_bytes (cc_subscription_id c)))"
  have ip: "0 < i" by (simp add: i)
  have "(should_run v5 c (from_time (seconds (s + int j * i))) r = Some True)
      \<longleftrightarrow> rs ! ((?seed + nat (s div i) + j) mod length rs) = r" if j: "j < length rs" for j
  proof -
    have q: "0 \<le> s div i" using s ip by (simp add: pos_imp_zdiv_nonneg_iff)
    have d: "nat ((s + int j * i) div i) = nat (s div i) + j"
      using ip q by (simp add: nat_add_distrib)
    have "unat (region_turn v5 c (from_time (seconds (s + int j * i))))
            = ?seed + nat ((s + int j * i) div i)"
      unfolding i using s ip room j d unfolding i
      by (intro region_turn_seconds) simp_all
    moreover have "rs \<noteq> []" using regions by auto
    ultimately show ?thesis using mode regions d by (simp add: should_run_scheduled add.assoc)
  qed
  then have "(j < length rs \<and> should_run v5 c (from_time (seconds (s + int j * i))) r = Some True)
      \<longleftrightarrow> (j < length rs \<and> rs ! ((?seed + nat (s div i) + j) mod length rs) = r)" for j
    by blast
  with one_turn_per_cycle [OF regions(2,3) refl, of "?seed + nat (s div i)"] show ?thesis by simp
qed

theorem region_round_robin_witness:
  "\<exists>!j. j < length [''us'', ''eu'']
     \<and> should_run (\<lambda>_ _. 7)
         (default_check_config\<lparr>cc_region_schedule_mode := Some RoundRobin,
                               cc_active_regions := Some [''us'', ''eu'']\<rparr>)
         (from_time (seconds (90 + int j * 60))) ''eu'' = Some True"
  using region_round_robin
    [of "default_check_config\<lparr>cc_region_schedule_mode := Some RoundRobin,
           cc_active_regions := Some [''us'', ''eu'']\<rparr>" RoundRobin "[''us'', ''eu'']" "''eu''" 60 90
        "\<lambda>_ _. 7"]
  by (simp add: default_check_config_def)

section \<open>robots.txt\<close>

lemma minute_of_day:
  "minute_of t + hour_of t * 60 = (timestamp t mod 86400) div 60"
proof -
  let ?x = "timestamp t mod 86400"
  have "timestamp t mod 3600 = ?x mod 3600" by (simp add: mod_mod_cancel)
  then have "minute_of t + hour_of t * 60 = (?x mod 3600) div 60 + ?x div 3600 * 60"
    by (simp add: minute_of_def hour_of_def)
  moreover have "?x div 60 = ((?x div 3600 * 60) * 60 + ?x mod 3600) div 60"
    by (simp only: mult.assoc) simp
  moreover have "((?x div 3600 * 60) * 60 + ?x mod 3600) div 60
                   = ?x div 3600 * 60 + (?x mod 3600) div 60"
    by (rule div_mult_self3) simp
  ultimately show ?thesis by linarith
qed

lemma should_check_robots_iff:
  assumes "0 \<le> m" "m < 1440"
  shows "should_check_robots c (from_time (seconds (86400 * day + 60 * m)))
     \<longleftrightarrow> m - int (interval_secs (cc_interval c)) div 60 < int (unat (cc_subscription_id c) mod 1440)
        \<and> int (unat (cc_subscription_id c) mod 1440) \<le> m"
proof -
  have "(86400 * day + 60 * m) mod 86400 = 60 * m" using assms by (simp add: mod_pos_pos_trivial)
  then have "minute_of (seconds (86400 * day + 60 * m)) + hour_of (seconds (86400 * day + 60 * m)) * 60 = m"
    by (simp add: minute_of_day)
  then show ?thesis
    by (simp add: should_check_robots_def from_time_def Let_def ROBOTS_TXT_CHECK_INTERVAL_MINUTES_def)
qed

text \<open>
  A subscription whose ticks fall on the minutes congruent to \<open>m0\<close> modulo its interval has
  exactly one tick a day that asks for a robots.txt check if and only if its minute of the day is
  at most \<open>1440 - interval + m0\<close>; for the others the window would have to wrap around midnight,
  which the code does not do, and they are never checked.
\<close>

theorem robots_daily_iff:
  assumes i: "i = int (interval_secs (cc_interval c)) div 60"
    and m0: "0 \<le> m0" "m0 < i"
  shows "(\<exists>!m. 0 \<le> m \<and> m < 1440 \<and> m mod i = m0
            \<and> should_check_robots c (from_time (seconds (86400 * day + 60 * m))))
     \<longleftrightarrow> int (unat (cc_subscription_id c) mod 1440) \<le> 1440 - i + m0"
proof -
  let ?d = "int (unat (cc_subscription_id c) mod 1440)"
  have ip: "0 < i" by (simp add: i interval_minutes_pos)
  have dv: "i dvd 1440" by (simp add: i interval_minutes_dvd)
  have iff: "(0 \<le> m \<and> m < 1440 \<and> m mod i = m0
            \<and> should_check_robots c (from_time (seconds (86400 * day + 60 * m))))
     \<longleftrightarrow> m < 1440 \<and> ?d \<le> m \<and> m < ?d + i \<and> m mod i = m0" for m
    using should_check_robots_iff [of m c day] i by auto
  have w: "\<exists>!m. ?d \<le> m \<and> m < ?d + i \<and> m mod i = m0"
    using ip m0 by (rule unique_residue_in_window)
  then obtain x where x: "?d \<le> x" "x < ?d + i" "x mod i = m0" by blast
  have "x < 1440 \<longleftrightarrow> ?d \<le> 1440 - i + m0"
  proof
    assume "x < 1440"
    from dv obtain q where q: "1440 = i * q" by (rule dvdE)
    have "x = m0 + i * (x div i)" using x by (metis add.commute mult_div_mod_eq)
    moreover from this \<open>x < 1440\<close> have "i * (x div i) < i * q" using q m0 by linarith
    then have "x div i < q" using ip by simp
    then have "i * (x div i) \<le> i * (q - 1)" using ip by (intro mult_left_mono) auto
    ultimately have "x \<le> m0 + (1440 - i)" unfolding q by (simp add: right_diff_distrib)
    with x show "?d \<le> 1440 - i + m0" by simp
  next
    assume d: "?d \<le> 1440 - i + m0"
    have "(1440 - i + m0) mod i = m0" using dv m0
      by (metis add.commute add_diff_eq dvd_imp_mod_0 mod_add_right_eq mod_diff_right_eq mod_pos_pos_trivial mod_self diff_zero add_0 mod_add_left_eq)
    show "x < 1440"
    proof (rule ccontr)
      assume "\<not> x < 1440"
      then have gt: "1440 - i + m0 < x" using m0 by linarith
      with \<open>(1440 - i + m0) mod i = m0\<close> x have "i dvd x - (1440 - i + m0)"
        by (simp add: mod_eq_dvd_iff [symmetric])
      then have "i \<le> x - (1440 - i + m0)" using gt by (intro zdvd_imp_le) auto
      with x d show False by linarith
    qed
  qed
  then show ?thesis unfolding iff using w x by auto
qed

theorem robots_daily_iff_witness:
  "(60::int) = int (interval_secs (cc_interval (default_check_config\<lparr>cc_interval := SixtyMinutes,
                     cc_subscription_id := 1439\<rparr>))) div 60
   \<and> \<not> (\<exists>!m. 0 \<le> m \<and> m < 1440 \<and> m mod 60 = 0
            \<and> should_check_robots (default_check_config\<lparr>cc_interval := SixtyMinutes,
                 cc_subscription_id := 1439\<rparr>) (from_time (seconds (86400 * 19000 + 60 * m))))"
  using robots_daily_iff [of 60 "default_check_config\<lparr>cc_interval := SixtyMinutes,
                     cc_subscription_id := 1439\<rparr>" 0 19000]
  by (simp add: default_check_config_def)

end
