(* ===== verification/ConfigStore.thy ===== *)
theory ConfigStore
  imports CheckConfigs
begin

text \<open>
  The configuration store of \<open>src/src/config_store.rs\<close>: one bucket of configurations per
  second of the hour, the configurations by subscription, and the instant of the last update.
  A bucket is a hash set compared by whole configurations, hence a set; the shared pointers of
  the source are compared by the value they point to, hence are the value.
\<close>

section \<open>State and operations\<close>

type_synonym TickBucket = "check_config set"

record ConfigStore =
  tick_buckets :: "TickBucket list"
  configs :: "u128 \<Rightarrow> check_config option"
  last_update :: "instant option"

definition make_empty_tick_buckets :: "TickBucket list" where
  "make_empty_tick_buckets = map (\<lambda>_. {}) [0..<MAX_CHECK_INTERVAL_SECS]"

definition new_store :: ConfigStore where
  "new_store = \<lparr>tick_buckets = make_empty_tick_buckets, configs = Map.empty, last_update = None\<rparr>"

text \<open>The loops over the slots; an index out of range panics.\<close>

fun insert_slots :: "check_config \<Rightarrow> nat list \<Rightarrow> TickBucket list \<Rightarrow> TickBucket list option" where
  "insert_slots c [] bs = Some bs"
| "insert_slots c (slot # rest) bs =
     (if slot < length bs then insert_slots c rest (bs[slot := insert c (bs ! slot)]) else None)"

fun remove_slots :: "check_config \<Rightarrow> nat list \<Rightarrow> TickBucket list \<Rightarrow> TickBucket list option" where
  "remove_slots c [] bs = Some bs"
| "remove_slots c (slot # rest) bs =
     (if slot < length bs then remove_slots c rest (bs[slot := bs ! slot - {c}]) else None)"

definition remove_config :: "uuid_v5 \<Rightarrow> instant \<Rightarrow> u128 \<Rightarrow> ConfigStore \<Rightarrow> ConfigStore option" where
  "remove_config v5 now subscription_id s =
     (case configs s subscription_id of
        None \<Rightarrow> Some s
      | Some config \<Rightarrow>
          (let s = s\<lparr>configs := (configs s)(subscription_id := None)\<rparr>
           in case slots v5 config of
                None \<Rightarrow> None
              | Some ss \<Rightarrow>
                  (case remove_slots config ss (tick_buckets s) of
                     None \<Rightarrow> None
                   | Some bs \<Rightarrow> Some (s\<lparr>tick_buckets := bs, last_update := Some now\<rparr>))))"

definition add_config :: "uuid_v5 \<Rightarrow> instant \<Rightarrow> check_config \<Rightarrow> ConfigStore \<Rightarrow> ConfigStore option" where
  "add_config v5 now config s =
     (case (if configs s (cc_subscription_id config) \<noteq> None
            then remove_config v5 now (cc_subscription_id config) s
            else Some s) of
        None \<Rightarrow> None
      | Some s \<Rightarrow>
          (let s = s\<lparr>configs := (configs s)(cc_subscription_id config \<mapsto> config)\<rparr>
           in case slots v5 config of
                None \<Rightarrow> None
              | Some ss \<Rightarrow>
                  (case insert_slots config ss (tick_buckets s) of
                     None \<Rightarrow> None
                   | Some bs \<Rightarrow> Some (s\<lparr>tick_buckets := bs, last_update := Some now\<rparr>))))"

definition all_configs :: "ConfigStore \<Rightarrow> check_config set" where
  "all_configs s = ran (configs s)"

definition get_configs :: "Tick \<Rightarrow> ConfigStore \<Rightarrow> TickBucket option" where
  "get_configs tick s =
     (if tick_index tick < length (tick_buckets s) then Some (tick_buckets s ! tick_index tick)
      else None)"

definition get_last_update :: "ConfigStore \<Rightarrow> instant option" where
  "get_last_update s = last_update s"

section \<open>The bucket loops\<close>

lemma length_insert_slots:
  "insert_slots c ss bs = Some bs' \<Longrightarrow> length bs' = length bs"
  by (induction c ss bs arbitrary: bs' rule: insert_slots.induct) (auto split: if_splits)

lemma length_remove_slots:
  "remove_slots c ss bs = Some bs' \<Longrightarrow> length bs' = length bs"
  by (induction c ss bs arbitrary: bs' rule: remove_slots.induct) (auto split: if_splits)

lemma insert_slots_Some:
  "\<forall>x\<in>set ss. x < length bs \<Longrightarrow>
     \<exists>bs'. insert_slots c ss bs = Some bs' \<and> length bs' = length bs
       \<and> (\<forall>j<length bs. bs' ! j = (if j \<in> set ss then insert c (bs ! j) else bs ! j))"
proof (induction c ss bs rule: insert_slots.induct)
  case (2 c slot rest bs)
  then show ?case by (fastforce simp: nth_list_update)
qed simp

lemma remove_slots_Some:
  "\<forall>x\<in>set ss. x < length bs \<Longrightarrow>
     \<exists>bs'. remove_slots c ss bs = Some bs' \<and> length bs' = length bs
       \<and> (\<forall>j<length bs. bs' ! j = (if j \<in> set ss then bs ! j - {c} else bs ! j))"
proof (induction c ss bs rule: remove_slots.induct)
  case (2 c slot rest bs)
  then show ?case by (fastforce simp: nth_list_update)
qed simp

section \<open>Invariant\<close>

text \<open>
  The buckets are in range, every configuration is stored under its own subscription, and a
  bucket holds exactly the stored configurations that have the bucket among their slots.
\<close>

definition slot_of :: "uuid_v5 \<Rightarrow> check_config \<Rightarrow> nat \<Rightarrow> bool" where
  "slot_of v5 c j = (j < 3600 \<and> j mod interval_secs (cc_interval c) = first_slot v5 c)"

definition store_inv :: "uuid_v5 \<Rightarrow> ConfigStore \<Rightarrow> bool" where
  "store_inv v5 s \<longleftrightarrow>
     length (tick_buckets s) = MAX_CHECK_INTERVAL_SECS
     \<and> (\<forall>k c. configs s k = Some c \<longrightarrow> cc_subscription_id c = k)
     \<and> (\<forall>j<MAX_CHECK_INTERVAL_SECS.
          tick_buckets s ! j = {c. configs s (cc_subscription_id c) = Some c \<and> slot_of v5 c j})"

lemma store_inv_keys:
  "store_inv v5 s \<Longrightarrow> \<forall>k c. configs s k = Some c \<longrightarrow> cc_subscription_id c = k"
  unfolding store_inv_def by (elim conjE)

lemma store_inv_buckets:
  "store_inv v5 s \<Longrightarrow> \<forall>j<3600. tick_buckets s ! j
     = {c. configs s (cc_subscription_id c) = Some c \<and> slot_of v5 c j}"
  unfolding store_inv_def max_interval by (elim conjE)

lemma store_inv_length: "store_inv v5 s \<Longrightarrow> length (tick_buckets s) = 3600"
  unfolding store_inv_def max_interval by (elim conjE)

lemma store_inv_new [uc_intros]: "store_inv v5 new_store"
  by (simp add: store_inv_def new_store_def make_empty_tick_buckets_def)

lemma slots_slot_of:
  "\<exists>ss. slots v5 c = Some ss \<and> (\<forall>x\<in>set ss. x < 3600) \<and> (\<forall>j. j \<in> set ss \<longleftrightarrow> slot_of v5 c j)"
proof -
  let ?ss = "map (\<lambda>k. first_slot v5 c + interval_secs (cc_interval c) * k)
               [0..<3600 div interval_secs (cc_interval c)]"
  have "set ?ss = {s. s < 3600 \<and> s mod interval_secs (cc_interval c) = first_slot v5 c}"
    using set_slots [of v5 c] by simp
  then show ?thesis unfolding slots_eq slot_of_def by blast
qed

lemma remove_config_absent:
  "configs s k = None \<Longrightarrow> remove_config v5 now k s = Some s"
  by (simp add: remove_config_def)

lemma remove_config_present:
  assumes inv: "store_inv v5 s" and c: "configs s k = Some c"
  obtains s' where "remove_config v5 now k s = Some s'" "store_inv v5 s'"
    "configs s' = (configs s)(k := None)" "last_update s' = Some now"
proof -
  from inv have len: "length (tick_buckets s) = 3600" by (rule store_inv_length)
  obtain ss where ss: "slots v5 c = Some ss" "\<forall>x\<in>set ss. x < 3600"
      "\<And>j. j \<in> set ss \<longleftrightarrow> slot_of v5 c j"
    using slots_slot_of [of v5 c] by blast
  from ss(2) obtain bs where bs: "remove_slots c ss (tick_buckets s) = Some bs"
      "length bs = 3600"
      "\<forall>j<3600. bs ! j = (if j \<in> set ss then tick_buckets s ! j - {c} else tick_buckets s ! j)"
    using remove_slots_Some [of ss "tick_buckets s" c] len by auto
  let ?s = "s\<lparr>configs := (configs s)(k := None), tick_buckets := bs, last_update := Some now\<rparr>"
  have "remove_config v5 now k s = Some ?s"
    using c ss(1) bs(1) by (simp add: remove_config_def Let_def del: slots_eq)
  moreover have "store_inv v5 ?s"
  proof -
    have key: "\<forall>k c. configs s k = Some c \<longrightarrow> cc_subscription_id c = k"
      and old: "\<forall>j<3600. tick_buckets s ! j
                  = {d. configs s (cc_subscription_id d) = Some d \<and> slot_of v5 d j}"
      by (rule store_inv_keys [OF inv], rule store_inv_buckets [OF inv])
    have kc: "cc_subscription_id c = k" using key c by blast
    have "bs ! j = {d. ((configs s)(k := None)) (cc_subscription_id d) = Some d \<and> slot_of v5 d j}"
      if j: "j < 3600" for j
    proof -
      have "bs ! j = (if slot_of v5 c j then tick_buckets s ! j - {c} else tick_buckets s ! j)"
        using bs(3) ss(3) j by simp
      moreover have "tick_buckets s ! j
          = {d. configs s (cc_subscription_id d) = Some d \<and> slot_of v5 d j}"
        using old j by (elim allE impE)
      ultimately show ?thesis
        unfolding keyed_set_delete [of "configs s" k c cc_subscription_id, OF c kc] by simp
    qed
    then show ?thesis
      using bs(2) keyed_dom_delete [OF key, of k] unfolding store_inv_def max_interval
      by (simp del: fun_upd_apply)
  qed
  ultimately show thesis by (rule that) simp_all
qed

lemma remove_config_ok:
  assumes "store_inv v5 s"
  obtains s' where "remove_config v5 now k s = Some s'" "store_inv v5 s'"
    "configs s' = (configs s)(k := None)"
    "last_update s' = (if configs s k = None then last_update s else Some now)"
proof (cases "configs s k")
  case None
  then have eq: "(configs s)(k := None) = configs s" by (auto simp: fun_eq_iff)
  show thesis by (rule that [of s]) (simp_all add: None remove_config_absent assms eq)
next
  case (Some c)
  show thesis
    by (rule remove_config_present [OF assms Some, of now]) (rule that, simp_all add: Some)
qed

lemma add_config_ok:
  assumes inv: "store_inv v5 s"
  obtains s' where "add_config v5 now c s = Some s'" "store_inv v5 s'"
    "configs s' = (configs s)(cc_subscription_id c \<mapsto> c)" "last_update s' = Some now"
proof -
  let ?k = "cc_subscription_id c"
  obtain t where t: "(if configs s ?k \<noteq> None then remove_config v5 now ?k s else Some s) = Some t"
      "store_inv v5 t" "configs t = (configs s)(?k := None)"
  proof (cases "configs s ?k")
    case None
    then have "(configs s)(?k := None) = configs s" by (auto simp: fun_eq_iff)
    with None inv show thesis by (intro that [of s]) simp_all
  next
    case (Some d)
    show thesis
      by (rule remove_config_present [OF inv Some, of now]) (rule that, simp_all add: Some)
  qed
  from t(2) have len: "length (tick_buckets t) = 3600" by (rule store_inv_length)
  obtain ss where ss: "slots v5 c = Some ss" "\<forall>x\<in>set ss. x < 3600"
      "\<And>j. j \<in> set ss \<longleftrightarrow> slot_of v5 c j"
    using slots_slot_of [of v5 c] by blast
  from ss(2) obtain bs where bs: "insert_slots c ss (tick_buckets t) = Some bs"
      "length bs = 3600"
      "\<forall>j<3600. bs ! j = (if j \<in> set ss then insert c (tick_buckets t ! j) else tick_buckets t ! j)"
    using insert_slots_Some [of ss "tick_buckets t" c] len by auto
  let ?s = "t\<lparr>configs := (configs t)(?k \<mapsto> c), tick_buckets := bs, last_update := Some now\<rparr>"
  have "add_config v5 now c s = Some ?s"
    using t(1) ss(1) bs(1) by (simp add: add_config_def Let_def del: slots_eq)
  moreover have "store_inv v5 ?s"
  proof -
    have key: "\<forall>k c. configs t k = Some c \<longrightarrow> cc_subscription_id c = k"
      and old: "\<forall>j<3600. tick_buckets t ! j
                  = {d. configs t (cc_subscription_id d) = Some d \<and> slot_of v5 d j}"
      by (rule store_inv_keys [OF t(2)], rule store_inv_buckets [OF t(2)])
    have none: "configs t ?k = None" by (simp add: t(3))
    have "bs ! j = {d. ((configs t)(?k \<mapsto> c)) (cc_subscription_id d) = Some d \<and> slot_of v5 d j}"
      if j: "j < 3600" for j
    proof -
      have "bs ! j = (if slot_of v5 c j then insert c (tick_buckets t ! j) else tick_buckets t ! j)"
        using bs(3) ss(3) j by simp
      moreover have "tick_buckets t ! j
          = {d. configs t (cc_subscription_id d) = Some d \<and> slot_of v5 d j}"
        using old j by (elim allE impE)
      ultimately show ?thesis
        unfolding keyed_set_insert [of "configs t" cc_subscription_id, OF none] by simp
    qed
    then show ?thesis
      using bs(2) keyed_dom_insert [OF key, of c] unfolding store_inv_def max_interval
      by (simp del: fun_upd_apply)
  qed
  ultimately show thesis using t(3) by (intro that [of ?s]) simp_all
qed

lemma due_slot_of: "due v5 c tick \<longleftrightarrow> slot_of v5 c (tick_index tick)"
  by (simp add: due_iff slot_of_def)

lemma get_configs_ok:
  assumes "store_inv v5 s" "tick_index tick < 3600"
  shows "get_configs tick s
           = Some {c. configs s (cc_subscription_id c) = Some c \<and> due v5 c tick}"
  using assms by (simp add: store_inv_def get_configs_def due_slot_of)

section \<open>The store as a registry of configurations\<close>

text \<open>
  What the clients of the store rely on: the provider adds and removes configurations, the
  scheduler asks for the configurations of a tick.  The view of a registry is the map from
  subscriptions to configurations.
\<close>

datatype ('k, 'c) registry_update = Upsert 'c | Remove 'k

fun run_updates ::
    "(instant \<Rightarrow> 'c \<Rightarrow> 's \<Rightarrow> 's option) \<Rightarrow> (instant \<Rightarrow> 'k \<Rightarrow> 's \<Rightarrow> 's option)
     \<Rightarrow> (instant \<times> ('k, 'c) registry_update) list \<Rightarrow> 's \<Rightarrow> 's option" where
  "run_updates add remove [] s = Some s"
| "run_updates add remove ((now, Upsert c) # us) s =
     (case add now c s of None \<Rightarrow> None | Some s' \<Rightarrow> run_updates add remove us s')"
| "run_updates add remove ((now, Remove k) # us) s =
     (case remove now k s of None \<Rightarrow> None | Some s' \<Rightarrow> run_updates add remove us s')"

fun spec_updates ::
    "('c \<Rightarrow> 'k) \<Rightarrow> (instant \<times> ('k, 'c) registry_update) list \<Rightarrow> ('k \<Rightarrow> 'c option)
     \<Rightarrow> ('k \<Rightarrow> 'c option)" where
  "spec_updates key [] m = m"
| "spec_updates key ((_, Upsert c) # us) m = spec_updates key us (m(key c \<mapsto> c))"
| "spec_updates key ((_, Remove k) # us) m = spec_updates key us (m(k := None))"

locale config_registry =
  fixes key :: "'c \<Rightarrow> 'k"
    and invar :: "'s \<Rightarrow> bool"
    and view :: "'s \<Rightarrow> 'k \<Rightarrow> 'c option"
    and add :: "instant \<Rightarrow> 'c \<Rightarrow> 's \<Rightarrow> 's option"
    and remove :: "instant \<Rightarrow> 'k \<Rightarrow> 's \<Rightarrow> 's option"
    and at :: "Tick \<Rightarrow> 's \<Rightarrow> 'c set option"
    and is_due :: "'c \<Rightarrow> Tick \<Rightarrow> bool"
  assumes add_ok: "invar s \<Longrightarrow>
      \<exists>s'. add now c s = Some s' \<and> invar s' \<and> view s' = (view s)(key c \<mapsto> c)"
    and remove_ok: "invar s \<Longrightarrow>
      \<exists>s'. remove now k s = Some s' \<and> invar s' \<and> view s' = (view s)(k := None)"
    and at_ok: "invar s \<Longrightarrow> tick_index tick < 3600 \<Longrightarrow>
      at tick s = Some {c. view s (key c) = Some c \<and> is_due c tick}"
begin

lemma run_ok:
  "invar s \<Longrightarrow> \<exists>s'. run_updates add remove us s = Some s' \<and> invar s'
     \<and> view s' = spec_updates key us (view s)"
proof (induction us arbitrary: s)
  case Nil
  then show ?case by simp
next
  case (Cons u us)
  obtain now x where u: "u = (now, x)" by (cases u)
  show ?case
  proof (cases x)
    case (Upsert c)
    obtain s' where s': "add now c s = Some s'" "invar s'" "view s' = (view s)(key c \<mapsto> c)"
      using add_ok [OF Cons.prems] by blast
    from Cons.IH [OF s'(2)] show ?thesis
      by (simp only: u Upsert run_updates.simps spec_updates.simps s'(1,3) option.case)
  next
    case (Remove k)
    obtain s' where s': "remove now k s = Some s'" "invar s'" "view s' = (view s)(k := None)"
      using remove_ok [OF Cons.prems] by blast
    from Cons.IH [OF s'(2)] show ?thesis
      by (simp only: u Remove run_updates.simps spec_updates.simps s'(1,3) option.case)
  qed
qed

lemma one_version:
  assumes "invar s" "tick_index tick < 3600" "at tick s = Some b"
  shows "inj_on key b"
  using at_ok [OF assms(1,2)] assms(3) keyed_set_inj by simp

lemma added_is_scheduled:
  assumes "invar s" and "tick_index tick < 3600"
  shows "\<exists>s' b. add now c s = Some s' \<and> at tick s' = Some b
     \<and> {d \<in> b. key d = key c} = (if is_due c tick then {c} else {})"
proof -
  obtain s' where s': "add now c s = Some s'" "invar s'" "view s' = (view s)(key c \<mapsto> c)"
    using add_ok [OF assms(1)] by blast
  show ?thesis
    by (intro exI conjI, rule s'(1), rule at_ok [OF s'(2) assms(2)]) (unfold s'(3), rule keyed_set_same)
qed

lemma removed_is_gone:
  assumes "invar s" and "tick_index tick < 3600"
  shows "\<exists>s' b. remove now k s = Some s' \<and> at tick s' = Some b \<and> {d \<in> b. key d = k} = {}"
proof -
  obtain s' where s': "remove now k s = Some s'" "invar s'" "view s' = (view s)(k := None)"
    using remove_ok [OF assms(1)] by blast
  show ?thesis
    by (intro exI conjI, rule s'(1), rule at_ok [OF s'(2) assms(2)]) (unfold s'(3), rule keyed_set_none)
qed

end

interpretation store: config_registry cc_subscription_id "store_inv v5" configs "add_config v5"
    "remove_config v5" get_configs "due v5" for v5
proof unfold_locales
  fix s now c assume "store_inv v5 s"
  then show "\<exists>s'. add_config v5 now c s = Some s' \<and> store_inv v5 s'
      \<and> configs s' = (configs s)(cc_subscription_id c \<mapsto> c)"
    by (rule add_config_ok [of v5 s now c]) blast
next
  fix s now k assume "store_inv v5 s"
  then show "\<exists>s'. remove_config v5 now k s = Some s' \<and> store_inv v5 s'
      \<and> configs s' = (configs s)(k := None)"
    by (rule remove_config_ok [of v5 s now k]) blast
qed (rule get_configs_ok)

section \<open>Properties\<close>

text \<open>
  C1: whatever sequence of upserts and deletions the store receives, no operation panics, the
  configurations by subscription are those of the same sequence on a plain map, and the bucket of
  every tick holds exactly the current configurations that are due at that tick.
\<close>

theorem store_refines_map:
  "\<exists>s. run_updates (add_config v5) (remove_config v5) us new_store = Some s
     \<and> configs s = spec_updates cc_subscription_id us Map.empty
     \<and> (\<lambda>t. get_configs (from_time t) s)
       = (\<lambda>t. Some {c. spec_updates cc_subscription_id us Map.empty (cc_subscription_id c) = Some c
                        \<and> due v5 c (from_time t)})"
proof -
  obtain s where s: "run_updates (add_config v5) (remove_config v5) us new_store = Some s"
      "store_inv v5 s" "configs s = spec_updates cc_subscription_id us (configs new_store)"
    using store.run_ok [OF store_inv_new] by blast
  have "configs new_store = Map.empty" by (simp add: new_store_def)
  with s show ?thesis
    by (auto simp: fun_eq_iff get_configs_ok tick_index_less)
qed

text \<open>
  An upsert leaves no trace of an older version of the subscription: after it, the bucket of
  a tick holds the new configuration when it is due then, and no other configuration of the
  subscription, in every state that satisfies the invariant.
\<close>

theorem upsert_replaces:
  assumes "store_inv v5 s"
  shows "\<exists>s' b. add_config v5 now c s = Some s' \<and> get_configs (from_time t) s' = Some b
     \<and> {d \<in> b. cc_subscription_id d = cc_subscription_id c}
       = (if due v5 c (from_time t) then {c} else {})"
  using assms by (rule store.added_is_scheduled) (rule tick_index_less)

theorem upsert_replaces_witness:
  "store_inv (\<lambda>_ _. 7) new_store
   \<and> (\<exists>s' b. add_config (\<lambda>_ _. 7) 5 default_check_config new_store = Some s'
        \<and> get_configs (from_time (seconds 127)) s' = Some b
        \<and> {d \<in> b. cc_subscription_id d = cc_subscription_id default_check_config}
          = {default_check_config})"
proof -
  have "due (\<lambda>_ _. 7) default_check_config (from_time (seconds 127))"
    by (simp add: due_iff tick_index_less from_time_index first_slot_def default_check_config_def)
  then show ?thesis
    using upsert_replaces [OF store_inv_new, of "\<lambda>_ _. 7" 5 default_check_config "seconds 127"]
    by (simp add: store_inv_new)
qed

text \<open>
  A deletion removes the subscription from every bucket, does nothing for an unknown
  subscription, and records its instant as the last update only when it removed something.
\<close>

theorem delete_removes:
  assumes "store_inv v5 s"
  shows "\<exists>s' b. remove_config v5 now k s = Some s' \<and> get_configs (from_time t) s' = Some b
     \<and> {d \<in> b. cc_subscription_id d = k} = {}
     \<and> get_last_update s' = (if configs s k = None then get_last_update s else Some now)"
proof -
  obtain s' where s': "remove_config v5 now k s = Some s'" "store_inv v5 s'"
      "configs s' = (configs s)(k := None)"
      "last_update s' = (if configs s k = None then last_update s else Some now)"
    using assms by (rule remove_config_ok [of v5 s now k])
  then show ?thesis
    by (auto simp: get_configs_ok tick_index_less get_last_update_def)
qed

theorem delete_removes_witness:
  "\<exists>s s' b. add_config (\<lambda>_ _. 7) 5 default_check_config new_store = Some s
     \<and> remove_config (\<lambda>_ _. 7) 9 0 s = Some s'
     \<and> get_configs (from_time (seconds 127)) s' = Some b
     \<and> {d \<in> b. cc_subscription_id d = 0} = {} \<and> get_last_update s' = Some 9"
proof -
  obtain s where s: "add_config (\<lambda>_ _. 7) 5 default_check_config new_store = Some s"
      "store_inv (\<lambda>_ _. 7) s" "configs s = (configs new_store)(0 \<mapsto> default_check_config)"
    using add_config_ok [OF store_inv_new, of "\<lambda>_ _. 7" 5 default_check_config]
    by (metis check_config.select_convs(1) default_check_config_def)
  then show ?thesis
    using delete_removes [OF s(2), of 9 0 "seconds 127"] by auto
qed

end
