(* ===== verification/RustStd.thy ===== *)
theory RustStd
  imports UCPrelude "HOL-Library.Char_ord" "HOL-Library.List_Lexorder"
begin

text \<open>
  The parts of the Rust standard library the program computes with: decimal printing and
  parsing of 64-bit integers, the parsing and comparison of 64-bit floating point numbers,
  and the comparison of strings (a string is its list of bytes, and the lexicographic order
  of lists over the order of characters is the byte order of the source).
\<close>

section \<open>Decimal integers\<close>

datatype IntErrorKind = IntEmpty | InvalidDigit | PosOverflow | NegOverflow

fun int_error_to_string :: "IntErrorKind \<Rightarrow> string" where
  "int_error_to_string IntEmpty = ''cannot parse integer from empty string''"
| "int_error_to_string InvalidDigit = ''invalid digit found in string''"
| "int_error_to_string PosOverflow = ''number too large to fit in target type''"
| "int_error_to_string NegOverflow = ''number too small to fit in target type''"

definition digit_of :: "char \<Rightarrow> nat option" where
  "digit_of c = (let n = of_char c :: nat in if 48 \<le> n \<and> n \<le> 57 then Some (n - 48) else None)"

definition digit_char :: "nat \<Rightarrow> char" where
  "digit_char d = char_of (48 + d)"

fun i64_digits :: "bool \<Rightarrow> string \<Rightarrow> int \<Rightarrow> IntErrorKind + i64" where
  "i64_digits pos [] acc = Inr acc"
| "i64_digits pos (c # cs) acc =
     (case digit_of c of
        None \<Rightarrow> Inl InvalidDigit
      | Some d \<Rightarrow>
          (let r = (if pos then acc * 10 + int d else acc * 10 - int d)
           in if pos \<and> i64_max < r then Inl PosOverflow
              else if \<not> pos \<and> r < i64_min then Inl NegOverflow
              else i64_digits pos cs r))"

definition parse_i64 :: "string \<Rightarrow> IntErrorKind + i64" where
  "parse_i64 s =
     (case s of
        [] \<Rightarrow> Inl IntEmpty
      | c # rest \<Rightarrow>
          if c = CHR ''+'' then (if rest = [] then Inl InvalidDigit else i64_digits True rest 0)
          else if c = CHR ''-'' then (if rest = [] then Inl InvalidDigit else i64_digits False rest 0)
          else i64_digits True s 0)"

fun show_nat :: "nat \<Rightarrow> string" where
  "show_nat n = (if n < 10 then [digit_char n] else show_nat (n div 10) @ [digit_char (n mod 10)])"

declare show_nat.simps [simp del]

definition show_int :: "int \<Rightarrow> string" where
  "show_int i = (if i < 0 then CHR ''-'' # show_nat (nat (- i)) else show_nat (nat i))"

lemma digit_of_char [simp]: "d < 10 \<Longrightarrow> digit_of (digit_char d) = Some d"
  by (simp add: digit_of_def digit_char_def Let_def)

lemma digit_of_less: "digit_of c = Some d \<Longrightarrow> d < 10"
  by (auto simp: digit_of_def Let_def split: if_splits)

lemma i64_digits_append:
  "i64_digits pos (xs @ ys) acc =
     (case i64_digits pos xs acc of Inl e \<Rightarrow> Inl e | Inr a \<Rightarrow> i64_digits pos ys a)"
  by (induction pos xs acc rule: i64_digits.induct) (auto simp: Let_def split: option.splits)

lemma int_decimal: "int (n div 10) * 10 + int (n mod 10) = int n"
  by (simp add: zdiv_int zmod_int)

lemma i64_digits_show_pos:
  "int n \<le> i64_max \<Longrightarrow> i64_digits True (show_nat n) 0 = Inr (int n)"
proof (induction n rule: show_nat.induct)
  case (1 n)
  show ?case
  proof (cases "n < 10")
    case True
    with "1.prems" show ?thesis by (simp add: show_nat.simps [of n] Let_def)
  next
    case False
    have "int (n div 10) \<le> i64_max" using "1.prems" by (simp add: zdiv_int)
    with False "1.IH" have "i64_digits True (show_nat (n div 10)) 0 = Inr (int (n div 10))" by simp
    moreover have "int (n div 10) * 10 + int (n mod 10) = int n" by (rule int_decimal)
    ultimately show ?thesis
      using False "1.prems" by (simp add: show_nat.simps [of n] i64_digits_append Let_def)
  qed
qed

lemma i64_digits_show_neg:
  "i64_min \<le> - int n \<Longrightarrow> i64_digits False (show_nat n) 0 = Inr (- int n)"
proof (induction n rule: show_nat.induct)
  case (1 n)
  show ?case
  proof (cases "n < 10")
    case True
    with "1.prems" show ?thesis by (simp add: show_nat.simps [of n] Let_def)
  next
    case False
    have "i64_min \<le> - int (n div 10)" using "1.prems" by (simp add: zdiv_int)
    with False "1.IH" have "i64_digits False (show_nat (n div 10)) 0 = Inr (- int (n div 10))" by simp
    moreover have "- int (n div 10) * 10 - int (n mod 10) = - int n"
      using int_decimal [of n] by linarith
    ultimately show ?thesis
      using False "1.prems" by (simp add: show_nat.simps [of n] i64_digits_append Let_def)
  qed
qed

lemma show_nat_not_empty [simp]: "show_nat n \<noteq> []"
  by (subst show_nat.simps) simp

lemma digit_of_sign [simp]:
  "digit_of (CHR ''+'') = None" "digit_of (CHR ''-'') = None"
  "digit_of (CHR ''.'') = None" "digit_of (CHR ''e'') = None"
  by (simp_all add: digit_of_def Let_def)

lemma digit_char_sign: "d < 10 \<Longrightarrow> digit_char d \<noteq> CHR ''+'' \<and> digit_char d \<noteq> CHR ''-''"
  using digit_of_char [of d] by (metis digit_of_sign(1,2) option.distinct(1))

lemma show_nat_first: "\<exists>d ds. d < 10 \<and> show_nat n = digit_char d # ds"
proof (induction n rule: show_nat.induct)
  case (1 n)
  then show ?case by (cases "n < 10") (auto simp: show_nat.simps [of n])
qed

lemma parse_i64_show_int:
  assumes "i64_min \<le> i" "i \<le> i64_max"
  shows "parse_i64 (show_int i) = Inr i"
proof (cases "i < 0")
  case True
  with assms show ?thesis by (simp add: parse_i64_def show_int_def i64_digits_show_neg)
next
  case False
  obtain d ds where d: "d < 10" "show_nat (nat i) = digit_char d # ds"
    using show_nat_first by blast
  have "i64_digits True (show_nat (nat i)) 0 = Inr i"
    using False assms by (simp add: i64_digits_show_pos)
  with False d digit_char_sign [OF d(1)] show ?thesis
    by (simp add: parse_i64_def show_int_def)
qed

lemma i64_digits_range:
  "i64_digits pos s acc = Inr i \<Longrightarrow> i64_min \<le> acc \<Longrightarrow> acc \<le> i64_max
     \<Longrightarrow> (pos \<longrightarrow> 0 \<le> acc) \<Longrightarrow> (\<not> pos \<longrightarrow> acc \<le> 0) \<Longrightarrow> i64_min \<le> i \<and> i \<le> i64_max"
  by (induction pos s acc rule: i64_digits.induct)
    (auto simp: Let_def i64_min_def i64_max_def split: option.splits if_splits)

lemma i64_digits_all: "i64_digits pos s acc = Inr i \<Longrightarrow> c \<in> set s \<Longrightarrow> digit_of c \<noteq> None"
  by (induction pos s acc rule: i64_digits.induct) (auto simp: Let_def split: option.splits if_splits)

section \<open>64-bit floating point numbers\<close>

text \<open>
  A finite value is an integer number of the smallest positive value, two to the power minus
  1074; the sign of zero, which no comparison of the program sees, is dropped.
\<close>

datatype f64 = F64NaN | F64Inf bool | F64Fin int

datatype FloatErrorKind = FloatEmpty | FloatInvalid

fun float_error_to_string :: "FloatErrorKind \<Rightarrow> string" where
  "float_error_to_string FloatEmpty = ''cannot parse float from empty string''"
| "float_error_to_string FloatInvalid = ''invalid float literal''"

fun f64_eq :: "f64 \<Rightarrow> f64 \<Rightarrow> bool" where
  "f64_eq (F64Inf a) (F64Inf b) = (a = b)"
| "f64_eq (F64Fin a) (F64Fin b) = (a = b)"
| "f64_eq _ _ = False"

instantiation f64 :: ord
begin

fun less_f64 :: "f64 \<Rightarrow> f64 \<Rightarrow> bool" where
  "less_f64 (F64Inf a) (F64Inf b) = (a \<and> \<not> b)"
| "less_f64 (F64Inf a) (F64Fin _) = a"
| "less_f64 (F64Fin _) (F64Inf b) = (\<not> b)"
| "less_f64 (F64Fin a) (F64Fin b) = (a < b)"
| "less_f64 _ _ = False"

definition less_eq_f64 :: "f64 \<Rightarrow> f64 \<Rightarrow> bool" where
  "less_eq_f64 a b = (a < b \<or> f64_eq a b)"

instance ..

end

fun bit_length :: "nat \<Rightarrow> nat" where
  "bit_length n = (if n = 0 then 0 else Suc (bit_length (n div 2)))"

declare bit_length.simps [simp del]

text \<open>
  The value nearest to the ratio \<open>n / d\<close>, ties to even, with 53 significant bits; a value that
  does not fit is infinite.
\<close>

definition f64_of_ratio :: "bool \<Rightarrow> nat \<Rightarrow> nat \<Rightarrow> f64" where
  "f64_of_ratio neg n d =
     (let x = n * 2 ^ 1074;
          s = bit_length (x div d) - 53;
          u = d * 2 ^ s;
          q = x div u;
          r = x mod u;
          q' = (if u < 2 * r \<or> (2 * r = u \<and> odd q) then Suc q else q);
          v = q' * 2 ^ s
      in if 2 ^ 2098 \<le> v then F64Inf neg else F64Fin (if neg then - int v else int v))"

definition lower_ascii :: "char \<Rightarrow> char" where
  "lower_ascii c =
     (let n = of_char c :: nat in if 65 \<le> n \<and> n \<le> 90 then char_of (n + 32) else c)"

definition is_digit :: "char \<Rightarrow> bool" where
  "is_digit c = (digit_of c \<noteq> None)"

definition digits_value :: "string \<Rightarrow> nat" where
  "digits_value ds = foldl (\<lambda>a c. a * 10 + (case digit_of c of None \<Rightarrow> 0 | Some d \<Rightarrow> d)) 0 ds"

text \<open>The optional exponent at the end of a number: \<open>None\<close> when the rest is not one.\<close>

definition parse_exponent :: "string \<Rightarrow> int option" where
  "parse_exponent s =
     (case s of
        [] \<Rightarrow> Some 0
      | e # rest \<Rightarrow>
          if lower_ascii e = CHR ''e''
          then (let (neg, ds) =
                      (case rest of
                         [] \<Rightarrow> (False, [])
                       | c # cs \<Rightarrow> if c = CHR ''-'' then (True, cs)
                                   else if c = CHR ''+'' then (False, cs) else (False, rest))
                in if ds \<noteq> [] \<and> list_all is_digit ds
                   then Some (if neg then - int (digits_value ds) else int (digits_value ds))
                   else None)
          else None)"

text \<open>Digits, a point, digits and an exponent: the digits and the power of ten they scale with.\<close>

definition parse_number :: "string \<Rightarrow> (nat \<times> int) option" where
  "parse_number s =
     (let ip = takeWhile is_digit s;
          r1 = dropWhile is_digit s;
          (fp, r2) = (case r1 of
                        [] \<Rightarrow> ([], [])
                      | c # cs \<Rightarrow> if c = CHR ''.'' then (takeWhile is_digit cs, dropWhile is_digit cs)
                                  else ([], r1))
      in if ip = [] \<and> fp = [] then None
         else case parse_exponent r2 of
                None \<Rightarrow> None
              | Some e \<Rightarrow> Some (digits_value (ip @ fp), e - int (length fp)))"

definition parse_inf_nan :: "bool \<Rightarrow> string \<Rightarrow> f64 option" where
  "parse_inf_nan neg s =
     (let l = map lower_ascii s
      in if l = ''nan'' then Some F64NaN
         else if l = ''inf'' \<or> l = ''infinity'' then Some (F64Inf neg)
         else None)"

definition parse_f64 :: "string \<Rightarrow> FloatErrorKind + f64" where
  "parse_f64 s =
     (case s of
        [] \<Rightarrow> Inl FloatEmpty
      | c # rest \<Rightarrow>
          (let neg = (c = CHR ''-'');
               body = (if c = CHR ''-'' \<or> c = CHR ''+'' then rest else s)
           in case parse_number body of
                Some (m, e) \<Rightarrow>
                  Inr (if 0 \<le> e then f64_of_ratio neg (m * 10 ^ nat e) 1
                       else f64_of_ratio neg m (10 ^ nat (- e)))
              | None \<Rightarrow>
                  (case parse_inf_nan neg body of
                     Some v \<Rightarrow> Inr v
                   | None \<Rightarrow> Inl FloatInvalid)))"

section \<open>Every integer literal is a floating point literal\<close>

lemma parse_number_digits:
  assumes "ds \<noteq> []" "\<forall>c\<in>set ds. is_digit c"
  shows "parse_number ds = Some (digits_value ds, 0)"
proof -
  have tw: "takeWhile is_digit ds = ds" and dw: "dropWhile is_digit ds = []"
    using assms(2) by simp_all
  show ?thesis using assms(1) by (simp add: parse_number_def parse_exponent_def Let_def tw dw)
qed

lemma parse_i64_is_f64:
  assumes "parse_i64 s = Inr i"
  shows "\<exists>f. parse_f64 s = Inr f"
proof -
  from assms obtain c rest where s: "s = c # rest" by (auto simp: parse_i64_def split: list.splits)
  let ?body = "if c = CHR ''-'' \<or> c = CHR ''+'' then rest else c # rest"
  have "?body \<noteq> [] \<and> (\<forall>x\<in>set ?body. is_digit x)"
  proof (cases "c = CHR ''-'' \<or> c = CHR ''+''")
    case True
    with assms s have "rest \<noteq> []" "\<exists>pos. i64_digits pos rest 0 = Inr i"
      by (auto simp: parse_i64_def split: if_splits)
    with True show ?thesis by (auto simp: is_digit_def dest: i64_digits_all)
  next
    case False
    with assms s have "i64_digits True s 0 = Inr i" by (simp add: parse_i64_def)
    then have "\<forall>x\<in>set s. is_digit x" unfolding is_digit_def by (blast dest: i64_digits_all)
    with False s show ?thesis by simp
  qed
  then have pn: "parse_number ?body = Some (digits_value ?body, 0)" using parse_number_digits by blast
  show ?thesis by (simp only: parse_f64_def s list.case Let_def pn option.case prod.case) blast
qed

end
