(* ===== verification/AssertCompile.thy ===== *)
theory AssertCompile
  imports AssertSyntax RustStd
begin

text \<open>
  The assertion compiler of \<open>src/src/assertions/compiled.rs\<close>: compilation errors and their
  paths, the compiled operation tree, and \<open>compile\<close> with its budget of operations.

  The glob matcher (\<open>relay_pattern\<close>), the JSONPath engine (\<open>jsonpath_rust\<close>), the JSON reader
  (\<open>serde_json\<close>) and the text of a header value (\<open>http\<close>) are third-party code: they are the
  fields of the record \<open>externals\<close>, an argument of every definition that uses them.  A
  pattern is a value of the type \<open>'p\<close>, a parsed JSONPath query of \<open>'q\<close>, a JSON value of \<open>'j\<close>.
\<close>

section \<open>Third-party code\<close>

text \<open>The errors of the JSONPath library the program distinguishes, with their display text.\<close>

datatype InputLocation = Pos usize | Span usize usize

datatype JsonPathError =
    PestError InputLocation string string \<comment> \<open>location, display text, line\<close>
  | JPInvalidGlob string string
  | JPTookTooLong
  | JPOther string

record ('p, 'q, 'j) externals =
  pattern_build :: "string \<Rightarrow> u64 \<Rightarrow> string + 'p"
  pattern_is_match :: "'p \<Rightarrow> string \<Rightarrow> bool"
  parse_json_path :: "string \<Rightarrow> u64 \<Rightarrow> JsonPathError + 'q"
  js_path_process :: "'q \<Rightarrow> 'j \<Rightarrow> u32 \<Rightarrow> (JsonPathError + 'j list) \<times> u32"
  json_path_error_to_string :: "JsonPathError \<Rightarrow> string"
  json_from_slice :: "u8 list \<Rightarrow> string + 'j"
  json_as_f64 :: "'j \<Rightarrow> f64 option"
  json_as_i64 :: "'j \<Rightarrow> i64 option"
  json_as_str :: "'j \<Rightarrow> string option"
  json_to_string :: "'j \<Rightarrow> string"
  header_to_str :: "u8 list \<Rightarrow> string option"

section \<open>Compilation errors\<close>

definition GLOB_COMPLEXITY_LIMIT :: u64 where
  "GLOB_COMPLEXITY_LIMIT = 20"

datatype CompilationError =
    InvalidGlob "u32 list" string string \<comment> \<open>path, glob, message\<close>
  | JsonPathParser "u32 list" string string usize \<comment> \<open>path, message, text, position\<close>
  | InvalidJsonPath "u32 list" string
  | TooManyOperations "u32 list"

fun set_path :: "u32 list \<Rightarrow> CompilationError \<Rightarrow> CompilationError" where
  "set_path p (InvalidGlob _ glob msg) = InvalidGlob p glob msg"
| "set_path p (JsonPathParser _ msg txt pos) = JsonPathParser p msg txt pos"
| "set_path p (InvalidJsonPath _ msg) = InvalidJsonPath p msg"
| "set_path p (TooManyOperations _) = TooManyOperations p"

fun assert_path :: "CompilationError \<Rightarrow> u32 list" where
  "assert_path (InvalidGlob p _ _) = p"
| "assert_path (JsonPathParser p _ _ _) = p"
| "assert_path (InvalidJsonPath p _) = p"
| "assert_path (TooManyOperations p) = p"

fun is_too_many :: "CompilationError \<Rightarrow> bool" where
  "is_too_many (TooManyOperations _) = True"
| "is_too_many _ = False"

lemma assert_path_set [simp]: "assert_path (set_path p e) = p"
  by (cases e) simp_all

lemma is_too_many_set [simp]: "is_too_many (set_path p e) = is_too_many e"
  by (cases e) simp_all

definition compilation_error_of ::
  "('p, 'q, 'j) externals \<Rightarrow> JsonPathError \<Rightarrow> CompilationError" where
  "compilation_error_of E err =
     (case err of
        PestError loc msg line \<Rightarrow>
          (let pos = (case loc of Pos p \<Rightarrow> p | Span s _ \<Rightarrow> s)
           in JsonPathParser [] msg line pos)
      | JPInvalidGlob glob reason \<Rightarrow> InvalidGlob [] glob reason
      | rest \<Rightarrow> InvalidJsonPath [] (json_path_error_to_string E rest))"

section \<open>The compiled tree\<close>

datatype CComparison = CAlways | CNever | CLessThan | CGreaterThan | CEqual | CNotEqual

fun comparison_of :: "Comparison \<Rightarrow> CComparison" where
  "comparison_of Always = CAlways"
| "comparison_of Never = CNever"
| "comparison_of LessThan = CLessThan"
| "comparison_of GreaterThan = CGreaterThan"
| "comparison_of Equals = CEqual"
| "comparison_of NotEqual = CNotEqual"

datatype Value = VI64 i64 | VF64 f64 | VString string

definition value_of :: "string \<Rightarrow> Value" where
  "value_of s =
     (case parse_f64 s of
        Inr f \<Rightarrow> VF64 f
      | Inl _ \<Rightarrow> (case parse_i64 s of Inr i \<Rightarrow> VI64 i | Inl _ \<Rightarrow> VString s))"

datatype 'p CJSONPathOperand = CJNone | CJLiteral string | CJGlob 'p

datatype 'p CHeaderOperand = CHNone | CHLiteral Value | CHGlob 'p

datatype ('p, 'q) COp =
    CAnd "('p, 'q) COp list"
  | COr "('p, 'q) COp list"
  | CNot "('p, 'q) COp"
  | CStatusCodeCheck u16 CComparison
  | CJsonPath 'q CComparison "'p CJSONPathOperand"
  | CHeaderCheck CComparison "'p CHeaderOperand" CComparison "'p CHeaderOperand"

record ('p, 'q) CAssertion =
  c_root :: "('p, 'q) COp"

definition compile_glob ::
  "('p, 'q, 'j) externals \<Rightarrow> GlobPattern \<Rightarrow> CompilationError + 'p" where
  "compile_glob E g =
     (case pattern_build E (glob_value g) GLOB_COMPLEXITY_LIMIT of
        Inr p \<Rightarrow> Inr p
      | Inl e \<Rightarrow> Inl (InvalidGlob [] e e))"

definition jsonpath_operand_of ::
  "('p, 'q, 'j) externals \<Rightarrow> JSONPathOperand \<Rightarrow> CompilationError + 'p CJSONPathOperand" where
  "jsonpath_operand_of E v =
     (case v of
        JONone \<Rightarrow> Inr CJNone
      | JOLiteral s \<Rightarrow> Inr (CJLiteral s)
      | JOGlob g \<Rightarrow> (case compile_glob E g of Inr p \<Rightarrow> Inr (CJGlob p) | Inl e \<Rightarrow> Inl e))"

definition header_operand_of ::
  "('p, 'q, 'j) externals \<Rightarrow> HeaderOperand \<Rightarrow> CompilationError + 'p CHeaderOperand" where
  "header_operand_of E v =
     (case v of
        HONone \<Rightarrow> Inr CHNone
      | HOLiteral s \<Rightarrow> Inr (CHLiteral (value_of s))
      | HOGlob g \<Rightarrow> (case compile_glob E g of Inr p \<Rightarrow> Inr (CHGlob p) | Inl e \<Rightarrow> Inl e))"

section \<open>Compilation\<close>

definition dec_ops :: "u32 \<Rightarrow> CompilationError + u32" where
  "dec_ops num_ops = (if 0 < num_ops then Inr (num_ops - 1) else Inl (TooManyOperations []))"

text \<open>
  The leaves of the tree, in the order in which the source evaluates their parts.
\<close>

definition compile_header_check ::
  "('p, 'q, 'j) externals \<Rightarrow> Comparison \<Rightarrow> HeaderOperand \<Rightarrow> Comparison \<Rightarrow> HeaderOperand
     \<Rightarrow> CompilationError + ('p, 'q) COp" where
  "compile_header_check E key_op key_operand value_op value_operand =
     (case header_operand_of E key_operand of
        Inl e \<Rightarrow> Inl e
      | Inr k \<Rightarrow>
          (case header_operand_of E value_operand of
             Inl e \<Rightarrow> Inl e
           | Inr v \<Rightarrow> Inr (CHeaderCheck (comparison_of key_op) k (comparison_of value_op) v)))"

definition compile_json_path ::
  "('p, 'q, 'j) externals \<Rightarrow> string \<Rightarrow> Comparison \<Rightarrow> JSONPathOperand
     \<Rightarrow> CompilationError + ('p, 'q) COp" where
  "compile_json_path E v operator operand =
     (case parse_json_path E v GLOB_COMPLEXITY_LIMIT of
        Inl e \<Rightarrow> Inl (compilation_error_of E e)
      | Inr q \<Rightarrow>
          (case jsonpath_operand_of E operand of
             Inl e \<Rightarrow> Inl e
           | Inr oper \<Rightarrow> Inr (CJsonPath q (comparison_of operator) oper)))"

text \<open>
  The budget \<open>num_ops\<close> and the path are threaded through; on an error the path is left as it
  is, so that it leads to the operation at fault.
\<close>

function compile_op ::
  "('p, 'q, 'j) externals \<Rightarrow> u32 \<Rightarrow> Op \<Rightarrow> u32 \<Rightarrow> u32 list
     \<Rightarrow> (CompilationError + ('p, 'q) COp) \<times> u32 \<times> u32 list"
and visit_children ::
  "('p, 'q, 'j) externals \<Rightarrow> nat \<Rightarrow> Op list \<Rightarrow> u32 \<Rightarrow> u32 list
     \<Rightarrow> (CompilationError + ('p, 'q) COp list) \<times> u32 \<times> u32 list" where
  "compile_op E idx oper num_ops path =
     (let path = path @ [idx]
      in case dec_ops num_ops of
           Inl e \<Rightarrow> (Inl e, num_ops, path)
         | Inr num_ops \<Rightarrow>
             (case oper of
                OpAnd children \<Rightarrow>
                  (case visit_children E 0 children num_ops path of
                     (Inl e, n, p) \<Rightarrow> (Inl e, n, p)
                   | (Inr cs, n, p) \<Rightarrow> (Inr (CAnd cs), n, butlast p))
              | OpOr children \<Rightarrow>
                  (case visit_children E 0 children num_ops path of
                     (Inl e, n, p) \<Rightarrow> (Inl e, n, p)
                   | (Inr cs, n, p) \<Rightarrow> (Inr (COr cs), n, butlast p))
              | OpNot operand \<Rightarrow>
                  (case compile_op E 0 operand num_ops path of
                     (Inl e, n, p) \<Rightarrow> (Inl e, n, p)
                   | (Inr c, n, p) \<Rightarrow> (Inr (CNot c), n, butlast p))
              | OpStatusCodeCheck v operator \<Rightarrow>
                  (Inr (CStatusCodeCheck v (comparison_of operator)), num_ops, butlast path)
              | OpHeaderCheck key_op key_operand value_op value_operand \<Rightarrow>
                  (case compile_header_check E key_op key_operand value_op value_operand of
                     Inl e \<Rightarrow> (Inl e, num_ops, path)
                   | Inr c \<Rightarrow> (Inr c, num_ops, butlast path))
              | OpJsonPath v operator operand \<Rightarrow>
                  (case compile_json_path E v operator operand of
                     Inl e \<Rightarrow> (Inl e, num_ops, path)
                   | Inr c \<Rightarrow> (Inr c, num_ops, butlast path))))"
| "visit_children E idx [] num_ops path = (Inr [], num_ops, path)"
| "visit_children E idx (c # cs) num_ops path =
     (case compile_op E (of_nat idx) c num_ops path of
        (Inl e, n, p) \<Rightarrow> (Inl e, n, p)
      | (Inr c', n, p) \<Rightarrow>
          (case visit_children E (Suc idx) cs n p of
             (Inl e, n, p) \<Rightarrow> (Inl e, n, p)
           | (Inr cs', n, p) \<Rightarrow> (Inr (c' # cs'), n, p)))"
  by pat_completeness auto

termination
  by (relation "measure (\<lambda>x. case x of
        Inl (E, idx, oper, n, p) \<Rightarrow> 2 * op_count oper
      | Inr (E, idx, cs, n, p) \<Rightarrow> 2 * sum_list (map op_count cs) + 1)") simp_all

declare compile_op.simps [simp del]

definition compile ::
  "('p, 'q, 'j) externals \<Rightarrow> Assertion \<Rightarrow> u32 \<Rightarrow> CompilationError + ('p, 'q) CAssertion" where
  "compile E a max_assertion_ops =
     (case compile_op E 0 (root a) max_assertion_ops [] of
        (Inl e, _, path) \<Rightarrow> Inl (set_path path e)
      | (Inr c, _, _) \<Rightarrow> Inr \<lparr> c_root = c \<rparr>)"

section \<open>The translation without a budget\<close>

text \<open>What a tree compiles to when operations are free: \<open>None\<close> when some leaf does not compile.\<close>

fun compiled_of :: "('p, 'q, 'j) externals \<Rightarrow> Op \<Rightarrow> ('p, 'q) COp option" where
  "compiled_of E (OpAnd children) = map_option CAnd (those (map (compiled_of E) children))"
| "compiled_of E (OpOr children) = map_option COr (those (map (compiled_of E) children))"
| "compiled_of E (OpNot operand) = map_option CNot (compiled_of E operand)"
| "compiled_of E (OpStatusCodeCheck v operator) = Some (CStatusCodeCheck v (comparison_of operator))"
| "compiled_of E (OpHeaderCheck ko k vo v) =
     (case compile_header_check E ko k vo v of Inl _ \<Rightarrow> None | Inr c \<Rightarrow> Some c)"
| "compiled_of E (OpJsonPath v operator operand) =
     (case compile_json_path E v operator operand of Inl _ \<Rightarrow> None | Inr c \<Rightarrow> Some c)"

text \<open>The operations a compilation can stop at: a leaf with an error of its own.\<close>

fun leaf_error :: "('p, 'q, 'j) externals \<Rightarrow> Op \<Rightarrow> CompilationError option" where
  "leaf_error E (OpHeaderCheck ko k vo v) =
     (case compile_header_check E ko k vo v of Inl e \<Rightarrow> Some e | Inr c \<Rightarrow> None)"
| "leaf_error E (OpJsonPath v operator operand) =
     (case compile_json_path E v operator operand of Inl e \<Rightarrow> Some e | Inr c \<Rightarrow> None)"
| "leaf_error E _ = None"

lemma compile_header_check_not_too_many:
  "compile_header_check E ko k vo v = Inl e \<Longrightarrow> \<not> is_too_many e"
  by (auto simp: compile_header_check_def header_operand_of_def compile_glob_def
      split: sum.splits HeaderOperand.splits)

lemma compile_json_path_not_too_many:
  "compile_json_path E v ops x = Inl e \<Longrightarrow> \<not> is_too_many e"
  by (auto simp: compile_json_path_def jsonpath_operand_of_def compile_glob_def
      compilation_error_of_def Let_def split: sum.splits JSONPathOperand.splits JsonPathError.splits)

lemma dec_ops_cases:
  "dec_ops n = (if unat n = 0 then Inl (TooManyOperations []) else Inr (n - 1))"
  "unat n \<noteq> 0 \<Longrightarrow> unat (n - 1) = unat n - 1"
  by (auto simp: dec_ops_def word_gt_0 unat_minus_one unat_eq_0)

text \<open>
  A successful compilation: the budget lost one unit for each operation, the path is back
  where it was, and the tree is the translation.
\<close>

lemma compile_op_success:
  "fst (compile_op E idx oper n p) = Inr c \<Longrightarrow>
     compiled_of E oper = Some c \<and> op_count oper \<le> unat n \<and>
     unat (fst (snd (compile_op E idx oper n p))) = unat n - op_count oper \<and>
     snd (snd (compile_op E idx oper n p)) = p"
  "fst (visit_children E i cs n p) = Inr ds \<Longrightarrow>
     those (map (compiled_of E) cs) = Some ds \<and> sum_list (map op_count cs) \<le> unat n \<and>
     unat (fst (snd (visit_children E i cs n p))) = unat n - sum_list (map op_count cs) \<and>
     snd (snd (visit_children E i cs n p)) = p"
proof (induction E idx oper n p and E i cs n p arbitrary: c and ds
    rule: compile_op_visit_children.induct)
  case (1 E idx oper n p)
  show ?case
  proof (cases "unat n = 0")
    case True
    with "1.prems" show ?thesis by (simp add: compile_op.simps dec_ops_cases(1))
  next
    case False
    then have dec: "dec_ops n = Inr (n - 1)" by (simp add: dec_ops_cases)
    note step = compile_op.simps [of E idx _ n p] dec_ops_cases(2) [OF False]
    show ?thesis
    proof (cases oper)
      case (OpAnd children)
      obtain r m q where v: "visit_children E 0 children (n - 1) (p @ [idx]) = (r, m, q)"
        by (cases "visit_children E 0 children (n - 1) (p @ [idx])")
      show ?thesis
        using "1.prems" "1.IH"(1) [OF refl dec OpAnd] False
        by (cases r) (auto simp: step dec OpAnd v)
    next
      case (OpOr children)
      obtain r m q where v: "visit_children E 0 children (n - 1) (p @ [idx]) = (r, m, q)"
        by (cases "visit_children E 0 children (n - 1) (p @ [idx])")
      show ?thesis
        using "1.prems" "1.IH"(2) [OF refl dec OpOr] False
        by (cases r) (auto simp: step dec OpOr v)
    next
      case (OpNot operand)
      obtain r m q where v: "compile_op E 0 operand (n - 1) (p @ [idx]) = (r, m, q)"
        by (cases "compile_op E 0 operand (n - 1) (p @ [idx])")
      show ?thesis
        using "1.prems" "1.IH"(3) [OF refl dec OpNot] False
        by (cases r) (auto simp: step dec OpNot v)
    qed (use "1.prems" False in \<open>auto simp: step dec split: sum.splits\<close>)
  qed
next
  case (2 E idx n p)
  then show ?case by simp
next
  case (3 E idx c cs n p)
  then show ?case by (fastforce split: prod.splits sum.splits)
qed

text \<open>
  A failed compilation: the path leads to an operation of the tree, and that operation is
  either the leaf whose own error is reported or the first one the budget does not cover.
\<close>

definition at_fault ::
  "('p, 'q, 'j) externals \<Rightarrow> CompilationError \<Rightarrow> nat \<Rightarrow> nat \<Rightarrow> Op \<Rightarrow> bool" where
  "at_fault E e budget cost node =
     (if is_too_many e then budget < cost else leaf_error E node = Some e)"

lemma at_fault_mono:
  "at_fault E e b c node \<Longrightarrow> b + k \<le> b' \<Longrightarrow> b' + c \<le> b + c' \<Longrightarrow> at_fault E e b' c' node"
  by (auto simp: at_fault_def split: if_splits)

lemma at_fault_dec:
  "unat n \<noteq> 0 \<Longrightarrow> at_fault E e (unat n - 1) c node \<Longrightarrow> at_fault E e (unat n) (Suc c) node"
  by (auto simp: at_fault_def split: if_splits)

lemma compile_op_failure:
  "fst (compile_op E idx oper n p) = Inl e \<Longrightarrow>
     \<exists>is node. snd (snd (compile_op E idx oper n p)) = p @ idx # map of_nat is \<and>
       op_at is oper = Some node \<and> at_fault E e (unat n) (op_count oper) node"
  "fst (visit_children E i cs n p) = Inl e \<Longrightarrow>
     \<exists>j is node. snd (snd (visit_children E i cs n p)) = p @ of_nat (i + j) # map of_nat is \<and>
       j < length cs \<and> op_at is (cs ! j) = Some node \<and>
       at_fault E e (unat n) (sum_list (map op_count cs)) node"
proof (induction E idx oper n p and E i cs n p rule: compile_op_visit_children.induct)
  case (1 E idx oper n p)
  show ?case
  proof (cases "unat n = 0")
    case True
    with "1.prems" have "snd (snd (compile_op E idx oper n p)) = p @ idx # map of_nat []"
        "op_at [] oper = Some oper" "at_fault E e (unat n) (op_count oper) oper"
      by (auto simp: compile_op.simps [of E idx] dec_ops_cases(1) at_fault_def)
    then show ?thesis by blast
  next
    case False
    then have dec: "dec_ops n = Inr (n - 1)" by (simp add: dec_ops_cases)
    note step = compile_op.simps [of E idx _ n p] dec_ops_cases(2) [OF False]
    note lift = at_fault_dec [OF False]
    show ?thesis
    proof (cases oper)
      case (OpAnd children)
      obtain r m q where v: "visit_children E 0 children (n - 1) (p @ [idx]) = (r, m, q)"
        by (cases "visit_children E 0 children (n - 1) (p @ [idx])")
      have r: "r = Inl e" using "1.prems" by (cases r) (auto simp: step dec OpAnd v)
      from "1.IH"(1) [OF refl dec OpAnd] obtain j "is" node
        where raw: "q = p @ idx # of_nat j # map of_nat is" "j < length children"
          "op_at is (children ! j) = Some node"
          "at_fault E e (unat n - 1) (sum_list (map op_count children)) node"
        by (auto simp: v r step)
      show ?thesis
        by (intro exI [of _ "j # is"] exI [of _ node])
          (use raw lift [OF raw(4)] in \<open>simp add: step dec OpAnd v r\<close>)
    next
      case (OpOr children)
      obtain r m q where v: "visit_children E 0 children (n - 1) (p @ [idx]) = (r, m, q)"
        by (cases "visit_children E 0 children (n - 1) (p @ [idx])")
      have r: "r = Inl e" using "1.prems" by (cases r) (auto simp: step dec OpOr v)
      from "1.IH"(2) [OF refl dec OpOr] obtain j "is" node
        where raw: "q = p @ idx # of_nat j # map of_nat is" "j < length children"
          "op_at is (children ! j) = Some node"
          "at_fault E e (unat n - 1) (sum_list (map op_count children)) node"
        by (auto simp: v r step)
      show ?thesis
        by (intro exI [of _ "j # is"] exI [of _ node])
          (use raw lift [OF raw(4)] in \<open>simp add: step dec OpOr v r\<close>)
    next
      case (OpNot operand)
      obtain r m q where v: "compile_op E 0 operand (n - 1) (p @ [idx]) = (r, m, q)"
        by (cases "compile_op E 0 operand (n - 1) (p @ [idx])")
      have r: "r = Inl e" using "1.prems" by (cases r) (auto simp: step dec OpNot v)
      from "1.IH"(3) [OF refl dec OpNot] obtain "is" node
        where raw: "q = p @ idx # 0 # map of_nat is" "op_at is operand = Some node"
          "at_fault E e (unat n - 1) (op_count operand) node"
        by (auto simp: v r step)
      show ?thesis
        by (intro exI [of _ "0 # is"] exI [of _ node])
          (use raw lift [OF raw(3)] in \<open>simp add: step dec OpNot v r\<close>)
    qed (use "1.prems" False in \<open>auto simp: step dec Let_def at_fault_def compile_header_check_not_too_many
        compile_json_path_not_too_many split: sum.splits intro!: exI [of _ "[]"]\<close>)
  qed
next
  case (2 E idx n p)
  then show ?case by simp
next
  case (3 E i c cs n p)
  obtain r m q where v: "compile_op E (of_nat i) c n p = (r, m, q)"
    by (cases "compile_op E (of_nat i) c n p")
  show ?case
  proof (cases r)
    case (Inl e')
    with "3.prems" have "e' = e" by (simp add: v)
    with "3.IH"(1) obtain "is" node where raw: "q = p @ of_nat i # map of_nat is"
        "op_at is c = Some node" "at_fault E e (unat n) (op_count c) node"
      by (auto simp: v Inl)
    from raw(3) have "at_fault E e (unat n) (sum_list (map op_count (c # cs))) node"
      by (rule at_fault_mono [where k = 0]) simp_all
    with raw show ?thesis
      by (intro exI [of _ "0::nat"] exI [of _ "is"] exI [of _ node]) (simp add: v Inl)
  next
    case (Inr c')
    have c: "op_count c \<le> unat n" "unat m = unat n - op_count c" "q = p"
      using compile_op_success(1) [of E "of_nat i" c n p c'] by (simp_all add: v Inr)
    obtain r' m' q' where w: "visit_children E (Suc i) cs m q = (r', m', q')"
      by (cases "visit_children E (Suc i) cs m q")
    have r': "r' = Inl e" using "3.prems" by (cases r') (auto simp: v Inr w)
    with w c(3) have w': "visit_children E (Suc i) cs m p = (Inl e, m', q')" by simp
    have "\<exists>j is node. q' = p @ of_nat (Suc i + j) # map of_nat is \<and> j < length cs \<and>
        op_at is (cs ! j) = Some node \<and> at_fault E e (unat m) (sum_list (map op_count cs)) node"
      using "3.IH"(2) by (simp add: v Inr c(3) w')
    then obtain j "is" node where raw: "q' = p @ of_nat (i + Suc j) # map of_nat is"
        "Suc j < length (c # cs)" "op_at is ((c # cs) ! Suc j) = Some node"
        "at_fault E e (unat m) (sum_list (map op_count cs)) node" by auto
    from raw(4) have "at_fault E e (unat n) (sum_list (map op_count (c # cs))) node"
      by (rule at_fault_mono [where k = "op_count c"]) (use c in auto)
    with raw show ?thesis
      by (intro exI [of _ "Suc j"] exI [of _ "is"] exI [of _ node]) (simp add: v Inr c(3) w')
  qed
qed

lemma those_map_None: "i < length xs \<Longrightarrow> f (xs ! i) = None \<Longrightarrow> those (map f xs) = None"
proof (induction xs arbitrary: i)
  case (Cons x xs)
  then show ?case by (cases i) (auto split: option.splits)
qed simp

lemma those_map_Some:
  "those (map f xs) = Some ys \<Longrightarrow> i < length xs \<Longrightarrow> i < length ys \<and> f (xs ! i) = Some (ys ! i)"
proof (induction xs arbitrary: ys i)
  case (Cons x xs)
  then show ?case by (cases i) (auto split: option.splits)
qed simp

lemma those_length: "those xs = Some ys \<Longrightarrow> length ys = length xs"
  by (induction xs arbitrary: ys) (auto split: option.splits)

lemma compiled_of_leaf_error:
  "op_at is oper = Some node \<Longrightarrow> leaf_error E node = Some e \<Longrightarrow> compiled_of E oper = None"
proof (induction "is" oper rule: op_at.induct)
  case (1 t)
  then show ?case by (cases t) (auto split: sum.splits)
next
  case (2 i "is" children)
  then have "compiled_of E (children ! i) = None" "i < length children" by (auto split: if_splits)
  then have "those (map (compiled_of E) children) = None"
    by (intro those_map_None)
  then show ?case by simp
next
  case (3 i "is" children)
  then have "compiled_of E (children ! i) = None" "i < length children" by (auto split: if_splits)
  then have "those (map (compiled_of E) children) = None"
    by (intro those_map_None)
  then show ?case by simp
qed (auto split: if_splits)

text \<open>A concrete choice of the third-party code, on which the theorems are tried out.\<close>

definition plain_externals :: "(string, string, string) externals" where
  "plain_externals = \<lparr>
     pattern_build = (\<lambda>s limit. if s = ''['' then Inl ''unclosed'' else Inr s),
     pattern_is_match = (\<lambda>p s. p = ''*'' \<or> p = s),
     parse_json_path = (\<lambda>s limit. if s = [] then Inl (PestError (Pos 0) ''expected $'' []) else Inr s),
     js_path_process = (\<lambda>q j gas. if gas = 0 then (Inl JPTookTooLong, 0)
                                  else (Inr (if q = ''$'' then [j] else []), gas - 1)),
     json_path_error_to_string = (\<lambda>e. ''error''),
     json_from_slice = (\<lambda>b. if b = [] then Inl ''EOF'' else Inr (map (\<lambda>x. char_of (unat x)) b)),
     json_as_f64 = (\<lambda>j. case parse_f64 j of Inr f \<Rightarrow> Some f | Inl _ \<Rightarrow> None),
     json_as_i64 = (\<lambda>j. case parse_i64 j of Inr i \<Rightarrow> Some i | Inl _ \<Rightarrow> None),
     json_as_str = (\<lambda>j. Some j),
     json_to_string = (\<lambda>j. j),
     header_to_str = (\<lambda>b. Some (map (\<lambda>x. char_of (unat x)) b)) \<rparr>"

section \<open>What the compiler promises\<close>

text \<open>
  C15: Compilation succeeds exactly when every leaf of the assertion compiles and the tree has at
  most \<open>max_assertion_ops\<close> operations, and the result is then the leaf-by-leaf translation.
\<close>

theorem compile_succeeds_iff:
  "compile E a max_assertion_ops = Inr c \<longleftrightarrow>
     compiled_of E (root a) = Some (c_root c) \<and> op_count (root a) \<le> unat max_assertion_ops"
proof -
  obtain r n p where run: "compile_op E 0 (root a) max_assertion_ops [] = (r, n, p)"
    by (cases "compile_op E 0 (root a) max_assertion_ops []")
  show ?thesis
  proof (cases r)
    case (Inl e)
    obtain "is" node where "op_at is (root a) = Some node"
        "at_fault E e (unat max_assertion_ops) (op_count (root a)) node"
      using compile_op_failure(1) [of E 0 "root a" max_assertion_ops "[]" e] by (auto simp: run Inl)
    then show ?thesis
      by (auto simp: compile_def run Inl at_fault_def split: if_splits dest: compiled_of_leaf_error)
  next
    case (Inr c')
    with compile_op_success(1) [of E 0 "root a" max_assertion_ops "[]" c'] show ?thesis
      by (auto simp: compile_def run)
  qed
qed

text \<open>
  A compilation error carries a path that starts with 0 and then leads, child index by child
  index, to an operation of the assertion.  When the error is \<open>TooManyOperations\<close> the tree
  is larger than the budget; otherwise it is that operation's own error.
\<close>

theorem compile_error_path:
  assumes "compile E a max_assertion_ops = Inl e"
  shows "\<exists>is node. assert_path e = 0 # map of_nat is \<and> op_at is (root a) = Some node \<and>
           (if is_too_many e then unat max_assertion_ops < op_count (root a)
            else map_option (set_path (assert_path e)) (leaf_error E node) = Some e)"
proof -
  obtain e' n p where run: "compile_op E 0 (root a) max_assertion_ops [] = (Inl e', n, p)"
      and e: "e = set_path p e'"
    using assms by (auto simp: compile_def split: prod.splits sum.splits)
  obtain "is" node where "p = 0 # map of_nat is" "op_at is (root a) = Some node"
      "at_fault E e' (unat max_assertion_ops) (op_count (root a)) node"
    using compile_op_failure(1) [of E 0 "root a" max_assertion_ops "[]" e'] by (auto simp: run)
  then show ?thesis
    by (intro exI [of _ "is"] exI [of _ node]) (auto simp: e at_fault_def split: if_splits)
qed

theorem compile_error_path_witness:
  "\<exists>is node. assert_path (InvalidGlob [0, 1] ''unclosed'' ''unclosed'') = 0 # map of_nat is \<and>
     op_at is (OpAnd [OpStatusCodeCheck 200 Equals,
       OpHeaderCheck Always HONone Equals (HOGlob \<lparr> glob_value = ''['' \<rparr>)]) = Some node"
proof -
  let ?a = "\<lparr> root = OpAnd [OpStatusCodeCheck 200 Equals,
       OpHeaderCheck Always HONone Equals (HOGlob \<lparr> glob_value = ''['' \<rparr>)] \<rparr>"
  have "compile plain_externals ?a 10 = Inl (InvalidGlob [0, 1] ''unclosed'' ''unclosed'')"
    by (simp add: compile_def compile_op.simps dec_ops_def compile_header_check_def
        header_operand_of_def compile_glob_def plain_externals_def)
  from compile_error_path [OF this] show ?thesis by fastforce
qed

text \<open>
  A header literal never compiles to an integer: every text that parses as a 64-bit integer
  also parses as a floating point number, which is tried first.
\<close>

theorem value_never_i64: "value_of s \<noteq> VI64 i"
  by (cases "parse_i64 s") (auto simp: value_of_def split: sum.splits dest: parse_i64_is_f64)

end
