(* ===== verification/AssertEval.thy ===== *)
theory AssertEval
  imports AssertCompile
begin

text \<open>
  The evaluation of a compiled assertion (\<open>src/src/assertions/compiled.rs\<close>): the gas meter, the
  comparisons, the operands, the evaluation of the tree with the path to the current operation,
  and the extraction of the failing part of an assertion.
\<close>

section \<open>Runtime errors\<close>

datatype RuntimeError =
    RInvalidJsonPath "u32 list" string
  | TookTooLong "u32 list"
  | InvalidJsonBody string
  | InvalidTypeComparison "u32 list" string

fun runtime_set_path :: "u32 list \<Rightarrow> RuntimeError \<Rightarrow> RuntimeError" where
  "runtime_set_path p (RInvalidJsonPath _ msg) = RInvalidJsonPath p msg"
| "runtime_set_path p (InvalidTypeComparison _ msg) = InvalidTypeComparison p msg"
| "runtime_set_path p (TookTooLong q) = TookTooLong q"
| "runtime_set_path p (InvalidJsonBody b) = InvalidJsonBody b"

definition runtime_of_int_error :: "IntErrorKind \<Rightarrow> RuntimeError" where
  "runtime_of_int_error e = InvalidTypeComparison [] (int_error_to_string e)"

definition runtime_of_float_error :: "FloatErrorKind \<Rightarrow> RuntimeError" where
  "runtime_of_float_error e = InvalidTypeComparison [] (float_error_to_string e)"

definition runtime_of_json_path_error ::
  "('p, 'q, 'j) externals \<Rightarrow> JsonPathError \<Rightarrow> RuntimeError" where
  "runtime_of_json_path_error E err =
     (case err of
        JPTookTooLong \<Rightarrow> TookTooLong []
      | rest \<Rightarrow> RInvalidJsonPath [] (json_path_error_to_string E rest))"

section \<open>Results and the path of the decision\<close>

datatype EvalPath = Leaf | AllChildren | ChildIndex usize EvalPath

record EvalResult =
  reason_path :: EvalPath
  er_result :: bool

definition and_node :: EvalResult where
  "and_node = \<lparr> reason_path = AllChildren, er_result = True \<rparr>"

definition or_node :: EvalResult where
  "or_node = \<lparr> reason_path = AllChildren, er_result = False \<rparr>"

definition leaf_node :: "bool \<Rightarrow> EvalResult" where
  "leaf_node v = \<lparr> reason_path = Leaf, er_result = v \<rparr>"

definition child_idx :: "usize \<Rightarrow> bool \<Rightarrow> EvalPath \<Rightarrow> EvalResult" where
  "child_idx i v p = \<lparr> reason_path = ChildIndex i p, er_result = v \<rparr>"

text \<open>
  The part of the user's assertion that explains the result.  \<open>None\<close> is a panic: an index out of
  range or the \<open>unreachable!\<close> branch.
\<close>

fun extract_failure_data :: "EvalPath \<Rightarrow> Op \<Rightarrow> Op option" where
  "extract_failure_data Leaf assert_op = Some assert_op"
| "extract_failure_data AllChildren assert_op = Some assert_op"
| "extract_failure_data (ChildIndex i child) (OpAnd children) =
     (if unat i < length children
      then map_option (\<lambda>c. OpAnd [c]) (extract_failure_data child (children ! unat i)) else None)"
| "extract_failure_data (ChildIndex i child) (OpOr children) =
     (if unat i < length children
      then map_option (\<lambda>c. OpOr [c]) (extract_failure_data child (children ! unat i)) else None)"
| "extract_failure_data (ChildIndex i child) (OpNot operand) =
     map_option OpNot (extract_failure_data child operand)"
| "extract_failure_data (ChildIndex i child) _ = None"

section \<open>Gas and comparisons\<close>

type_synonym gas = u32

text \<open>Computations that use gas return their result and the gas that is left.\<close>

type_synonym 'a gassed = "(RuntimeError + 'a) \<times> gas"

definition consume :: "gas \<Rightarrow> u32 \<Rightarrow> unit gassed" where
  "consume g amount = (if g < amount then (Inl (TookTooLong []), g) else (Inr (), g - amount))"

definition cmp_eq :: "('a \<Rightarrow> 'a \<Rightarrow> bool) \<Rightarrow> 'a \<Rightarrow> 'a \<Rightarrow> gas \<Rightarrow> bool gassed" where
  "cmp_eq eq response_value test_value g =
     (case consume g 1 of
        (Inl e, g) \<Rightarrow> (Inl e, g)
      | (Inr _, g) \<Rightarrow> (Inr (eq response_value test_value), g))"

definition cmp_lt :: "'a::ord \<Rightarrow> 'a \<Rightarrow> gas \<Rightarrow> bool gassed" where
  "cmp_lt response_value test_value g =
     (case consume g 1 of
        (Inl e, g) \<Rightarrow> (Inl e, g)
      | (Inr _, g) \<Rightarrow> (Inr (response_value < test_value), g))"

definition cmp_gt :: "'a::ord \<Rightarrow> 'a \<Rightarrow> gas \<Rightarrow> bool gassed" where
  "cmp_gt response_value test_value g =
     (case consume g 1 of
        (Inl e, g) \<Rightarrow> (Inl e, g)
      | (Inr _, g) \<Rightarrow> (Inr (test_value < response_value), g))"

definition cmp_coerce_json ::
  "('p, 'q, 'j) externals \<Rightarrow> 'j \<Rightarrow> string \<Rightarrow> gas
     \<Rightarrow> (f64 \<Rightarrow> f64 \<Rightarrow> gas \<Rightarrow> bool gassed)
     \<Rightarrow> (i64 \<Rightarrow> i64 \<Rightarrow> gas \<Rightarrow> bool gassed)
     \<Rightarrow> (string \<Rightarrow> string \<Rightarrow> gas \<Rightarrow> bool gassed) \<Rightarrow> bool gassed" where
  "cmp_coerce_json E json_value test_value g cmp_f64 cmp_i64 cmp_str =
     (case (json_as_f64 E json_value, parse_f64 test_value) of
        (Some v, Inr tv) \<Rightarrow> cmp_f64 v tv g
      | _ \<Rightarrow>
          (case (json_as_i64 E json_value, parse_i64 test_value) of
             (Some v, Inr tv) \<Rightarrow> cmp_i64 v tv g
           | _ \<Rightarrow>
               (case json_as_str E json_value of
                  Some v \<Rightarrow> cmp_str v test_value g
                | None \<Rightarrow>
                    (Inl (InvalidTypeComparison []
                       (''could not coerce a comparison between '' @ json_to_string E json_value
                         @ '' and '' @ test_value)), g))))"

definition cmp_lt_json :: "('p, 'q, 'j) externals \<Rightarrow> 'j \<Rightarrow> string \<Rightarrow> gas \<Rightarrow> bool gassed" where
  "cmp_lt_json E json_value test_value g = cmp_coerce_json E json_value test_value g cmp_lt cmp_lt cmp_lt"

definition cmp_gt_json :: "('p, 'q, 'j) externals \<Rightarrow> 'j \<Rightarrow> string \<Rightarrow> gas \<Rightarrow> bool gassed" where
  "cmp_gt_json E json_value test_value g = cmp_coerce_json E json_value test_value g cmp_gt cmp_gt cmp_gt"

definition cmp_eq_json :: "('p, 'q, 'j) externals \<Rightarrow> 'j \<Rightarrow> string \<Rightarrow> gas \<Rightarrow> bool gassed" where
  "cmp_eq_json E json_value test_value g =
     cmp_coerce_json E json_value test_value g (cmp_eq f64_eq) (cmp_eq (=)) (cmp_eq (=))"

text \<open>A header value against a literal: the header is parsed to the literal's type first.\<close>

definition cmp_header_value ::
  "(f64 \<Rightarrow> f64 \<Rightarrow> gas \<Rightarrow> bool gassed) \<Rightarrow> (i64 \<Rightarrow> i64 \<Rightarrow> gas \<Rightarrow> bool gassed)
     \<Rightarrow> (string \<Rightarrow> string \<Rightarrow> gas \<Rightarrow> bool gassed) \<Rightarrow> string \<Rightarrow> Value \<Rightarrow> gas \<Rightarrow> bool gassed" where
  "cmp_header_value cmp_f64 cmp_i64 cmp_str header_value v g =
     (case v of
        VI64 value \<Rightarrow>
          (case parse_i64 header_value of
             Inl e \<Rightarrow> (Inl (runtime_of_int_error e), g)
           | Inr h \<Rightarrow> cmp_i64 h value g)
      | VF64 value \<Rightarrow>
          (case parse_f64 header_value of
             Inl e \<Rightarrow> (Inl (runtime_of_float_error e), g)
           | Inr h \<Rightarrow> cmp_f64 h value g)
      | VString value \<Rightarrow> cmp_str header_value value g)"

definition cmp_eq_header ::
  "('p, 'q, 'j) externals \<Rightarrow> string \<Rightarrow> 'p CHeaderOperand \<Rightarrow> gas \<Rightarrow> bool gassed" where
  "cmp_eq_header E header_value test_value g =
     (case test_value of
        CHLiteral v \<Rightarrow> cmp_header_value (cmp_eq f64_eq) (cmp_eq (=)) (cmp_eq (=)) header_value v g
      | CHGlob p \<Rightarrow>
          (case consume g 5 of
             (Inl e, g) \<Rightarrow> (Inl e, g)
           | (Inr _, g) \<Rightarrow> (Inr (pattern_is_match E p header_value), g))
      | CHNone \<Rightarrow> (Inr False, g))"

definition cmp_eq_jsonpath ::
  "('p, 'q, 'j) externals \<Rightarrow> 'j \<Rightarrow> 'p CJSONPathOperand \<Rightarrow> gas \<Rightarrow> bool gassed" where
  "cmp_eq_jsonpath E body_value test_value g =
     (case test_value of
        CJLiteral v \<Rightarrow> cmp_eq_json E body_value v g
      | CJGlob p \<Rightarrow>
          (case consume g 5 of
             (Inl e, g) \<Rightarrow> (Inl e, g)
           | (Inr _, g) \<Rightarrow>
               (case json_as_str E body_value of
                  None \<Rightarrow> (Inl (TookTooLong []), g)
                | Some s \<Rightarrow> (Inr (pattern_is_match E p s), g)))
      | CJNone \<Rightarrow> (Inr False, g))"

definition gassed_not :: "bool gassed \<Rightarrow> bool gassed" where
  "gassed_not x = (case x of (Inl e, g) \<Rightarrow> (Inl e, g) | (Inr b, g) \<Rightarrow> (Inr (\<not> b), g))"

section \<open>Operands\<close>

text \<open>One JSONPath result against the operand.\<close>

definition jsonpath_cmp ::
  "('p, 'q, 'j) externals \<Rightarrow> 'p CJSONPathOperand \<Rightarrow> CComparison \<Rightarrow> 'j \<Rightarrow> gas \<Rightarrow> bool gassed" where
  "jsonpath_cmp E self oper v g =
     (case oper of
        CAlways \<Rightarrow> (Inr True, g)
      | CNever \<Rightarrow> (Inr False, g)
      | CLessThan \<Rightarrow>
          (case self of
             CJNone \<Rightarrow> (Inr False, g)
           | CJLiteral value \<Rightarrow> cmp_lt_json E v value g
           | CJGlob _ \<Rightarrow> (Inr False, g))
      | CGreaterThan \<Rightarrow>
          (case self of
             CJNone \<Rightarrow> (Inr False, g)
           | CJLiteral value \<Rightarrow> cmp_gt_json E v value g
           | CJGlob _ \<Rightarrow> (Inr False, g))
      | CEqual \<Rightarrow> cmp_eq_jsonpath E v self g
      | CNotEqual \<Rightarrow> gassed_not (cmp_eq_jsonpath E v self g))"

fun jsonpath_all ::
  "('p, 'q, 'j) externals \<Rightarrow> 'p CJSONPathOperand \<Rightarrow> CComparison \<Rightarrow> 'j list \<Rightarrow> gas \<Rightarrow> bool gassed" where
  "jsonpath_all E self oper [] g = (Inr True, g)"
| "jsonpath_all E self oper (v # vs) g =
     (case jsonpath_cmp E self oper v g of
        (Inl e, g) \<Rightarrow> (Inl e, g)
      | (Inr b, g) \<Rightarrow> if \<not> b then (Inr False, g) else jsonpath_all E self oper vs g)"

definition jsonpath_operand_eval ::
  "('p, 'q, 'j) externals \<Rightarrow> 'p CJSONPathOperand \<Rightarrow> CComparison \<Rightarrow> 'j list \<Rightarrow> gas \<Rightarrow> bool gassed" where
  "jsonpath_operand_eval E self oper results g =
     (if results = [] then (Inr False, g) else jsonpath_all E self oper results g)"

definition header_operand_eval ::
  "('p, 'q, 'j) externals \<Rightarrow> 'p CHeaderOperand \<Rightarrow> CComparison \<Rightarrow> string \<Rightarrow> gas \<Rightarrow> bool gassed" where
  "header_operand_eval E self oper header_value g =
     (case oper of
        CAlways \<Rightarrow> (Inr True, g)
      | CNever \<Rightarrow> (Inr False, g)
      | CLessThan \<Rightarrow>
          (case self of
             CHNone \<Rightarrow> (Inr False, g)
           | CHLiteral value \<Rightarrow> cmp_header_value cmp_lt cmp_lt cmp_lt header_value value g
           | CHGlob _ \<Rightarrow> (Inr False, g))
      | CGreaterThan \<Rightarrow>
          (case self of
             CHNone \<Rightarrow> (Inr False, g)
           | CHLiteral value \<Rightarrow> cmp_header_value cmp_gt cmp_gt cmp_gt header_value value g
           | CHGlob _ \<Rightarrow> (Inr False, g))
      | CEqual \<Rightarrow> cmp_eq_header E header_value self g
      | CNotEqual \<Rightarrow> gassed_not (cmp_eq_header E header_value self g))"

section \<open>Evaluation\<close>

text \<open>The response under test: status code, headers in their iteration order, body.\<close>

record response_data =
  rd_status :: u16
  rd_headers :: "(string \<times> u8 list) list"
  rd_body :: "u8 list"

definition status_check :: "u16 \<Rightarrow> CComparison \<Rightarrow> u16 \<Rightarrow> bool" where
  "status_check value oper status_code =
     (case oper of
        CAlways \<Rightarrow> True
      | CNever \<Rightarrow> False
      | CLessThan \<Rightarrow> status_code < value
      | CGreaterThan \<Rightarrow> value < status_code
      | CEqual \<Rightarrow> value = status_code
      | CNotEqual \<Rightarrow> value \<noteq> status_code)"

text \<open>Is there a header whose name passes the key and whose value passes the value?\<close>

fun header_loop ::
  "('p, 'q, 'j) externals \<Rightarrow> CComparison \<Rightarrow> 'p CHeaderOperand \<Rightarrow> CComparison \<Rightarrow> 'p CHeaderOperand
     \<Rightarrow> (string \<times> u8 list) list \<Rightarrow> gas \<Rightarrow> bool gassed" where
  "header_loop E ko k vo v [] g = (Inr False, g)"
| "header_loop E ko k vo v ((name, val) # hs) g =
     (case header_operand_eval E k ko name g of
        (Inl e, g) \<Rightarrow> (Inl e, g)
      | (Inr key_ok, g) \<Rightarrow>
          if key_ok then
            (case header_to_str E val of
               None \<Rightarrow> header_loop E ko k vo v hs g
             | Some value_str \<Rightarrow>
                 (case header_operand_eval E v vo value_str g of
                    (Inl e, g) \<Rightarrow> (Inl e, g)
                  | (Inr val_ok, g) \<Rightarrow>
                      if val_ok then (Inr True, g) else header_loop E ko k vo v hs g))
          else header_loop E ko k vo v hs g)"

definition json_path_check ::
  "('p, 'q, 'j) externals \<Rightarrow> 'q \<Rightarrow> CComparison \<Rightarrow> 'p CJSONPathOperand \<Rightarrow> u8 list \<Rightarrow> gas \<Rightarrow> bool gassed" where
  "json_path_check E q oper operand body g =
     (case json_from_slice E body of
        Inl e \<Rightarrow> (Inl (InvalidJsonBody e), g)
      | Inr json \<Rightarrow>
          (case js_path_process E q json g of
             (Inl e, g) \<Rightarrow> (Inl (runtime_of_json_path_error E e), g)
           | (Inr results, g) \<Rightarrow> jsonpath_operand_eval E operand oper results g))"

text \<open>The size of a compiled tree, by which the evaluation terminates.\<close>

fun cop_count :: "('p, 'q) COp \<Rightarrow> nat" where
  "cop_count (CAnd children) = Suc (sum_list (map cop_count children))"
| "cop_count (COr children) = Suc (sum_list (map cop_count children))"
| "cop_count (CNot operand) = Suc (cop_count operand)"
| "cop_count _ = 1"

lemma cop_count_pos [simp]: "0 < cop_count c"
  by (cases c) simp_all

text \<open>The end of a leaf: the path entry is popped when there was no error.\<close>

fun finish_leaf :: "u32 list \<Rightarrow> bool gassed \<Rightarrow> (RuntimeError + EvalResult) \<times> gas \<times> u32 list" where
  "finish_leaf path (Inl e, g) = (Inl e, g, path)"
| "finish_leaf path (Inr b, g) = (Inr (leaf_node b), g, butlast path)"

function eval_op ::
  "('p, 'q, 'j) externals \<Rightarrow> u32 \<Rightarrow> ('p, 'q) COp \<Rightarrow> response_data \<Rightarrow> gas \<Rightarrow> u32 list
     \<Rightarrow> (RuntimeError + EvalResult) \<times> gas \<times> u32 list"
and eval_and ::
  "('p, 'q, 'j) externals \<Rightarrow> nat \<Rightarrow> ('p, 'q) COp list \<Rightarrow> response_data \<Rightarrow> gas \<Rightarrow> u32 list
     \<Rightarrow> (RuntimeError + EvalResult) \<times> gas \<times> u32 list"
and eval_or ::
  "('p, 'q, 'j) externals \<Rightarrow> nat \<Rightarrow> ('p, 'q) COp list \<Rightarrow> response_data \<Rightarrow> gas \<Rightarrow> u32 list
     \<Rightarrow> (RuntimeError + EvalResult) \<times> gas \<times> u32 list" where
  "eval_op E idx oper rd g path =
     (let path = path @ [idx]
      in case oper of
           CAnd children \<Rightarrow>
             (case eval_and E 0 children rd g path of
                (Inl e, g, p) \<Rightarrow> (Inl e, g, p)
              | (Inr r, g, p) \<Rightarrow> (Inr r, g, butlast p))
         | COr children \<Rightarrow>
             (case eval_or E 0 children rd g path of
                (Inl e, g, p) \<Rightarrow> (Inl e, g, p)
              | (Inr r, g, p) \<Rightarrow> (Inr r, g, butlast p))
         | CNot operand \<Rightarrow>
             (case eval_op E 0 operand rd g path of
                (Inl e, g, p) \<Rightarrow> (Inl e, g, p)
              | (Inr r, g, p) \<Rightarrow>
                  (Inr (child_idx 0 (\<not> er_result r) (reason_path r)), g, butlast p))
         | CStatusCodeCheck value operator \<Rightarrow>
             finish_leaf path
               (case consume g 1 of
                  (Inl e, g) \<Rightarrow> (Inl e, g)
                | (Inr _, g) \<Rightarrow> (Inr (status_check value operator (rd_status rd)), g))
         | CHeaderCheck ko k vo v \<Rightarrow>
             finish_leaf path (header_loop E ko k vo v (rd_headers rd) g)
         | CJsonPath q operator operand \<Rightarrow>
             finish_leaf path (json_path_check E q operator operand (rd_body rd) g))"
| "eval_and E idx [] rd g path = (Inr and_node, g, path)"
| "eval_and E idx (c # cs) rd g path =
     (case eval_op E (of_nat idx) c rd g path of
        (Inl e, g, p) \<Rightarrow> (Inl e, g, p)
      | (Inr r, g, p) \<Rightarrow>
          if \<not> er_result r
          then (Inr (child_idx (of_nat idx) (er_result r) (reason_path r)), g, p)
          else eval_and E (Suc idx) cs rd g p)"
| "eval_or E idx [] rd g path = (Inr or_node, g, path)"
| "eval_or E idx (c # cs) rd g path =
     (case eval_op E (of_nat idx) c rd g path of
        (Inl e, g, p) \<Rightarrow> (Inl e, g, p)
      | (Inr r, g, p) \<Rightarrow>
          if er_result r
          then (Inr (child_idx (of_nat idx) (er_result r) (reason_path r)), g, p)
          else eval_or E (Suc idx) cs rd g p)"
  by pat_completeness auto

termination
  by (relation "measure (\<lambda>x. case x of
        Inl (E, idx, oper, rd, g, p) \<Rightarrow> 2 * cop_count oper
      | Inr (Inl (E, idx, cs, rd, g, p)) \<Rightarrow> 2 * sum_list (map cop_count cs) + 1
      | Inr (Inr (E, idx, cs, rd, g, p)) \<Rightarrow> 2 * sum_list (map cop_count cs) + 1)") simp_all

declare eval_op.simps [simp del]

definition eval ::
  "('p, 'q, 'j) externals \<Rightarrow> ('p, 'q) CAssertion \<Rightarrow> response_data \<Rightarrow> u32 \<Rightarrow> RuntimeError + EvalResult" where
  "eval E a rd assertion_complexity =
     (case eval_op E 0 (c_root a) rd assertion_complexity [] of
        (Inl e, _, path) \<Rightarrow> Inl (runtime_set_path path e)
      | (Inr r, _, _) \<Rightarrow> Inr r)"

end
