(* ===== verification/CheckResults.thy ===== *)
theory CheckResults
  imports CheckConfigs AssertEval
begin

text \<open>
  The result types of \<open>src/src/types/result.rs\<close>: statuses and their reasons, request
  information and its timings as derived from the statistics of the HTTP client, the record of
  a finished check, and the constructors of a check's outcome.

  The HTTP client's statistics (\<open>hyper::stats\<close>) and the certificate parser (\<open>openssl\<close>) are
  third-party code: statistics are records of what their accessors return, and parsing a
  certificate is a parameter that yields the validity bounds as days and seconds from the epoch.
\<close>

section \<open>Statuses\<close>

datatype CheckStatus = Success | Failure | MissedWindow | DisallowedByRobots

datatype CheckStatusReasonType =
    RTimeout | RDnsError | RTlsError | RConnectionError | RRedirectError | RFailure
  | RMissProduced | RMissBackfill | RAssertionCompilationError | RAssertionEvaluationError

fun reason_as_str :: "CheckStatusReasonType \<Rightarrow> string" where
  "reason_as_str RTimeout = ''timeout''"
| "reason_as_str RDnsError = ''dns_error''"
| "reason_as_str RTlsError = ''tls_error''"
| "reason_as_str RConnectionError = ''connection_error''"
| "reason_as_str RRedirectError = ''redirect_error''"
| "reason_as_str RFailure = ''failure''"
| "reason_as_str RMissProduced = ''miss_produced''"
| "reason_as_str RMissBackfill = ''miss_backfill''"
| "reason_as_str RAssertionCompilationError = ''assertion_compilation_error''"
| "reason_as_str RAssertionEvaluationError = ''assertion_evaluation_error''"

datatype CheckFailureDetails =
    DCompilation CompilationError
  | DEvaluation RuntimeError

record CheckStatusReason =
  status_type :: CheckStatusReasonType
  description :: string
  details :: "CheckFailureDetails option"

text \<open>The display texts of the assertion errors.\<close>

fun compilation_error_to_string :: "CompilationError \<Rightarrow> string" where
  "compilation_error_to_string (InvalidGlob _ glob msg) = ''Invalid glob '' @ glob @ '': '' @ msg"
| "compilation_error_to_string (JsonPathParser _ msg _ _) = ''JSONPath Parser Error: '' @ msg"
| "compilation_error_to_string (InvalidJsonPath _ msg) = ''Invalid JSONPath: '' @ msg"
| "compilation_error_to_string (TooManyOperations _) = ''Too many assertion operations''"

fun runtime_error_to_string :: "RuntimeError \<Rightarrow> string" where
  "runtime_error_to_string (RInvalidJsonPath _ msg) = ''Invalid JSONPath: '' @ msg"
| "runtime_error_to_string (TookTooLong _) = ''Assertion took too long''"
| "runtime_error_to_string (InvalidJsonBody body) = ''Invalid Body JSON: '' @ body"
| "runtime_error_to_string (InvalidTypeComparison _ msg) = ''Invalid type in comparison: '' @ msg"

section \<open>Timings\<close>

record Timing =
  start_us :: u128
  duration_us :: u64

definition default_timing :: Timing where
  "default_timing = \<lparr>start_us = 0, duration_us = 0\<rparr>"

record RequestDurations =
  dns_lookup :: Timing
  tcp_connection :: Timing
  tls_handshake :: Timing
  time_to_first_byte :: Timing
  send_request :: Timing
  receive_response :: Timing

record CertificateInfo =
  not_before_timestamp_s :: u64
  not_after_timestamp_s :: u64

record RequestInfo =
  request_type :: RequestMethod
  http_status_code :: "u16 option"
  ri_url :: string
  request_body_size_bytes :: u32
  response_body_size_bytes :: u32
  request_duration_us :: u64
  durations :: RequestDurations
  certificate_info :: "CertificateInfo option"
  response_body :: "string option"
  response_headers :: "(string \<times> string) list option"

text \<open>
  The time from one instant to a later one, zero when it is not later, in whole microseconds.
\<close>

definition duration_since :: "instant \<Rightarrow> instant \<Rightarrow> time_delta" where
  "duration_since a b = max 0 (a - b)"

definition as_micros :: "time_delta \<Rightarrow> int" where
  "as_micros d = d div 1000"

definition to_timing :: "u128 \<Rightarrow> instant \<Rightarrow> instant \<Rightarrow> instant \<Rightarrow> Timing" where
  "to_timing reference_ts reference_instant start end_i =
     \<lparr>start_us = reference_ts + word_of_int (as_micros (duration_since start reference_instant)),
      duration_us = word_of_int (as_micros (duration_since end_i start))\<rparr>"

section \<open>Statistics of the HTTP client\<close>

record AbsoluteDuration =
  ad_start :: instant
  ad_end :: instant

record ConnectionStats =
  get_dns_resolve :: "AbsoluteDuration option"
  get_connect :: "AbsoluteDuration option"
  get_tls_connect :: "AbsoluteDuration option"

record RedirectStats =
  get_connection_stats :: "ConnectionStats option"
  get_request_start :: instant
  get_request_start_timestamp :: u128
  get_request_sent :: "instant option"
  get_response_start :: "instant option"
  get_request_end :: instant
  get_certificate_bytes :: "u8 list option"
  get_status_code :: u16
  get_request_body_size :: u32
  get_url :: string

record TimeDiff =
  td_days :: "32 word"
  td_secs :: "32 word"

record X509Validity =
  not_before_diff :: "TimeDiff option"
  not_after_diff :: "TimeDiff option"

record stats_externals =
  new_pooled :: "instant \<Rightarrow> u128 \<Rightarrow> ConnectionStats"
  x509_from_der :: "u8 list \<Rightarrow> X509Validity option"

text \<open>
  The cast of a signed 32-bit number to 64 bits extends its sign; sums and products of 64-bit
  words wrap.
\<close>

definition time_diff_secs :: "TimeDiff \<Rightarrow> u64" where
  "time_diff_secs d = scast (td_secs d) + scast (td_days d) * 24 * 60 * 60"

definition zero_diff :: TimeDiff where
  "zero_diff = \<lparr>td_days = 0, td_secs = 0\<rparr>"

definition to_certificate_info :: "X509Validity \<Rightarrow> CertificateInfo" where
  "to_certificate_info cert =
     (let not_after = (case not_after_diff cert of None \<Rightarrow> zero_diff | Some d \<Rightarrow> d);
          not_before = (case not_before_diff cert of None \<Rightarrow> zero_diff | Some d \<Rightarrow> d)
      in \<lparr>not_before_timestamp_s = time_diff_secs not_before,
          not_after_timestamp_s = time_diff_secs not_after\<rparr>)"

definition unwrap_or :: "'a option \<Rightarrow> 'a \<Rightarrow> 'a" where
  "unwrap_or x d = (case x of None \<Rightarrow> d | Some y \<Rightarrow> y)"

definition request_durations :: "stats_externals \<Rightarrow> RedirectStats \<Rightarrow> RequestDurations" where
  "request_durations S rs =
     (let conn_stats = (case get_connection_stats rs of
                          Some cstats \<Rightarrow> cstats
                        | None \<Rightarrow> new_pooled S (get_request_start rs) (get_request_start_timestamp rs));
          empty_duration = \<lparr>ad_start = get_request_start rs, ad_end = get_request_start rs\<rparr>;
          dns_resolve = unwrap_or (get_dns_resolve conn_stats) empty_duration;
          connect = unwrap_or (get_connect conn_stats) empty_duration;
          tls_connect = unwrap_or (get_tls_connect conn_stats) empty_duration;
          latest_connection_stat =
            ad_end (unwrap_or (get_tls_connect conn_stats)
              (unwrap_or (get_connect conn_stats) empty_duration));
          timing = to_timing (get_request_start_timestamp rs) (get_request_start rs)
      in \<lparr>dns_lookup = timing (ad_start dns_resolve) (ad_end dns_resolve),
          tcp_connection = timing (ad_start connect) (ad_end connect),
          tls_handshake = timing (ad_start tls_connect) (ad_end tls_connect),
          time_to_first_byte =
            timing (unwrap_or (get_request_sent rs) (ad_start empty_duration))
              (unwrap_or (get_response_start rs) (ad_end empty_duration)),
          send_request =
            timing latest_connection_stat (unwrap_or (get_request_sent rs) (ad_end empty_duration)),
          receive_response =
            timing (unwrap_or (get_response_start rs) (ad_start empty_duration)) (get_request_end rs)\<rparr>)"

definition to_request_info :: "stats_externals \<Rightarrow> RequestMethod \<Rightarrow> RedirectStats \<Rightarrow> RequestInfo" where
  "to_request_info S method rs =
     \<lparr>request_type = method,
      http_status_code = Some (get_status_code rs),
      ri_url = get_url rs,
      request_body_size_bytes = get_request_body_size rs,
      response_body_size_bytes = 0,
      request_duration_us =
        word_of_int (as_micros (duration_since (get_request_end rs) (get_request_start rs))),
      durations = request_durations S rs,
      certificate_info =
        map_option to_certificate_info (Option.bind (get_certificate_bytes rs) (x509_from_der S)),
      response_body = None,
      response_headers = None\<rparr>"

definition to_request_info_list ::
  "stats_externals \<Rightarrow> RedirectStats list \<Rightarrow> RequestMethod \<Rightarrow> RequestInfo list" where
  "to_request_info_list S redirects method = map (to_request_info S method) redirects"

section \<open>Printing of durations\<close>

definition to_timings :: "u128 \<Rightarrow> u128 \<Rightarrow> u64 \<Rightarrow> u128 \<times> u128" where
  "to_timings reference start duration =
     (start - reference, (start - reference) + ucast duration)"

definition show_timings :: "u128 \<times> u128 \<Rightarrow> string" where
  "show_timings t = show_nat (unat (fst t)) @ '' - '' @ show_nat (unat (snd t))"

definition fmt_request_durations :: "RequestDurations \<Rightarrow> (string \<times> string) list" where
  "fmt_request_durations d =
     (let timings = (\<lambda>t. to_timings (start_us (dns_lookup d)) (start_us t) (duration_us t))
      in [(''dns_lookup'', show_timings (timings (dns_lookup d))),
          (''tcp_connection'', show_timings (timings (tcp_connection d))),
          (''tls_handshake'', show_timings (timings (tls_handshake d))),
          (''send_request'', show_timings (timings (send_request d))),
          (''receive_response'', show_timings (timings (receive_response d)))])"

section \<open>Results and outcomes\<close>

record CheckResult =
  cr_guid :: u128
  cr_subscription_id :: u128
  cr_status :: CheckStatus
  cr_status_reason :: "CheckStatusReason option"
  cr_trace_id :: u128
  cr_span_id :: u64
  cr_scheduled_check_time :: datetime
  cr_scheduled_check_time_us :: datetime
  cr_actual_check_time :: datetime
  cr_actual_check_time_us :: datetime
  cr_duration :: "time_delta option"
  cr_duration_us :: "time_delta option"
  cr_request_info :: "RequestInfo option"
  cr_request_info_list :: "RequestInfo list"
  cr_region :: string
  cr_assertion_failure_data :: "Assertion option"

record Check =
  ck_result :: CheckStatus
  ck_reason :: "CheckStatusReason option"
  ck_assert_path :: "EvalPath option"
  ck_body_bytes :: "u8 list option"
  ck_request_infos :: "RequestInfo list"

definition check_success :: Check where
  "check_success =
     \<lparr>ck_result = Success, ck_reason = None, ck_assert_path = None, ck_body_bytes = None,
      ck_request_infos = []\<rparr>"

text \<open>The display text of a status code is the HTTP library's.\<close>

definition code_failure :: "(u16 \<Rightarrow> string) \<Rightarrow> u16 \<Rightarrow> Check" where
  "code_failure status_to_string status =
     \<lparr>ck_result = Failure,
      ck_reason = Some \<lparr>status_type = RFailure,
                        description = ''Got non 2xx status: '' @ status_to_string status,
                        details = None\<rparr>,
      ck_assert_path = None, ck_body_bytes = None, ck_request_infos = []\<rparr>"

definition other_failure :: "CheckStatusReason \<Rightarrow> RequestInfo list \<Rightarrow> Check" where
  "other_failure reason request_infos =
     \<lparr>ck_result = Failure, ck_reason = Some reason, ck_assert_path = None, ck_body_bytes = None,
      ck_request_infos = request_infos\<rparr>"

definition assert_compile_failure :: "CompilationError \<Rightarrow> Check" where
  "assert_compile_failure err =
     \<lparr>ck_result = Failure,
      ck_reason = Some \<lparr>status_type = RAssertionCompilationError,
                        description = compilation_error_to_string err,
                        details = Some (DCompilation err)\<rparr>,
      ck_assert_path = None, ck_body_bytes = None, ck_request_infos = []\<rparr>"

definition assert_evaluation_failure :: "RuntimeError \<Rightarrow> Check" where
  "assert_evaluation_failure err =
     \<lparr>ck_result = Failure,
      ck_reason = Some \<lparr>status_type = RAssertionEvaluationError,
                        description = runtime_error_to_string err,
                        details = Some (DEvaluation err)\<rparr>,
      ck_assert_path = None, ck_body_bytes = None, ck_request_infos = []\<rparr>"

definition assert_failure :: "EvalPath \<Rightarrow> Check" where
  "assert_failure path =
     \<lparr>ck_result = Failure,
      ck_reason = Some \<lparr>status_type = RFailure, description = ''Assertion failed'', details = None\<rparr>,
      ck_assert_path = Some path, ck_body_bytes = None, ck_request_infos = []\<rparr>"

lemmas check_constructors =
  check_success_def code_failure_def other_failure_def assert_compile_failure_def
  assert_evaluation_failure_def assert_failure_def

section \<open>Certificate bounds and timings\<close>

lemma sint_in_range:
  "- (2 ^ 63) \<le> x \<Longrightarrow> x < 2 ^ 63 \<Longrightarrow> sint (word_of_int x :: 64 word) = x"
  by (simp add: signed_of_int signed_take_bit_int_eq_self)

text \<open>
  The certificate bounds that are reported are, read as signed 64-bit numbers, exactly the
  seconds from the epoch (days times 86400 plus the rest of the day): the sums do not overflow for
  any validity date, and a date before 1970 becomes the two's complement of its distance.
\<close>

theorem certificate_bounds_exact:
  "sint (time_diff_secs d) = sint (td_secs d) + 86400 * sint (td_days d)"
proof -
  let ?x = "sint (td_secs d) + 86400 * sint (td_days d)"
  have b: "- (2 ^ 31) \<le> sint w \<and> sint w < 2 ^ 31" for w :: "32 word"
    using sint_ge [of w] sint_lt [of w] by simp
  have *: "y + x * 24 * 60 * 60 = y + 86400 * x" for x y :: u64 by simp
  have "time_diff_secs d = word_of_int ?x"
    unfolding time_diff_secs_def scast_eq * by (simp only: of_int_add of_int_mult of_int_numeral)
  moreover have "- (2 ^ 63) \<le> ?x" "?x < 2 ^ 63"
    using b [of "td_secs d"] b [of "td_days d"] by simp_all
  ultimately show ?thesis by (simp only: sint_in_range)
qed

text \<open>A timing that fits its machine integers.\<close>

definition timing_is :: "Timing \<Rightarrow> u128 \<Rightarrow> time_delta \<Rightarrow> time_delta \<Rightarrow> bool" where
  "timing_is t reference offset len =
     (uint (start_us t) = uint reference + as_micros offset \<and> uint (duration_us t) = as_micros len)"

lemma uint_of_int_in_range:
  "0 \<le> k \<Longrightarrow> k < 2 ^ LENGTH('a) \<Longrightarrow> uint (word_of_int k :: 'a::len word) = k"
  by (simp add: unsigned_of_int take_bit_int_eq_self)

lemma uint_add_of_int:
  fixes w :: "'a::len word"
  assumes "0 \<le> k" "uint w + k < 2 ^ LENGTH('a)"
  shows "uint (w + word_of_int k) = uint w + k"
proof -
  have "w + word_of_int k = word_of_int (uint w + k)" by simp
  moreover have "uint (word_of_int (uint w + k) :: 'a word) = uint w + k"
    by (rule uint_of_int_in_range) (use assms in simp_all)
  ultimately show ?thesis by simp
qed

lemma to_timing_exact:
  assumes "uint reference + as_micros (duration_since start ref_i) < 2 ^ 128"
    and "as_micros (duration_since end_i start) < 2 ^ 64"
  shows "timing_is (to_timing reference ref_i start end_i) reference
           (duration_since start ref_i) (duration_since end_i start)"
proof -
  have nn: "0 \<le> as_micros (duration_since a b)" for a b
    by (simp add: as_micros_def duration_since_def)
  have "uint (reference + word_of_int (as_micros (duration_since start ref_i))) =
      uint reference + as_micros (duration_since start ref_i)"
    by (rule uint_add_of_int) (use nn assms(1) in simp_all)
  moreover have "uint (word_of_int (as_micros (duration_since end_i start)) :: u64) =
      as_micros (duration_since end_i start)"
    by (rule uint_of_int_in_range) (use nn assms(2) in simp_all)
  ultimately show ?thesis by (simp only: timing_is_def to_timing_def Timing.simps)
qed

text \<open>
  A request answered on a pooled connection (the client reports no connection statistics, and the
  statistics made up for it have no phases) reports zero time for DNS lookup, TCP connection and
  TLS handshake, each placed at the start of the request.
\<close>

theorem pooled_connection_timings:
  assumes "get_connection_stats rs = None"
    and "\<forall>i t. new_pooled S i t = \<lparr>get_dns_resolve = None, get_connect = None, get_tls_connect = None\<rparr>"
  shows "let d = durations (to_request_info S method rs);
             none = \<lparr>start_us = get_request_start_timestamp rs, duration_us = 0\<rparr>
         in dns_lookup d = none \<and> tcp_connection d = none \<and> tls_handshake d = none"
  using assms
  by (simp add: to_request_info_def request_durations_def unwrap_or_def to_timing_def Let_def
      as_micros_def duration_since_def)

theorem pooled_connection_timings_witness:
  "let rs = \<lparr>get_connection_stats = None, get_request_start = 5, get_request_start_timestamp = 77,
         get_request_sent = None, get_response_start = None, get_request_end = 9000,
         get_certificate_bytes = None, get_status_code = 200, get_request_body_size = 0,
         get_url = ''u''\<rparr>;
       S = \<lparr>new_pooled = (\<lambda>i t. \<lparr>get_dns_resolve = None, get_connect = None, get_tls_connect = None\<rparr>),
         x509_from_der = (\<lambda>b. None)\<rparr>;
       d = durations (to_request_info S Get rs)
   in dns_lookup d = \<lparr>start_us = 77, duration_us = 0\<rparr>"
  using pooled_connection_timings [of
      "\<lparr>get_connection_stats = None, get_request_start = 5, get_request_start_timestamp = 77,
         get_request_sent = None, get_response_start = None, get_request_end = 9000,
         get_certificate_bytes = None, get_status_code = 200, get_request_body_size = 0,
         get_url = ''u''\<rparr>"
      "\<lparr>new_pooled = (\<lambda>i t. \<lparr>get_dns_resolve = None, get_connect = None, get_tls_connect = None\<rparr>),
         x509_from_der = (\<lambda>b. None)\<rparr>" Get]
  by (simp add: Let_def)

end
