(* ===== verification/Checker.thy ===== *)
theory Checker
  imports CheckResults
begin

text \<open>
  Checks and checkers: the scheduled check of \<open>src/src/check_executor.rs\<close>, the trace identity
  and the checker interface of \<open>src/src/checker.rs\<close>, and the queue-driven checker of
  \<open>src/src/checker/dummy_checker.rs\<close>.

  What the surroundings supply to a check (the clock, random identifiers) is an argument.  The
  texts of UUIDs, instants and span identifiers are third-party code and are the fields of
  \<open>fmt_externals\<close>.  A checker's operation returns \<open>None\<close> when it does not return: it waits for
  ever, or panics.
\<close>

section \<open>Scheduled checks\<close>

datatype CheckKind = Uptime | Robots

text \<open>The resolving end of a check is the number of its one-shot channel.\<close>

record ScheduledCheck =
  sc_kind :: CheckKind
  sc_tick :: Tick
  sc_config :: check_config
  sc_resolve_tx :: nat
  sc_retry_count :: u16
  sc_force_body_capture :: bool

definition new_scheduled_check ::
  "CheckKind \<Rightarrow> Tick \<Rightarrow> check_config \<Rightarrow> bool \<Rightarrow> nat \<Rightarrow> ScheduledCheck" where
  "new_scheduled_check kind tick config force_body_capture resolve_tx =
     \<lparr>sc_kind = kind, sc_tick = tick, sc_config = config, sc_resolve_tx = resolve_tx,
      sc_retry_count = 0, sc_force_body_capture = force_body_capture\<rparr>"

section \<open>Trace identity\<close>

record fmt_externals =
  show_uuid :: "u128 \<Rightarrow> string"
  show_uuid_simple :: "u128 \<Rightarrow> string"
  show_datetime :: "datetime \<Rightarrow> string"
  show_span_id :: "u64 \<Rightarrow> string"

definition CHECKER_RESULT_NAMESPACE :: u128 where
  "CHECKER_RESULT_NAMESPACE = 0x67f0b2d5e4764f009b999e6b95c3b7e3"

definition string_bytes :: "string \<Rightarrow> u8 list" where
  "string_bytes s = map (\<lambda>c. of_nat (of_char c)) s"

definition unique_key :: "fmt_externals \<Rightarrow> check_config \<Rightarrow> Tick \<Rightarrow> u16 \<Rightarrow> string" where
  "unique_key X config tick retry_num =
     show_uuid X (cc_subscription_id config) @ ''-'' @ show_datetime X (tick_time tick) @ ''-''
       @ show_nat (unat retry_num)"

definition make_trace_id ::
  "fmt_externals \<Rightarrow> uuid_v5 \<Rightarrow> check_config \<Rightarrow> Tick \<Rightarrow> u16 \<Rightarrow> u128" where
  "make_trace_id X v5 config tick retry_num =
     v5 CHECKER_RESULT_NAMESPACE (string_bytes (unique_key X config tick retry_num))"

definition make_trace_header :: "fmt_externals \<Rightarrow> check_config \<Rightarrow> u128 \<Rightarrow> u64 \<Rightarrow> string" where
  "make_trace_header X config trace_id span_id =
     (if cc_trace_sampling config
      then show_uuid_simple X trace_id @ ''-'' @ show_span_id X span_id
      else show_uuid_simple X trace_id @ ''-'' @ show_span_id X span_id @ ''-'' @ ''0'')"

text \<open>
  The texts are faithful: a UUID is printed with a fixed width, and neither it nor an instant is
  printed like another one.
\<close>

definition fmt_law :: "fmt_externals \<Rightarrow> bool" where
  "fmt_law X = (inj (show_uuid X) \<and> (\<forall>u. length (show_uuid X u) = 36) \<and> inj (show_datetime X))"

lemma split_last_unique:
  assumes "xs @ x # ys = xs' @ x # ys'" "x \<notin> set ys" "x \<notin> set ys'"
  shows "xs = xs' \<and> ys = ys'"
proof -
  have "takeWhile (\<lambda>z. z \<noteq> x) (rev (us @ x # vs)) = rev vs" if "x \<notin> set vs" for us vs
    using that by (simp add: takeWhile_append2 takeWhile_append)
  from this [OF assms(2), of xs] this [OF assms(3), of xs'] assms(1) have "ys = ys'" by simp
  with assms(1) show ?thesis by simp
qed

lemma show_nat_no_dash: "CHR ''-'' \<notin> set (show_nat n)"
proof (induction n rule: show_nat.induct)
  case (1 n)
  have d: "digit_char d \<noteq> CHR ''-''" if "d < 10" for d using digit_char_sign [OF that] by simp
  show ?case
  proof (cases "n < 10")
    case True
    with d [of n] show ?thesis by (simp add: show_nat.simps [of n])
  next
    case False
    with 1 d [of "n mod 10"] show ?thesis by (simp add: show_nat.simps [of n])
  qed
qed

lemma show_nat_inj: "a < 2 ^ 16 \<Longrightarrow> b < 2 ^ 16 \<Longrightarrow> show_nat a = show_nat b \<Longrightarrow> a = b"
proof -
  assume "a < 2 ^ 16" "b < 2 ^ 16" and eq: "show_nat a = show_nat b"
  then have "int a \<le> i64_max" "int b \<le> i64_max" by (simp_all add: i64_max_def)
  then have "i64_digits True (show_nat a) 0 = Inr (int a)" "i64_digits True (show_nat b) 0 = Inr (int b)"
    by (simp_all only: i64_digits_show_pos)
  then show "a = b" unfolding eq by simp
qed

text \<open>
  The key a trace identifier is derived from tells checks apart: two checks with the same key are of the
  same subscription, at the same time, on the same attempt.
\<close>

theorem unique_key_identifies:
  assumes "fmt_law X" "unique_key X c t r = unique_key X c' t' r'"
  shows "cc_subscription_id c = cc_subscription_id c' \<and> tick_time t = tick_time t' \<and> r = r'"
proof -
  have "show_uuid X (cc_subscription_id c) = show_uuid X (cc_subscription_id c') \<and>
      show_datetime X (tick_time t) @ ''-'' @ show_nat (unat r)
        = show_datetime X (tick_time t') @ ''-'' @ show_nat (unat r')"
    using assms by (intro append_eq_append_conv [THEN iffD1]) (auto simp: fmt_law_def unique_key_def)
  then have uuid: "show_uuid X (cc_subscription_id c) = show_uuid X (cc_subscription_id c')"
      and rest: "show_datetime X (tick_time t) @ CHR ''-'' # show_nat (unat r)
        = show_datetime X (tick_time t') @ CHR ''-'' # show_nat (unat r')" by simp_all
  have eqs: "show_datetime X (tick_time t) = show_datetime X (tick_time t') \<and>
      show_nat (unat r) = show_nat (unat r')"
    by (rule split_last_unique [OF rest]) (rule show_nat_no_dash)+
  have "unat w < 2 ^ 16" for w :: u16 by (rule less_le_trans [OF unsigned_less]) simp
  with eqs show_nat_inj have "unat r = unat r'" by blast
  then have "r = r'" by (rule unsigned_word_eqI)
  with assms(1) uuid eqs show ?thesis by (auto simp: fmt_law_def dest: injD)
qed

text \<open>Plain texts with these properties.\<close>

fun hex_digits :: "nat \<Rightarrow> nat \<Rightarrow> string" where
  "hex_digits 0 n = []"
| "hex_digits (Suc k) n = hex_digits k (n div 16) @ [char_of (n mod 16)]"

lemma length_hex_digits [simp]: "length (hex_digits k n) = k"
  by (induction k arbitrary: n) simp_all

lemma char_of_small: "a < 256 \<Longrightarrow> b < 256 \<Longrightarrow> (char_of a :: char) = char_of b \<Longrightarrow> a = (b::nat)"
proof -
  assume ab: "a < 256" "b < 256" and "(char_of a :: char) = char_of b"
  then have "(of_char (char_of a :: char) :: nat) = of_char (char_of b :: char)" by simp
  with ab show "a = b" by (simp only: of_char_of mod_less)
qed

lemma hex_digits_inj: "n < 16 ^ k \<Longrightarrow> m < 16 ^ k \<Longrightarrow> hex_digits k n = hex_digits k m \<Longrightarrow> n = m"
proof (induction k arbitrary: n m)
  case (Suc k)
  have digits: "hex_digits k (n div 16) = hex_digits k (m div 16)"
    and last: "(char_of (n mod 16) :: char) = char_of (m mod 16)"
    using Suc.prems(3) by (simp_all only: hex_digits.simps append1_eq_conv)
  have "n div 16 < 16 ^ k" "m div 16 < 16 ^ k"
    using Suc.prems(1,2) by (simp_all only: power_Suc2 less_mult_imp_div_less)
  with digits have "n div 16 = m div 16" by (rule Suc.IH [rotated 2])
  moreover have "n mod 16 = m mod 16" by (rule char_of_small [OF _ _ last]) simp_all
  ultimately show ?case using div_mult_mod_eq [of n 16] div_mult_mod_eq [of m 16] by linarith
qed simp

definition plain_fmt :: fmt_externals where
  "plain_fmt = \<lparr>
     show_uuid = (\<lambda>u. replicate 4 (CHR ''-'') @ hex_digits 32 (unat u)),
     show_uuid_simple = (\<lambda>u. hex_digits 32 (unat u)),
     show_datetime = (\<lambda>t. (if t < 0 then CHR ''b'' else CHR ''a'') # replicate (nat \<bar>t\<bar>) (CHR ''.'')),
     show_span_id = (\<lambda>u. hex_digits 16 (unat u))\<rparr>"

lemma plain_fmt_law: "fmt_law plain_fmt"
proof -
  have "u = v" if "hex_digits 32 (unat u) = hex_digits 32 (unat v)" for u v :: u128
  proof -
    have "unat w < 16 ^ 32" for w :: u128 by (rule less_le_trans [OF unsigned_less]) simp
    with hex_digits_inj that have "unat u = unat v" by blast
    then show ?thesis by (rule unsigned_word_eqI)
  qed
  then show ?thesis
    by (auto simp: fmt_law_def plain_fmt_def inj_def split: if_splits)
qed

theorem unique_key_identifies_witness:
  "cc_subscription_id default_check_config
     = cc_subscription_id (default_check_config\<lparr>cc_url := ''other''\<rparr>) \<and>
   tick_time (from_time 7) = tick_time (from_time 7) \<and> (1 :: u16) = 1"
  by (rule unique_key_identifies [OF plain_fmt_law]) (simp add: unique_key_def)

section \<open>The checker interface\<close>

text \<open>
  A checker operates on its own state and on the input that the surroundings give to one call.  Both
  operations report on the check they were given: the subscription, the time of the tick and
  the region of the result are the check's, and \<open>check_robots\<close> has nothing to report but a denial.
\<close>

definition reports_on :: "ScheduledCheck \<Rightarrow> string \<Rightarrow> CheckResult \<Rightarrow> bool" where
  "reports_on check region r =
     (cr_subscription_id r = cc_subscription_id (sc_config check) \<and>
      cr_scheduled_check_time r = tick_time (sc_tick check) \<and>
      cr_scheduled_check_time_us r = tick_time (sc_tick check) \<and>
      cr_region r = region)"

locale checker =
  fixes check_url :: "'w \<Rightarrow> ScheduledCheck \<Rightarrow> string \<Rightarrow> 'st \<Rightarrow> (CheckResult \<times> 'st) option"
    and check_robots :: "'w \<Rightarrow> ScheduledCheck \<Rightarrow> string \<Rightarrow> 'st \<Rightarrow> (CheckResult option \<times> 'st) option"
  assumes url_reports: "check_url w c region st = Some (r, st') \<Longrightarrow> reports_on c region r"
    and robots_reports: "check_robots w c region st = Some (Some r, st') \<Longrightarrow>
      reports_on c region r \<and> cr_status r = DisallowedByRobots"

section \<open>The dummy checker\<close>

record DummyResult =
  dr_delay :: "time_delta option"
  dr_status :: CheckStatus

definition default_dummy_result :: DummyResult where
  "default_dummy_result = \<lparr>dr_delay = None, dr_status = Success\<rparr>"

text \<open>Both channels are queues; their senders live as long as the checker.\<close>

record DummyChecker =
  dummy_results :: "DummyResult list"
  dummy_robots_results :: "bool list"

definition new_dummy :: DummyChecker where
  "new_dummy = \<lparr>dummy_results = [], dummy_robots_results = []\<rparr>"

definition queue_result :: "DummyResult \<Rightarrow> DummyChecker \<Rightarrow> DummyChecker" where
  "queue_result r d = d\<lparr>dummy_results := dummy_results d @ [r]\<rparr>"

definition queue_robots_result :: "bool \<Rightarrow> DummyChecker \<Rightarrow> DummyChecker" where
  "queue_robots_result r d = d\<lparr>dummy_robots_results := dummy_robots_results d @ [r]\<rparr>"

text \<open>Clock and random identifiers of one call.\<close>

record call_input =
  in_now :: datetime
  in_trace_id :: u128
  in_guid :: u128
  in_span_id :: u64

text \<open>
  An empty queue makes the receiver wait: its senders are held by the checker itself, so the channel is
  never closed.
\<close>

definition dummy_check_url ::
  "call_input \<Rightarrow> ScheduledCheck \<Rightarrow> string \<Rightarrow> DummyChecker \<Rightarrow> (CheckResult \<times> DummyChecker) option" where
  "dummy_check_url w check region d =
     (case dummy_results d of
        [] \<Rightarrow> None
      | result # rest \<Rightarrow>
          Some (\<lparr>cr_guid = in_guid w,
                 cr_subscription_id = cc_subscription_id (sc_config check),
                 cr_status = dr_status result,
                 cr_status_reason = None,
                 cr_trace_id = in_trace_id w,
                 cr_span_id = in_span_id w,
                 cr_scheduled_check_time = tick_time (sc_tick check),
                 cr_scheduled_check_time_us = tick_time (sc_tick check),
                 cr_actual_check_time = in_now w,
                 cr_actual_check_time_us = in_now w,
                 cr_duration = None,
                 cr_duration_us = None,
                 cr_request_info = None,
                 cr_request_info_list = [],
                 cr_region = region,
                 cr_assertion_failure_data = None\<rparr>, d\<lparr>dummy_results := rest\<rparr>))"

definition dummy_check_robots ::
  "call_input \<Rightarrow> ScheduledCheck \<Rightarrow> string \<Rightarrow> DummyChecker
     \<Rightarrow> (CheckResult option \<times> DummyChecker) option" where
  "dummy_check_robots w check region d =
     (let (result, d') = (case dummy_robots_results d of
                            [] \<Rightarrow> (True, d)
                          | b # rest \<Rightarrow> (b, d\<lparr>dummy_robots_results := rest\<rparr>))
      in if \<not> result
         then Some (Some \<lparr>cr_guid = in_guid w,
                 cr_subscription_id = cc_subscription_id (sc_config check),
                 cr_status = DisallowedByRobots,
                 cr_status_reason = None,
                 cr_trace_id = in_trace_id w,
                 cr_span_id = in_span_id w,
                 cr_scheduled_check_time = tick_time (sc_tick check),
                 cr_scheduled_check_time_us = tick_time (sc_tick check),
                 cr_actual_check_time = in_now w,
                 cr_actual_check_time_us = in_now w,
                 cr_duration = None,
                 cr_duration_us = None,
                 cr_request_info = None,
                 cr_request_info_list = [],
                 cr_region = region,
                 cr_assertion_failure_data = None\<rparr>, d')
         else Some (None, d'))"

interpretation dummy: checker dummy_check_url dummy_check_robots
  by unfold_locales
    (auto simp: dummy_check_url_def dummy_check_robots_def reports_on_def Let_def
      split: list.splits if_splits prod.splits)

end
