(* ===== verification/HttpErrors.thy ===== *)
theory HttpErrors
  imports Checker
begin

text \<open>
  Failed requests (\<open>src/src/checker/reqwest_checker.rs\<close>): the classification of a client error
  by the chain of its sources, the reason it is reported with, and the request information made up
  for a request without a response.

  A client error (\<open>reqwest\<close>, third-party) is a record of what its accessors return; its source
  chain is the list of the errors that \<open>source()\<close> walks through, each by the type the program
  downcasts it to.
\<close>

section \<open>Client errors\<close>

datatype IoErrorKind = ConnectionRefused | ConnectionReset | OtherIoError

datatype error_source =
    ResolveError string
  | ErrorStack "string option list" \<comment> \<open>the reasons of the stacked errors\<close>
  | IoError IoErrorKind
  | HyperError bool string \<comment> \<open>incomplete message, text\<close>
  | HyperUtilError bool string \<comment> \<open>connect error, text\<close>
  | OtherError

record reqwest_error =
  re_is_timeout :: bool
  re_is_redirect :: bool
  re_status :: "u16 option"
  re_sources :: "error_source list"
  re_debug_without_url :: string

fun join_with :: "string \<Rightarrow> string list \<Rightarrow> string" where
  "join_with sep [] = []"
| "join_with sep [x] = x"
| "join_with sep (x # y # ys) = x @ sep @ join_with sep (y # ys)"

section \<open>Classification by the source chain\<close>

fun dns_error_in :: "error_source list \<Rightarrow> string option" where
  "dns_error_in [] = None"
| "dns_error_in (ResolveError msg # ss) = Some msg"
| "dns_error_in (_ # ss) = dns_error_in ss"

definition dns_error :: "reqwest_error \<Rightarrow> string option" where
  "dns_error err = dns_error_in (re_sources err)"

fun tls_error_in :: "error_source list \<Rightarrow> string option" where
  "tls_error_in [] = None"
| "tls_error_in (ErrorStack es # ss) =
     Some (join_with '', '' (map (\<lambda>e. case e of None \<Rightarrow> ''unknown error'' | Some r \<Rightarrow> r) es))"
| "tls_error_in (_ # ss) = tls_error_in ss"

definition tls_error :: "reqwest_error \<Rightarrow> string option" where
  "tls_error err = tls_error_in (re_sources err)"

fun connection_error_in :: "error_source list \<Rightarrow> string option" where
  "connection_error_in [] = None"
| "connection_error_in (IoError ConnectionRefused # ss) = Some ''Connection refused''"
| "connection_error_in (IoError ConnectionReset # ss) = Some ''Connection reset''"
| "connection_error_in (_ # ss) = connection_error_in ss"

definition connection_error :: "reqwest_error \<Rightarrow> string option" where
  "connection_error err = connection_error_in (re_sources err)"

fun hyper_error_in :: "error_source list \<Rightarrow> (CheckStatusReasonType \<times> string) option" where
  "hyper_error_in [] = None"
| "hyper_error_in (HyperError incomplete msg # ss) =
     Some (if incomplete then RConnectionError else RFailure, msg)"
| "hyper_error_in (_ # ss) = hyper_error_in ss"

definition hyper_error :: "reqwest_error \<Rightarrow> (CheckStatusReasonType \<times> string) option" where
  "hyper_error err = hyper_error_in (re_sources err)"

fun hyper_util_error_in :: "error_source list \<Rightarrow> (CheckStatusReasonType \<times> string) option" where
  "hyper_util_error_in [] = None"
| "hyper_util_error_in (HyperUtilError connect msg # ss) =
     Some (if connect then RConnectionError else RFailure, msg)"
| "hyper_util_error_in (_ # ss) = hyper_util_error_in ss"

definition hyper_util_error :: "reqwest_error \<Rightarrow> (CheckStatusReasonType \<times> string) option" where
  "hyper_util_error err = hyper_util_error_in (re_sources err)"

definition reason_of_error :: "reqwest_error \<Rightarrow> CheckStatusReason" where
  "reason_of_error e =
     (if re_is_timeout e then
        \<lparr>status_type = RTimeout, description = ''Request timed out'', details = None\<rparr>
      else if re_is_redirect e then
        \<lparr>status_type = RRedirectError, description = ''Too many redirects'', details = None\<rparr>
      else case dns_error e of
        Some message \<Rightarrow> \<lparr>status_type = RDnsError, description = message, details = None\<rparr>
      | None \<Rightarrow> (case tls_error e of
        Some message \<Rightarrow> \<lparr>status_type = RTlsError, description = message, details = None\<rparr>
      | None \<Rightarrow> (case connection_error e of
        Some message \<Rightarrow> \<lparr>status_type = RConnectionError, description = message, details = None\<rparr>
      | None \<Rightarrow> (case hyper_error e of
        Some (t, message) \<Rightarrow> \<lparr>status_type = t, description = message, details = None\<rparr>
      | None \<Rightarrow> (case hyper_util_error e of
        Some (t, message) \<Rightarrow> \<lparr>status_type = t, description = message, details = None\<rparr>
      | None \<Rightarrow>
          \<lparr>status_type = RFailure, description = re_debug_without_url e, details = None\<rparr>)))))"

section \<open>The request information of a failed request\<close>

text \<open>
  Microseconds of an instant and of a duration; the casts to unsigned words wrap, and a
  duration whose microseconds do not fit 64 bits counts as zero.
\<close>

definition timestamp_micros :: "datetime \<Rightarrow> int" where
  "timestamp_micros t = t div 1000"

definition num_microseconds :: "time_delta \<Rightarrow> i64 option" where
  "num_microseconds d =
     (let us = d sdiv 1000 in if i64_min \<le> us \<and> us \<le> i64_max then Some us else None)"

text \<open>
  A duration of the standard library as a signed one: beyond the range of milliseconds in 64 bits
  the conversion fails, and the default is zero.
\<close>

definition from_std_or_default :: "time_delta \<Rightarrow> time_delta" where
  "from_std_or_default d = (if d \<le> i64_max * 1000000 then d else 0)"

definition to_errored_request_infos ::
  "datetime \<Rightarrow> time_delta \<Rightarrow> reqwest_error \<Rightarrow> ScheduledCheck \<Rightarrow> RequestInfo list" where
  "to_errored_request_infos actual_check_time elapsed err check =
     (let request_duration = from_std_or_default elapsed;
          us = word_of_int (case num_microseconds request_duration of None \<Rightarrow> 0 | Some x \<Rightarrow> x);
          zero_timing = \<lparr>start_us = word_of_int (timestamp_micros actual_check_time), duration_us = 0\<rparr>;
          full_duration = \<lparr>start_us = word_of_int (timestamp_micros actual_check_time),
                           duration_us = us\<rparr>;
          (dns_timing, connection_timing, tls_timing, send_request_timing) =
            (if dns_error err \<noteq> None then (full_duration, zero_timing, zero_timing, zero_timing)
             else if connection_error err \<noteq> None
               then (zero_timing, full_duration, zero_timing, zero_timing)
             else if tls_error err \<noteq> None
               then (zero_timing, zero_timing, full_duration, zero_timing)
             else (zero_timing, zero_timing, zero_timing, full_duration))
      in [\<lparr>request_type = cc_request_method (sc_config check),
           http_status_code = re_status err,
           ri_url = cc_url (sc_config check),
           request_body_size_bytes = of_nat (length (cc_request_body (sc_config check))),
           response_body_size_bytes = 0,
           request_duration_us = us,
           durations = \<lparr>dns_lookup = dns_timing, tcp_connection = connection_timing,
                        tls_handshake = tls_timing, time_to_first_byte = zero_timing,
                        send_request = send_request_timing, receive_response = zero_timing\<rparr>,
           certificate_info = None, response_body = None, response_headers = None\<rparr>])"

section \<open>What is reported of a failed request\<close>

lemma dns_error_iff: "dns_error_in ss = None \<longleftrightarrow> (\<forall>msg. ResolveError msg \<notin> set ss)"
  by (induction ss rule: dns_error_in.induct) auto

lemma tls_error_iff: "tls_error_in ss = None \<longleftrightarrow> (\<forall>es. ErrorStack es \<notin> set ss)"
  by (induction ss rule: tls_error_in.induct) auto

lemma connection_error_iff:
  "connection_error_in ss = None \<longleftrightarrow>
     IoError ConnectionRefused \<notin> set ss \<and> IoError ConnectionReset \<notin> set ss"
  by (induction ss rule: connection_error_in.induct) auto

text \<open>
  The reason reported of a failed request, in closed form: a timeout first, then a redirect error, then the
  first cause present anywhere in the source chain in the order DNS, TLS, connection; any other
  chain is a connection error or a plain failure.
\<close>

theorem error_reason_priority:
  "status_type (reason_of_error e) =
     (if re_is_timeout e then RTimeout
      else if re_is_redirect e then RRedirectError
      else if \<exists>msg. ResolveError msg \<in> set (re_sources e) then RDnsError
      else if \<exists>es. ErrorStack es \<in> set (re_sources e) then RTlsError
      else if IoError ConnectionRefused \<in> set (re_sources e) \<or>
              IoError ConnectionReset \<in> set (re_sources e) then RConnectionError
      else (case hyper_error e of Some (t, _) \<Rightarrow> t
            | None \<Rightarrow> (case hyper_util_error e of Some (t, _) \<Rightarrow> t | None \<Rightarrow> RFailure)))"
  using dns_error_iff [of "re_sources e"] tls_error_iff [of "re_sources e"]
    connection_error_iff [of "re_sources e"]
  by (cases "dns_error e"; cases "tls_error e"; cases "connection_error e"; cases "hyper_error e";
      cases "hyper_util_error e")
    (auto simp: reason_of_error_def dns_error_def tls_error_def connection_error_def)

text \<open>
  A failed request is reported as one request whose whole duration is billed to exactly one of the four
  phases DNS, TCP connection, TLS and sending; a request that failed in DNS is billed to DNS.
\<close>

theorem failed_request_billed_once:
  "\<exists>ri. to_errored_request_infos t d e check = [ri] \<and>
     (let total = request_duration_us ri; ph = durations ri;
          phases = map duration_us [dns_lookup ph, tcp_connection ph, tls_handshake ph, send_request ph]
      in (\<exists>i<4. phases = (replicate 4 0)[i := total]) \<and>
         (dns_error e = None \<or> phases = [total, 0, 0, 0]))"
  by (cases "dns_error e = None"; cases "connection_error e = None"; cases "tls_error e = None")
    (auto simp: to_errored_request_infos_def Let_def numeral_eq_Suc intro: exI [of _ 0] exI [of _ 1]
      exI [of _ 2] exI [of _ 3])

text \<open>
  A source chain with both a refused connection and a TLS error is reported as a TLS error, yet its duration is
  billed to the TCP connection: the two classifications test the causes in different orders.
\<close>

theorem tls_reason_billed_to_tcp:
  assumes "re_sources e = [ErrorStack es, IoError ConnectionRefused]"
    and "\<not> re_is_timeout e" "\<not> re_is_redirect e"
  shows "status_type (reason_of_error e) = RTlsError \<and>
    (\<exists>ri. to_errored_request_infos t d e check = [ri] \<and>
       duration_us (tcp_connection (durations ri)) = request_duration_us ri \<and>
       duration_us (tls_handshake (durations ri)) = 0)"
  using assms
  by (simp add: reason_of_error_def dns_error_def tls_error_def connection_error_def
      to_errored_request_infos_def Let_def)

theorem tls_reason_billed_to_tcp_witness:
  "status_type (reason_of_error \<lparr>re_is_timeout = False, re_is_redirect = False, re_status = None,
      re_sources = [ErrorStack [], IoError ConnectionRefused], re_debug_without_url = []\<rparr>) = RTlsError"
  using tls_reason_billed_to_tcp [of "\<lparr>re_is_timeout = False, re_is_redirect = False, re_status = None,
      re_sources = [ErrorStack [], IoError ConnectionRefused], re_debug_without_url = []\<rparr>" "[]"]
  by simp

end
