(* ===== verification/AssertMeaning.thy ===== *)
theory AssertMeaning
  imports AssertEval
begin

text \<open>
  What an assertion means: a reference semantics without gas and without paths, the interface
  of the gas-metered comparisons, and the theorems that tie the evaluation to it.
\<close>

section \<open>Reference semantics\<close>

text \<open>\<open>None\<close> is an evaluation that cannot be completed whatever the gas.\<close>

fun all_opt :: "bool option list \<Rightarrow> bool option" where
  "all_opt [] = Some True"
| "all_opt (x # xs) =
     (case x of None \<Rightarrow> None | Some b \<Rightarrow> if b then all_opt xs else Some False)"

fun any_opt :: "bool option list \<Rightarrow> bool option" where
  "any_opt [] = Some False"
| "any_opt (x # xs) =
     (case x of None \<Rightarrow> None | Some b \<Rightarrow> if b then Some True else any_opt xs)"

definition coerce_ref ::
  "('p, 'q, 'j) externals \<Rightarrow> (f64 \<Rightarrow> f64 \<Rightarrow> bool) \<Rightarrow> (i64 \<Rightarrow> i64 \<Rightarrow> bool)
     \<Rightarrow> (string \<Rightarrow> string \<Rightarrow> bool) \<Rightarrow> 'j \<Rightarrow> string \<Rightarrow> bool option" where
  "coerce_ref E pf pi ps v s =
     (case (json_as_f64 E v, parse_f64 s) of
        (Some x, Inr y) \<Rightarrow> Some (pf x y)
      | _ \<Rightarrow>
          (case (json_as_i64 E v, parse_i64 s) of
             (Some x, Inr y) \<Rightarrow> Some (pi x y)
           | _ \<Rightarrow> map_option (\<lambda>x. ps x s) (json_as_str E v)))"

definition header_literal_ref ::
  "(f64 \<Rightarrow> f64 \<Rightarrow> bool) \<Rightarrow> (i64 \<Rightarrow> i64 \<Rightarrow> bool) \<Rightarrow> (string \<Rightarrow> string \<Rightarrow> bool)
     \<Rightarrow> string \<Rightarrow> Value \<Rightarrow> bool option" where
  "header_literal_ref pf pi ps h v =
     (case v of
        VI64 y \<Rightarrow> (case parse_i64 h of Inr x \<Rightarrow> Some (pi x y) | Inl _ \<Rightarrow> None)
      | VF64 y \<Rightarrow> (case parse_f64 h of Inr x \<Rightarrow> Some (pf x y) | Inl _ \<Rightarrow> None)
      | VString y \<Rightarrow> Some (ps h y))"

definition header_eq_ref :: "('p, 'q, 'j) externals \<Rightarrow> 'p CHeaderOperand \<Rightarrow> string \<Rightarrow> bool option" where
  "header_eq_ref E self h =
     (case self of
        CHLiteral v \<Rightarrow> header_literal_ref f64_eq (=) (=) h v
      | CHGlob p \<Rightarrow> Some (pattern_is_match E p h)
      | CHNone \<Rightarrow> Some False)"

definition header_ref ::
  "('p, 'q, 'j) externals \<Rightarrow> 'p CHeaderOperand \<Rightarrow> CComparison \<Rightarrow> string \<Rightarrow> bool option" where
  "header_ref E self oper h =
     (case oper of
        CAlways \<Rightarrow> Some True
      | CNever \<Rightarrow> Some False
      | CLessThan \<Rightarrow> (case self of CHLiteral v \<Rightarrow> header_literal_ref (<) (<) (<) h v | _ \<Rightarrow> Some False)
      | CGreaterThan \<Rightarrow>
          (case self of CHLiteral v \<Rightarrow> header_literal_ref (>) (>) (>) h v | _ \<Rightarrow> Some False)
      | CEqual \<Rightarrow> header_eq_ref E self h
      | CNotEqual \<Rightarrow> map_option Not (header_eq_ref E self h))"

definition jsonpath_eq_ref ::
  "('p, 'q, 'j) externals \<Rightarrow> 'p CJSONPathOperand \<Rightarrow> 'j \<Rightarrow> bool option" where
  "jsonpath_eq_ref E self v =
     (case self of
        CJLiteral s \<Rightarrow> coerce_ref E f64_eq (=) (=) v s
      | CJGlob p \<Rightarrow> map_option (pattern_is_match E p) (json_as_str E v)
      | CJNone \<Rightarrow> Some False)"

definition jsonpath_ref ::
  "('p, 'q, 'j) externals \<Rightarrow> 'p CJSONPathOperand \<Rightarrow> CComparison \<Rightarrow> 'j \<Rightarrow> bool option" where
  "jsonpath_ref E self oper v =
     (case oper of
        CAlways \<Rightarrow> Some True
      | CNever \<Rightarrow> Some False
      | CLessThan \<Rightarrow> (case self of CJLiteral s \<Rightarrow> coerce_ref E (<) (<) (<) v s | _ \<Rightarrow> Some False)
      | CGreaterThan \<Rightarrow> (case self of CJLiteral s \<Rightarrow> coerce_ref E (>) (>) (>) v s | _ \<Rightarrow> Some False)
      | CEqual \<Rightarrow> jsonpath_eq_ref E self v
      | CNotEqual \<Rightarrow> map_option Not (jsonpath_eq_ref E self v))"

definition header_pair_ref ::
  "('p, 'q, 'j) externals \<Rightarrow> CComparison \<Rightarrow> 'p CHeaderOperand \<Rightarrow> CComparison \<Rightarrow> 'p CHeaderOperand
     \<Rightarrow> string \<times> u8 list \<Rightarrow> bool option" where
  "header_pair_ref E ko k vo v h =
     (case header_ref E k ko (fst h) of
        None \<Rightarrow> None
      | Some b \<Rightarrow>
          if b then (case header_to_str E (snd h) of
                       None \<Rightarrow> Some False
                     | Some s \<Rightarrow> header_ref E v vo s)
          else Some False)"

definition jsonpath_check_ref ::
  "('p, 'q, 'j) externals \<Rightarrow> 'q \<Rightarrow> CComparison \<Rightarrow> 'p CJSONPathOperand \<Rightarrow> u8 list \<Rightarrow> bool option" where
  "jsonpath_check_ref E q oper operand body =
     (case json_from_slice E body of
        Inl _ \<Rightarrow> None
      | Inr json \<Rightarrow>
          (case fst (js_path_process E q json (- 1)) of
             Inl _ \<Rightarrow> None
           | Inr rs \<Rightarrow> if rs = [] then Some False else all_opt (map (jsonpath_ref E operand oper) rs)))"

fun holds :: "('p, 'q, 'j) externals \<Rightarrow> response_data \<Rightarrow> ('p, 'q) COp \<Rightarrow> bool option" where
  "holds E rd (CAnd children) = all_opt (map (holds E rd) children)"
| "holds E rd (COr children) = any_opt (map (holds E rd) children)"
| "holds E rd (CNot operand) = map_option Not (holds E rd operand)"
| "holds E rd (CStatusCodeCheck value oper) = Some (status_check value oper (rd_status rd))"
| "holds E rd (CHeaderCheck ko k vo v) = any_opt (map (header_pair_ref E ko k vo v) (rd_headers rd))"
| "holds E rd (CJsonPath q oper operand) = jsonpath_check_ref E q oper operand (rd_body rd)"

section \<open>Metered computations\<close>

text \<open>
  A computation meters a reference result when it only ever spends gas, a value it returns is
  the reference value, and an error is either the exhausted gas or the reference's own failure.
\<close>

definition gas_ok :: "gas \<Rightarrow> 'a gassed \<Rightarrow> 'a option \<Rightarrow> bool" where
  "gas_ok g m x =
     (snd m \<le> g \<and> (case fst m of Inr r \<Rightarrow> x = Some r | Inl e \<Rightarrow> e = TookTooLong [] \<or> x = None))"

definition metered :: "(gas \<Rightarrow> 'a gassed) \<Rightarrow> 'a option \<Rightarrow> bool" where
  "metered m x = (\<forall>g. gas_ok g (m g) x)"

definition js_gas_law :: "('p, 'q, 'j) externals \<Rightarrow> bool" where
  "js_gas_law E =
     (\<forall>q j g. case js_path_process E q j g of
        (Inr rs, g') \<Rightarrow> g' \<le> g \<and> fst (js_path_process E q j (- 1)) = Inr rs
      | (Inl e, g') \<Rightarrow> g' \<le> g \<and>
          (e = JPTookTooLong \<or> (\<exists>e'. fst (js_path_process E q j (- 1)) = Inl e')))"

named_theorems meter \<open>rules for metered computations\<close>

lemma meteredD: "metered m x \<Longrightarrow> gas_ok g (m g) x"
  by (simp add: metered_def)

lemma gas_ok_trans: "gas_ok g' m x \<Longrightarrow> g' \<le> g \<Longrightarrow> gas_ok g m x"
  by (auto simp: gas_ok_def)

lemma metered_return [meter]: "metered (\<lambda>g. (Inr r, g)) (Some r)"
  by (simp add: metered_def gas_ok_def)

lemma metered_fail [meter]: "metered (\<lambda>g. (Inl e, g)) None"
  by (simp add: metered_def gas_ok_def)

lemma metered_bind:
  assumes "metered m x" "\<And>a. metered (k a) (y a)"
  shows "metered (\<lambda>g. case m g of (Inl e, g) \<Rightarrow> (Inl e, g) | (Inr a, g) \<Rightarrow> k a g) (Option.bind x y)"
  unfolding metered_def
proof
  fix g
  obtain r g' where m: "m g = (r, g')" by (cases "m g")
  have x: "g' \<le> g" "case r of Inr r \<Rightarrow> x = Some r | Inl e \<Rightarrow> e = TookTooLong [] \<or> x = None"
    using meteredD [OF assms(1), of g] by (auto simp: m gas_ok_def)
  show "gas_ok g (case m g of (Inl e, g) \<Rightarrow> (Inl e, g) | (Inr a, g) \<Rightarrow> k a g) (Option.bind x y)"
  proof (cases r)
    case (Inl e)
    with x show ?thesis by (auto simp: m gas_ok_def)
  next
    case (Inr a)
    with x gas_ok_trans [OF meteredD [OF assms(2)] x(1)] show ?thesis by (simp add: m)
  qed
qed

lemma metered_consume: "metered (\<lambda>g. consume g n) (Some ())"
  by (auto simp: metered_def gas_ok_def consume_def not_less word_sub_le)

lemma gas_ok_not: "gas_ok g m x \<Longrightarrow> gas_ok g (gassed_not m) (map_option Not x)"
  by (cases m; cases "fst m") (auto simp: gas_ok_def gassed_not_def)

lemma metered_not [meter]: "metered m x \<Longrightarrow> metered (\<lambda>g. gassed_not (m g)) (map_option Not x)"
  by (simp add: metered_def gas_ok_not)

lemma gas_ok_too_long: "gas_ok g m x \<Longrightarrow> fst m = Inl e \<Longrightarrow> e \<noteq> TookTooLong [] \<Longrightarrow> x = None"
  by (simp add: gas_ok_def)

section \<open>Comparisons\<close>

text \<open>The interface of a comparison: it meters its predicate on the two values.\<close>

locale comparison =
  fixes cmp :: "'a \<Rightarrow> 'a \<Rightarrow> gas \<Rightarrow> bool gassed"
    and rel :: "'a \<Rightarrow> 'a \<Rightarrow> bool"
  assumes meters: "metered (cmp a b) (Some (rel a b))"

text \<open>The three comparisons a JSON value or a header value is handed to.\<close>

locale typed_comparison =
  f64: comparison cmp_f64 rel_f64 + i64: comparison cmp_i64 rel_i64 + str: comparison cmp_str rel_str
  for cmp_f64 :: "f64 \<Rightarrow> f64 \<Rightarrow> gas \<Rightarrow> bool gassed" and rel_f64
  and cmp_i64 :: "i64 \<Rightarrow> i64 \<Rightarrow> gas \<Rightarrow> bool gassed" and rel_i64
  and cmp_str :: "string \<Rightarrow> string \<Rightarrow> gas \<Rightarrow> bool gassed" and rel_str
begin

lemma coerce:
  "metered (\<lambda>g. cmp_coerce_json E v s g cmp_f64 cmp_i64 cmp_str)
     (coerce_ref E rel_f64 rel_i64 rel_str v s)"
  unfolding cmp_coerce_json_def coerce_ref_def
  by (cases "json_as_f64 E v"; cases "parse_f64 s"; cases "json_as_i64 E v"; cases "parse_i64 s";
      cases "json_as_str E v") (simp_all add: f64.meters i64.meters str.meters metered_fail)

lemma header:
  "metered (cmp_header_value cmp_f64 cmp_i64 cmp_str h v) (header_literal_ref rel_f64 rel_i64 rel_str h v)"
  unfolding cmp_header_value_def header_literal_ref_def
  by (cases v; cases "parse_i64 h"; cases "parse_f64 h")
    (simp_all add: f64.meters i64.meters str.meters metered_fail)

end

lemma metered_cmp_eq: "metered (cmp_eq eq a b) (Some (eq a b))"
  unfolding cmp_eq_def using metered_bind [OF metered_consume metered_return] by fastforce

lemma metered_cmp_lt: "metered (cmp_lt a b) (Some (a < b))"
  unfolding cmp_lt_def using metered_bind [OF metered_consume metered_return] by fastforce

lemma metered_cmp_gt: "metered (cmp_gt a b) (Some (a > b))"
  unfolding cmp_gt_def using metered_bind [OF metered_consume metered_return] by fastforce

interpretation lt: typed_comparison cmp_lt "(<)" cmp_lt "(<)" cmp_lt "(<)"
  by unfold_locales (rule metered_cmp_lt)+

interpretation gt: typed_comparison cmp_gt "(>)" cmp_gt "(>)" cmp_gt "(>)"
  by unfold_locales (rule metered_cmp_gt)+

interpretation eq: typed_comparison "cmp_eq f64_eq" f64_eq "cmp_eq (=)" "(=)" "cmp_eq (=)" "(=)"
  by unfold_locales (rule metered_cmp_eq)+

text \<open>Values that need gas of their own: the glob matches.\<close>

lemma metered_after_consume:
  "metered m x \<Longrightarrow>
     metered (\<lambda>g. case consume g n of (Inl e, g) \<Rightarrow> (Inl e, g) | (Inr _, g) \<Rightarrow> m g) x"
  using metered_bind [OF metered_consume, of "\<lambda>_. m" "\<lambda>_. x" n] by simp

lemma metered_header_eq: "metered (cmp_eq_header E h self) (header_eq_ref E self h)"
proof (cases self)
  case (CHGlob p)
  then show ?thesis
    unfolding cmp_eq_header_def header_eq_ref_def
    by (simp add: metered_after_consume [OF metered_return])
qed (simp_all add: cmp_eq_header_def [abs_def] header_eq_ref_def eq.header metered_return)

lemma metered_header_operand: "metered (header_operand_eval E self oper h) (header_ref E self oper h)"
  unfolding header_operand_eval_def [abs_def] header_ref_def
  by (cases oper; cases self)
    (simp_all add: metered_return lt.header gt.header metered_header_eq metered_not)

lemma metered_too_long: "metered (\<lambda>g. (Inl (TookTooLong []), g)) x"
  by (simp add: metered_def gas_ok_def)

lemma metered_jsonpath_eq: "metered (cmp_eq_jsonpath E v self) (jsonpath_eq_ref E self v)"
proof (cases self)
  case (CJGlob p)
  have "metered (\<lambda>g. case json_as_str E v of None \<Rightarrow> (Inl (TookTooLong []), g)
      | Some s \<Rightarrow> (Inr (pattern_is_match E p s), g))
    (map_option (pattern_is_match E p) (json_as_str E v))"
    by (cases "json_as_str E v") (simp_all add: metered_too_long metered_return)
  from metered_after_consume [OF this] show ?thesis
    by (simp add: cmp_eq_jsonpath_def [abs_def] jsonpath_eq_ref_def CJGlob)
qed (simp_all add: cmp_eq_jsonpath_def [abs_def] cmp_eq_json_def [abs_def] jsonpath_eq_ref_def
    eq.coerce metered_return)

lemma metered_jsonpath_cmp: "metered (jsonpath_cmp E self oper v) (jsonpath_ref E self oper v)"
  unfolding jsonpath_cmp_def [abs_def] jsonpath_ref_def cmp_lt_json_def cmp_gt_json_def
  by (cases oper; cases self)
    (simp_all add: metered_return lt.coerce gt.coerce metered_jsonpath_eq metered_not)

lemma metered_jsonpath_all:
  "metered (jsonpath_all E self oper vs) (all_opt (map (jsonpath_ref E self oper) vs))"
proof (induction vs)
  case Nil
  then show ?case by (simp add: jsonpath_all.simps(1) [abs_def] metered_return)
next
  case (Cons v vs)
  have "metered (\<lambda>g. case jsonpath_cmp E self oper v g of (Inl e, g) \<Rightarrow> (Inl e, g)
          | (Inr b, g) \<Rightarrow> (if \<not> b then (Inr False, g) else jsonpath_all E self oper vs g))
        (Option.bind (jsonpath_ref E self oper v)
          (\<lambda>b. if \<not> b then Some False else all_opt (map (jsonpath_ref E self oper) vs)))"
    by (rule metered_bind [OF metered_jsonpath_cmp]) (use Cons.IH in \<open>simp add: metered_return\<close>)
  moreover have "Option.bind (jsonpath_ref E self oper v)
          (\<lambda>b. if \<not> b then Some False else all_opt (map (jsonpath_ref E self oper) vs))
      = all_opt (map (jsonpath_ref E self oper) (v # vs))"
    by (cases "jsonpath_ref E self oper v") simp_all
  ultimately show ?case by (simp add: jsonpath_all.simps(2) [abs_def])
qed

lemma metered_jsonpath_operand:
  "metered (jsonpath_operand_eval E self oper rs)
     (if rs = [] then Some False else all_opt (map (jsonpath_ref E self oper) rs))"
  unfolding jsonpath_operand_eval_def [abs_def]
  by (simp add: metered_return metered_jsonpath_all)

lemma metered_header_loop:
  "metered (header_loop E ko k vo v hs) (any_opt (map (header_pair_ref E ko k vo v) hs))"
proof (induction hs)
  case Nil
  then show ?case by (simp add: header_loop.simps(1) [abs_def] metered_return)
next
  case (Cons h hs)
  obtain name val where h: "h = (name, val)" by (cases h)
  let ?rest = "any_opt (map (header_pair_ref E ko k vo v) hs)"
  let ?run = "header_loop E ko k vo v hs"
  have val: "metered (\<lambda>g. case header_operand_eval E v vo s g of (Inl e, g) \<Rightarrow> (Inl e, g)
        | (Inr b, g) \<Rightarrow> (if b then (Inr True, g) else ?run g))
      (Option.bind (header_ref E v vo s) (\<lambda>b. if b then Some True else ?rest))" for s
    by (rule metered_bind [OF metered_header_operand]) (use Cons.IH in \<open>simp add: metered_return\<close>)
  have "metered (\<lambda>g. case header_operand_eval E k ko name g of (Inl e, g) \<Rightarrow> (Inl e, g)
        | (Inr b, g) \<Rightarrow>
            (if b then (case header_to_str E val of None \<Rightarrow> ?run g
               | Some s \<Rightarrow> (case header_operand_eval E v vo s g of (Inl e, g) \<Rightarrow> (Inl e, g)
                   | (Inr b, g) \<Rightarrow> (if b then (Inr True, g) else ?run g)))
             else ?run g))
      (Option.bind (header_ref E k ko name) (\<lambda>b.
         if b then (case header_to_str E val of None \<Rightarrow> ?rest
               | Some s \<Rightarrow> Option.bind (header_ref E v vo s) (\<lambda>b. if b then Some True else ?rest))
         else ?rest))"
    by (rule metered_bind [OF metered_header_operand])
      (use Cons.IH val in \<open>simp split: option.split\<close>)
  moreover have "Option.bind (header_ref E k ko name) (\<lambda>b.
         if b then (case header_to_str E val of None \<Rightarrow> ?rest
               | Some s \<Rightarrow> Option.bind (header_ref E v vo s) (\<lambda>b. if b then Some True else ?rest))
         else ?rest) = any_opt (map (header_pair_ref E ko k vo v) (h # hs))"
    by (cases "header_ref E k ko name"; cases "header_to_str E val")
      (simp_all add: h header_pair_ref_def split: option.split)
  ultimately show ?case by (simp add: h header_loop.simps(2) [abs_def])
qed

lemma metered_json_path_check:
  assumes "js_gas_law E"
  shows "metered (json_path_check E q oper operand body) (jsonpath_check_ref E q oper operand body)"
  unfolding metered_def
proof
  fix g
  show "gas_ok g (json_path_check E q oper operand body g) (jsonpath_check_ref E q oper operand body)"
  proof (cases "json_from_slice E body")
    case (Inl e)
    then show ?thesis by (simp add: json_path_check_def jsonpath_check_ref_def gas_ok_def)
  next
    case (Inr json)
    obtain r g' where run: "js_path_process E q json g = (r, g')"
      by (cases "js_path_process E q json g")
    have law: "case js_path_process E q json g of
        (Inr rs, g') \<Rightarrow> g' \<le> g \<and> fst (js_path_process E q json (- 1)) = Inr rs
      | (Inl e, g') \<Rightarrow> g' \<le> g \<and>
          (e = JPTookTooLong \<or> (\<exists>e'. fst (js_path_process E q json (- 1)) = Inl e'))"
      by (rule assms [unfolded js_gas_law_def, rule_format])
    show ?thesis
    proof (cases r)
      case (Inl e)
      with law run show ?thesis
        by (auto simp: json_path_check_def jsonpath_check_ref_def gas_ok_def Inr
            runtime_of_json_path_error_def)
    next
      case (Inr rs)
      with law run have "g' \<le> g" "fst (js_path_process E q json (- 1)) = Inr rs" by simp_all
      with gas_ok_trans [OF meteredD [OF metered_jsonpath_operand [of E operand oper rs]] this(1)] run Inr
      show ?thesis
        by (simp add: json_path_check_def jsonpath_check_ref_def \<open>json_from_slice E body = Inr json\<close>)
    qed
  qed
qed

section \<open>The tree\<close>

definition eval_ok :: "gas \<Rightarrow> (RuntimeError + EvalResult) \<times> gas \<times> u32 list \<Rightarrow> bool option \<Rightarrow> bool" where
  "eval_ok g x b = gas_ok g (map_sum id er_result (fst x), fst (snd x)) b"

lemma eval_okI:
  "(\<And>e h p. x = (Inl e, h, p) \<Longrightarrow> h \<le> g \<and> (e = TookTooLong [] \<or> b = None)) \<Longrightarrow>
   (\<And>r h p. x = (Inr r, h, p) \<Longrightarrow> h \<le> g \<and> b = Some (er_result r)) \<Longrightarrow> eval_ok g x b"
  by (cases x; cases "fst x") (auto simp: eval_ok_def gas_ok_def)

lemma eval_okD:
  "eval_ok g (Inl e, h, p) b \<Longrightarrow> h \<le> g \<and> (e = TookTooLong [] \<or> b = None)"
  "eval_ok g (Inr r, h, p) b \<Longrightarrow> h \<le> g \<and> b = Some (er_result r)"
  by (simp_all add: eval_ok_def gas_ok_def)

lemma eval_ok_leaf: "gas_ok g m b \<Longrightarrow> eval_ok g (finish_leaf path m) b"
  by (cases m; cases "fst m") (auto simp: eval_ok_def gas_ok_def leaf_node_def)

lemma er_result_simps [simp]:
  "er_result and_node = True" "er_result or_node = False" "er_result (leaf_node b) = b"
  "er_result (child_idx i b p) = b" "reason_path and_node = AllChildren"
  "reason_path or_node = AllChildren" "reason_path (leaf_node b) = Leaf"
  "reason_path (child_idx i b p) = ChildIndex i p"
  by (simp_all add: and_node_def or_node_def leaf_node_def child_idx_def)

lemma metered_status: "metered (\<lambda>g. case consume g 1 of (Inl e, g) \<Rightarrow> (Inl e, g)
    | (Inr _, g) \<Rightarrow> (Inr (status_check value oper code), g)) (Some (status_check value oper code))"
  by (rule metered_after_consume [OF metered_return])

lemma eval_op_ok:
  "js_gas_law E \<Longrightarrow> eval_ok g (eval_op E idx oper rd g p) (holds E rd oper)"
  "js_gas_law E \<Longrightarrow> eval_ok g (eval_and E i cs rd g p) (all_opt (map (holds E rd) cs))"
  "js_gas_law E \<Longrightarrow> eval_ok g (eval_or E i cs rd g p) (any_opt (map (holds E rd) cs))"
proof (induction E idx oper rd g p and E i cs rd g p and E i cs rd g p
    rule: eval_op_eval_and_eval_or.induct)
  case (1 E idx oper rd g p)
  note step = eval_op.simps [of E idx _ rd g p]
  show ?case
  proof (cases oper)
    case (CAnd children)
    obtain r h q where v: "eval_and E 0 children rd g (p @ [idx]) = (r, h, q)"
      by (cases "eval_and E 0 children rd g (p @ [idx])")
    from "1.IH"(1) [OF refl CAnd "1.prems"] show ?thesis
      by (cases r) (simp_all add: step CAnd v eval_ok_def)
  next
    case (COr children)
    obtain r h q where v: "eval_or E 0 children rd g (p @ [idx]) = (r, h, q)"
      by (cases "eval_or E 0 children rd g (p @ [idx])")
    from "1.IH"(2) [OF refl COr "1.prems"] show ?thesis
      by (cases r) (simp_all add: step COr v eval_ok_def)
  next
    case (CNot operand)
    obtain r h q where v: "eval_op E 0 operand rd g (p @ [idx]) = (r, h, q)"
      by (cases "eval_op E 0 operand rd g (p @ [idx])")
    from "1.IH"(3) [OF refl CNot "1.prems"] show ?thesis
      by (cases r) (auto simp: step CNot v eval_ok_def gas_ok_def)
  next
    case (CStatusCodeCheck val oper)
    then show ?thesis by (simp add: step eval_ok_leaf [OF meteredD [OF metered_status]])
  next
    case (CHeaderCheck ko k vo v)
    then show ?thesis by (simp add: step eval_ok_leaf [OF meteredD [OF metered_header_loop]])
  next
    case (CJsonPath q oper operand)
    then show ?thesis
      by (simp add: step eval_ok_leaf [OF meteredD [OF metered_json_path_check [OF "1.prems"]]])
  qed
next
  case (2 E idx rd g path)
  then show ?case by (simp add: eval_ok_def gas_ok_def)
next
  case (3 E i c cs rd g p)
  obtain r h q where v: "eval_op E (of_nat i) c rd g p = (r, h, q)"
    by (cases "eval_op E (of_nat i) c rd g p")
  have c: "eval_ok g (r, h, q) (holds E rd c)" using "3.IH"(1) "3.prems" by (simp add: v)
  show ?case
  proof (cases r)
    case (Inl e)
    with eval_okD(1) [of g e h q] c show ?thesis by (auto simp: v eval_ok_def gas_ok_def)
  next
    case (Inr b)
    with c have h: "h \<le> g" "holds E rd c = Some (er_result b)" using eval_okD(2) by auto
    show ?thesis
    proof (cases "er_result b")
      case True
      have "eval_ok h (eval_and E (Suc i) cs rd h q) (all_opt (map (holds E rd) cs))"
        using "3.IH"(2) [OF v [symmetric] Inr refl] True "3.prems" by simp
      with h(1) show ?thesis by (simp add: v Inr h True eval_ok_def gas_ok_trans)
    next
      case False
      with h show ?thesis by (simp add: v Inr eval_ok_def gas_ok_def)
    qed
  qed
next
  case (4 E idx rd g path)
  then show ?case by (simp add: eval_ok_def gas_ok_def)
next
  case (5 E i c cs rd g p)
  obtain r h q where v: "eval_op E (of_nat i) c rd g p = (r, h, q)"
    by (cases "eval_op E (of_nat i) c rd g p")
  have c: "eval_ok g (r, h, q) (holds E rd c)" using "5.IH"(1) "5.prems" by (simp add: v)
  show ?case
  proof (cases r)
    case (Inl e)
    with eval_okD(1) [of g e h q] c show ?thesis by (auto simp: v eval_ok_def gas_ok_def)
  next
    case (Inr b)
    with c have h: "h \<le> g" "holds E rd c = Some (er_result b)" using eval_okD(2) by auto
    show ?thesis
    proof (cases "er_result b")
      case False
      have "eval_ok h (eval_or E (Suc i) cs rd h q) (any_opt (map (holds E rd) cs))"
        using "5.IH"(2) [OF v [symmetric] Inr refl] False "5.prems" by simp
      with h(1) show ?thesis by (simp add: v Inr h False eval_ok_def gas_ok_trans)
    next
      case True
      with h show ?thesis by (simp add: v Inr eval_ok_def gas_ok_def)
    qed
  qed
qed

section \<open>Assertions that do not read the body\<close>

fun reads_body :: "('p, 'q) COp \<Rightarrow> bool" where
  "reads_body (CAnd children) = list_ex reads_body children"
| "reads_body (COr children) = list_ex reads_body children"
| "reads_body (CNot operand) = reads_body operand"
| "reads_body (CStatusCodeCheck _ _) = False"
| "reads_body (CJsonPath _ _ _) = True"
| "reads_body (CHeaderCheck _ _ _ _) = False"

lemma those_map_reads:
  "those (map f xs) = Some ys \<Longrightarrow> (\<And>x y. x \<in> set xs \<Longrightarrow> f x = Some y \<Longrightarrow> P y = Q x) \<Longrightarrow>
     list_ex P ys = list_ex Q xs"
proof (induction xs arbitrary: ys)
  case (Cons x xs)
  then obtain y zs where y: "f x = Some y" "those (map f xs) = Some zs" "ys = y # zs"
    by (auto split: option.splits)
  have "P y = Q x" by (rule Cons.prems(2)) (simp_all add: y)
  moreover have "list_ex P zs = list_ex Q xs" using Cons.IH [OF y(2)] Cons.prems(2) by simp
  ultimately show ?case by (simp add: y)
qed simp

lemma reads_body_compiled: "compiled_of E oper = Some c \<Longrightarrow> reads_body c = requires_body_impl oper"
proof (induction oper arbitrary: c)
  case (OpAnd children)
  then obtain z where z: "those (map (compiled_of E) children) = Some z" "c = CAnd z" by auto
  show ?case using those_map_reads [OF z(1) OpAnd.IH] by (simp add: z(2))
next
  case (OpOr children)
  then obtain z where z: "those (map (compiled_of E) children) = Some z" "c = COr z" by auto
  show ?case using those_map_reads [OF z(1) OpOr.IH] by (simp add: z(2))
qed (auto simp: compile_header_check_def compile_json_path_def split: sum.splits)

lemma eval_op_body:
  "\<not> reads_body oper \<Longrightarrow> eval_op E idx oper (rd\<lparr>rd_body := b\<rparr>) g p = eval_op E idx oper rd g p"
  "\<not> list_ex reads_body cs \<Longrightarrow> eval_and E i cs (rd\<lparr>rd_body := b\<rparr>) g p = eval_and E i cs rd g p"
  "\<not> list_ex reads_body cs \<Longrightarrow> eval_or E i cs (rd\<lparr>rd_body := b\<rparr>) g p = eval_or E i cs rd g p"
proof (induction E idx oper rd g p and E i cs rd g p and E i cs rd g p
    rule: eval_op_eval_and_eval_or.induct)
  case (1 E idx oper rd g p)
  then show ?case by (cases oper) (simp_all add: eval_op.simps [of E idx _ _ g p] split: prod.split sum.split)
next
  case (3 E i c cs rd g p)
  then show ?case by (simp split: prod.splits sum.splits)
next
  case (5 E i c cs rd g p)
  then show ?case by (simp split: prod.splits sum.splits)
qed simp_all

section \<open>The extracted part of an assertion\<close>

text \<open>
  The path leads to a part of the user's assertion that compiles on its own and means the result.
\<close>

definition explains ::
  "('p, 'q, 'j) externals \<Rightarrow> response_data \<Rightarrow> Op \<Rightarrow> EvalPath \<Rightarrow> bool \<Rightarrow> bool" where
  "explains E rd oper path b =
     (\<exists>f cf. extract_failure_data path oper = Some f \<and> compiled_of E f = Some cf \<and>
       holds E rd cf = Some b)"

lemma explains_whole:
  "compiled_of E oper = Some c \<Longrightarrow> holds E rd c = Some b \<Longrightarrow> path = Leaf \<or> path = AllChildren \<Longrightarrow>
     explains E rd oper path b"
  by (auto simp: explains_def)

lemma explains_And:
  "j < length ops \<Longrightarrow> length ops < 2 ^ 64 \<Longrightarrow> explains E rd (ops ! j) q False \<Longrightarrow>
     explains E rd (OpAnd ops) (ChildIndex (of_nat j) q) False"
  by (fastforce simp: explains_def unat_of_nat)

lemma explains_Or:
  "j < length ops \<Longrightarrow> length ops < 2 ^ 64 \<Longrightarrow> explains E rd (ops ! j) q True \<Longrightarrow>
     explains E rd (OpOr ops) (ChildIndex (of_nat j) q) True"
  by (fastforce simp: explains_def unat_of_nat)

lemma explains_Not: "explains E rd oper q b \<Longrightarrow> explains E rd (OpNot oper) (ChildIndex i q) (\<not> b)"
  by (fastforce simp: explains_def)

lemma op_count_children: "length ops \<le> sum_list (map op_count ops)"
proof (induction ops)
  case (Cons x xs)
  have "0 < op_count x" by simp
  with Cons show ?case by (simp del: op_count_pos)
qed simp

lemma compiled_of_inv:
  "compiled_of E oper = Some (CAnd cs) \<Longrightarrow> \<exists>ops. oper = OpAnd ops \<and> those (map (compiled_of E) ops) = Some cs"
  "compiled_of E oper = Some (COr cs) \<Longrightarrow> \<exists>ops. oper = OpOr ops \<and> those (map (compiled_of E) ops) = Some cs"
  "compiled_of E oper = Some (CNot c) \<Longrightarrow> \<exists>x. oper = OpNot x \<and> compiled_of E x = Some c"
  by (cases oper; auto simp: compile_header_check_def compile_json_path_def split: sum.splits)+

lemma eval_op_holds:
  "js_gas_law E \<Longrightarrow> fst (eval_op E idx c rd g p) = Inr r \<Longrightarrow> holds E rd c = Some (er_result r)"
  using eval_op_ok(1) [of E g idx c rd p] eval_okD(2) [of g r]
  by (cases "eval_op E idx c rd g p") auto

lemma finish_leaf_reason: "fst (finish_leaf p m) = Inr r \<Longrightarrow> reason_path r = Leaf"
  by (cases m; cases "fst m") auto

lemma those_Cons: "those (map f xs) = Some (y # ys) \<Longrightarrow>
    \<exists>x zs. xs = x # zs \<and> f x = Some y \<and> those (map f zs) = Some ys"
  by (cases xs) (auto split: option.splits)

lemma those_Nil: "those (map f xs) = Some [] \<Longrightarrow> xs = []"
  by (cases xs) (auto split: option.splits)

lemma eval_op_explains:
  "fst (eval_op E idx c rd g p) = Inr r \<Longrightarrow> js_gas_law E \<Longrightarrow> compiled_of E oper = Some c \<Longrightarrow>
     op_count oper < 2 ^ 64 \<Longrightarrow> explains E rd oper (reason_path r) (er_result r)"
  "fst (eval_and E i cs rd g p) = Inr r \<Longrightarrow> js_gas_law E \<Longrightarrow> those (map (compiled_of E) ops) = Some cs \<Longrightarrow>
     sum_list (map op_count ops) < 2 ^ 64 \<Longrightarrow> r = and_node \<or>
       (\<exists>j q. j < length ops \<and> r = child_idx (of_nat (i + j)) False q \<and> explains E rd (ops ! j) q False)"
  "fst (eval_or E i cs rd g p) = Inr r \<Longrightarrow> js_gas_law E \<Longrightarrow> those (map (compiled_of E) ops) = Some cs \<Longrightarrow>
     sum_list (map op_count ops) < 2 ^ 64 \<Longrightarrow> r = or_node \<or>
       (\<exists>j q. j < length ops \<and> r = child_idx (of_nat (i + j)) True q \<and> explains E rd (ops ! j) q True)"
proof (induction E idx c rd g p and E i cs rd g p and E i cs rd g p
    arbitrary: oper r and ops r and ops r rule: eval_op_eval_and_eval_or.induct)
  case (1 E idx c rd g p)
  note step = eval_op.simps [of E idx _ rd g p]
  have holds: "holds E rd c = Some (er_result r)"
    using eval_op_holds "1.prems" by blast
  show ?case
  proof (cases c)
    case (CAnd children)
    with "1.prems" compiled_of_inv(1) obtain ops
      where ops: "oper = OpAnd ops" "those (map (compiled_of E) ops) = Some children" by blast
    have "fst (eval_and E 0 children rd g (p @ [idx])) = Inr r"
      using "1.prems"(1) by (auto simp: step CAnd split: prod.splits sum.splits)
    from "1.IH"(1) [OF refl CAnd this "1.prems"(2) ops(2)] "1.prems"(4)
    have "r = and_node \<or> (\<exists>j q. j < length ops \<and> r = child_idx (of_nat (0 + j)) False q \<and>
        explains E rd (ops ! j) q False)" by (simp add: ops(1))
    moreover have "length ops < 2 ^ 64" using op_count_children [of ops] "1.prems"(4) by (simp add: ops(1))
    ultimately show ?thesis
      using holds "1.prems"(3) by (auto simp: ops(1) intro: explains_whole explains_And [simplified])
  next
    case (COr children)
    with "1.prems" compiled_of_inv(2) obtain ops
      where ops: "oper = OpOr ops" "those (map (compiled_of E) ops) = Some children" by blast
    have "fst (eval_or E 0 children rd g (p @ [idx])) = Inr r"
      using "1.prems"(1) by (auto simp: step COr split: prod.splits sum.splits)
    from "1.IH"(2) [OF refl COr this "1.prems"(2) ops(2)] "1.prems"(4)
    have "r = or_node \<or> (\<exists>j q. j < length ops \<and> r = child_idx (of_nat (0 + j)) True q \<and>
        explains E rd (ops ! j) q True)" by (simp add: ops(1))
    moreover have "length ops < 2 ^ 64" using op_count_children [of ops] "1.prems"(4) by (simp add: ops(1))
    ultimately show ?thesis
      using holds "1.prems"(3) by (auto simp: ops(1) intro: explains_whole explains_Or [simplified])
  next
    case (CNot operand)
    with "1.prems" compiled_of_inv(3) obtain x
      where x: "oper = OpNot x" "compiled_of E x = Some operand" by blast
    obtain r' where r': "fst (eval_op E 0 operand rd g (p @ [idx])) = Inr r'"
        "r = child_idx 0 (\<not> er_result r') (reason_path r')"
      using "1.prems"(1) by (auto simp: step CNot split: prod.splits sum.splits)
    from "1.IH"(3) [OF refl CNot r'(1) "1.prems"(2) x(2)] "1.prems"(4)
    have "explains E rd x (reason_path r') (er_result r')" by (simp add: x(1))
    then show ?thesis by (simp add: x(1) r'(2) explains_Not)
  qed (use "1.prems" holds in \<open>auto simp: step intro!: explains_whole dest: finish_leaf_reason\<close>)
next
  case (2 E idx rd g path)
  then show ?case by simp
next
  case (3 E i c cs rd g p)
  obtain x zs where x: "ops = x # zs" "compiled_of E x = Some c" "those (map (compiled_of E) zs) = Some cs"
    using those_Cons [OF "3.prems"(3)] by blast
  obtain b h q where v: "eval_op E (of_nat i) c rd g p = (Inr b, h, q)"
    using "3.prems"(1) by (auto split: prod.splits sum.splits)
  show ?case
  proof (cases "er_result b")
    case True
    have "r = and_node \<or> (\<exists>j q. j < length zs \<and> r = child_idx (of_nat (Suc i + j)) False q \<and>
        explains E rd (zs ! j) q False)"
      by (rule "3.IH"(2) [OF v [symmetric] refl refl])
        (use True x "3.prems" in \<open>simp_all add: v\<close>)
    then show ?thesis
    proof (elim disjE exE conjE)
      fix j q assume "j < length zs" "r = child_idx (of_nat (Suc i + j)) False q"
        "explains E rd (zs ! j) q False"
      then show ?thesis by (intro disjI2 exI [of _ "Suc j"] exI [of _ q]) (simp add: x(1))
    qed simp
  next
    case False
    have "explains E rd x (reason_path b) (er_result b)"
      by (rule "3.IH"(1)) (use x "3.prems" in \<open>simp_all add: v\<close>)
    moreover have "r = child_idx (of_nat i) False (reason_path b)"
      using "3.prems"(1) False by (simp add: v)
    ultimately show ?thesis
      using False by (intro disjI2 exI [of _ 0] exI [of _ "reason_path b"]) (simp add: x(1))
  qed
next
  case (4 E idx rd g path)
  then show ?case by simp
next
  case (5 E i c cs rd g p)
  obtain x zs where x: "ops = x # zs" "compiled_of E x = Some c" "those (map (compiled_of E) zs) = Some cs"
    using those_Cons [OF "5.prems"(3)] by blast
  obtain b h q where v: "eval_op E (of_nat i) c rd g p = (Inr b, h, q)"
    using "5.prems"(1) by (auto split: prod.splits sum.splits)
  show ?case
  proof (cases "er_result b")
    case False
    have "r = or_node \<or> (\<exists>j q. j < length zs \<and> r = child_idx (of_nat (Suc i + j)) True q \<and>
        explains E rd (zs ! j) q True)"
      by (rule "5.IH"(2) [OF v [symmetric] refl refl])
        (use False x "5.prems" in \<open>simp_all add: v\<close>)
    then show ?thesis
    proof (elim disjE exE conjE)
      fix j q assume "j < length zs" "r = child_idx (of_nat (Suc i + j)) True q"
        "explains E rd (zs ! j) q True"
      then show ?thesis by (intro disjI2 exI [of _ "Suc j"] exI [of _ q]) (simp add: x(1))
    qed simp
  next
    case True
    have "explains E rd x (reason_path b) (er_result b)"
      by (rule "5.IH"(1)) (use x "5.prems" in \<open>simp_all add: v\<close>)
    moreover have "r = child_idx (of_nat i) True (reason_path b)"
      using "5.prems"(1) True by (simp add: v)
    ultimately show ?thesis
      using True by (intro disjI2 exI [of _ 0] exI [of _ "reason_path b"]) (simp add: x(1))
  qed
qed

section \<open>What the evaluation promises\<close>

text \<open>
  C3: Evaluating a compiled assertion yields the value the assertion means: a result is the
  reference value of its tree, and an error is either the exhausted gas (always reported with an
  empty path) or an assertion that has no value on this response.  The JSONPath engine is
  only assumed to spend gas and to return, when the gas suffices, what it returns with all the gas.
\<close>

theorem eval_meaning:
  assumes "js_gas_law E"
  shows "case eval E a rd assertion_complexity of
           Inr r \<Rightarrow> holds E rd (c_root a) = Some (er_result r)
         | Inl e \<Rightarrow> e = TookTooLong [] \<or> holds E rd (c_root a) = None"
proof -
  obtain r h p where run: "eval_op E 0 (c_root a) rd assertion_complexity [] = (r, h, p)"
    by (cases "eval_op E 0 (c_root a) rd assertion_complexity []")
  have "eval_ok assertion_complexity (r, h, p) (holds E rd (c_root a))"
    using eval_op_ok(1) [OF assms, of assertion_complexity 0 "c_root a" rd "[]"] by (simp add: run)
  then show ?thesis by (cases r) (auto simp: eval_def run dest: eval_okD)
qed

lemma plain_js_gas_law: "js_gas_law plain_externals"
  by (simp add: js_gas_law_def plain_externals_def word_le_nat_alt unat_minus_one)

theorem eval_meaning_witness:
  "holds plain_externals \<lparr> rd_status = 200, rd_headers = [], rd_body = [] \<rparr>
     (CNot (CStatusCodeCheck 500 CLessThan)) = Some False"
proof -
  let ?c = "\<lparr> c_root = CNot (CStatusCodeCheck 500 CLessThan) \<rparr>"
  let ?rd = "\<lparr> rd_status = 200, rd_headers = [], rd_body = [] \<rparr>"
  have "eval plain_externals ?c ?rd 1 = Inr \<lparr> reason_path = ChildIndex 0 Leaf, er_result = False \<rparr>"
    by (simp add: eval_def eval_op.simps consume_def status_check_def leaf_node_def child_idx_def)
  with eval_meaning [OF plain_js_gas_law, where a = ?c and rd = ?rd and assertion_complexity = 1]
  show ?thesis by simp
qed

lemma eval_op_failure_part:
  assumes "js_gas_law E" "compile E a max_assertion_ops = Inr c" "eval E c rd assertion_complexity = Inr r"
  shows "\<exists>f cf. extract_failure_data (reason_path r) (root a) = Some f \<and>
           compiled_of E f = Some cf \<and> holds E rd cf = Some (er_result r)"
proof -
  from assms(2) obtain r' n p where "compile_op E 0 (root a) max_assertion_ops [] = (Inr (c_root c), n, p)"
    by (auto simp: compile_def split: prod.splits sum.splits)
  then have "compiled_of E (root a) = Some (c_root c)" "op_count (root a) \<le> unat max_assertion_ops"
    using compile_op_success(1) [of E 0 "root a" max_assertion_ops "[]" "c_root c"] by simp_all
  moreover have "unat max_assertion_ops < 2 ^ 64"
    by (rule less_trans [OF unsigned_less]) simp
  moreover have "fst (eval_op E 0 (c_root c) rd assertion_complexity []) = Inr r"
    using assms(3) by (auto simp: eval_def split: prod.splits sum.splits)
  ultimately have "explains E rd (root a) (reason_path r) (er_result r)"
    by (intro eval_op_explains(1) [OF _ assms(1)]) simp_all
  then show ?thesis by (simp add: explains_def)
qed

text \<open>
  C12: The part of the user's assertion that is sent as the failure data always exists (no index is
  out of range and the branch marked unreachable is not taken), it compiles on its own, and on the
  same response it has the very value the whole assertion evaluated to.
\<close>

theorem failure_data_explains:
  assumes "js_gas_law E" "compile E a max_assertion_ops = Inr c" "eval E c rd assertion_complexity = Inr r"
  shows "\<exists>f cf. extract_failure_data (reason_path r) (root a) = Some f \<and>
           compiled_of E f = Some cf \<and> holds E rd cf = Some (er_result r)"
  using assms by (rule eval_op_failure_part)

theorem failure_data_explains_witness:
  "\<exists>f cf. extract_failure_data (ChildIndex 1 (ChildIndex 0 Leaf))
       (OpAnd [OpStatusCodeCheck 200 Equals, OpNot (OpStatusCodeCheck 500 LessThan)]) = Some f \<and>
     compiled_of plain_externals f = Some cf \<and>
     holds plain_externals \<lparr> rd_status = 200, rd_headers = [], rd_body = [] \<rparr> cf = Some False"
proof -
  let ?a = "\<lparr> root = OpAnd [OpStatusCodeCheck 200 Equals, OpNot (OpStatusCodeCheck 500 LessThan)] \<rparr>"
  let ?c = "\<lparr> c_root = CAnd [CStatusCodeCheck 200 CEqual, CNot (CStatusCodeCheck 500 CLessThan)] \<rparr>"
  let ?rd = "\<lparr> rd_status = 200, rd_headers = [], rd_body = [] \<rparr>"
  let ?r = "\<lparr> reason_path = ChildIndex 1 (ChildIndex 0 Leaf), er_result = False \<rparr>"
  have "compile plain_externals ?a 5 = Inr ?c"
    by (simp add: compile_def compile_op.simps dec_ops_def)
  moreover have "eval plain_externals ?c ?rd 9 = Inr ?r"
    by (simp add: eval_def eval_op.simps consume_def status_check_def leaf_node_def child_idx_def)
  ultimately show ?thesis using failure_data_explains [OF plain_js_gas_law] by fastforce
qed

text \<open>
  When \<open>requires_body\<close> says that an assertion does not need the body, the evaluation of the
  compiled assertion does not depend on it: result, error and path are the same for every body, so
  not downloading the body is safe.
\<close>

theorem body_not_needed:
  assumes "compile E a max_assertion_ops = Inr c" "\<not> requires_body a"
  shows "eval E c (rd\<lparr>rd_body := b\<rparr>) assertion_complexity = eval E c rd assertion_complexity"
proof -
  from assms(1) obtain n p where "compile_op E 0 (root a) max_assertion_ops [] = (Inr (c_root c), n, p)"
    by (auto simp: compile_def split: prod.splits sum.splits)
  then have "compiled_of E (root a) = Some (c_root c)"
    using compile_op_success(1) [of E 0 "root a" max_assertion_ops "[]" "c_root c"] by simp
  with assms(2) have "\<not> reads_body (c_root c)" by (simp add: reads_body_compiled requires_body_def)
  then show ?thesis by (simp add: eval_def eval_op_body(1))
qed

theorem body_not_needed_witness:
  "eval plain_externals \<lparr> c_root = CStatusCodeCheck 200 CEqual \<rparr>
     (\<lparr> rd_status = 200, rd_headers = [], rd_body = [] \<rparr>\<lparr>rd_body := [123]\<rparr>) 9 =
   eval plain_externals \<lparr> c_root = CStatusCodeCheck 200 CEqual \<rparr>
     \<lparr> rd_status = 200, rd_headers = [], rd_body = [] \<rparr> 9"
  by (rule body_not_needed [of plain_externals "\<lparr> root = OpStatusCodeCheck 200 Equals \<rparr>" 1])
    (simp_all add: compile_def compile_op.simps dec_ops_def requires_body_def)

end
