(* ===== verification/AssertCache.thy ===== *)
theory AssertCache
  imports AssertMeaning
begin

text \<open>
  The cache of compiled assertions (\<open>src/src/assertions/cache.rs\<close>).  The associative cache is
  third-party code (\<open>associative_cache\<close>, a table of fixed capacity that may drop entries): its
  lookup and its insertion are the fields of the record \<open>assoc_cache\<close>.
\<close>

record ('p, 'q) CacheEntry =
  entry_assertion :: "('p, 'q) CAssertion"
  entry_timestamp :: instant

record ('c, 'e) assoc_cache =
  cache_lookup :: "'c \<Rightarrow> Assertion \<Rightarrow> 'e option"
  cache_insert :: "'c \<Rightarrow> Assertion \<Rightarrow> 'e \<Rightarrow> 'c"

text \<open>
  What the program relies on: a lookup finds nothing but entries inserted under that very key, and
  for a key just inserted, the entry just inserted.
\<close>

definition cache_law :: "('c, 'e) assoc_cache \<Rightarrow> bool" where
  "cache_law C =
     (\<forall>c k e k' e'. cache_lookup C (cache_insert C c k e) k' = Some e' \<longrightarrow>
        (if k' = k then e' = e else cache_lookup C c k' = Some e'))"

definition get_timestamp :: "('p, 'q) CacheEntry \<Rightarrow> instant" where
  "get_timestamp e = entry_timestamp e"

definition update_timestamp :: "instant \<Rightarrow> ('p, 'q) CacheEntry \<Rightarrow> ('p, 'q) CacheEntry" where
  "update_timestamp now e = e\<lparr>entry_timestamp := now\<rparr>"

definition get_or_compile ::
  "('c, ('p, 'q) CacheEntry) assoc_cache \<Rightarrow> ('p, 'q, 'j) externals \<Rightarrow> instant \<Rightarrow> Assertion \<Rightarrow> u32
     \<Rightarrow> 'c \<Rightarrow> (CompilationError + ('p, 'q) CAssertion) \<times> 'c" where
  "get_or_compile C E now key max_assertion_ops c =
     (case cache_lookup C c key of
        Some entry \<Rightarrow> (Inr (entry_assertion entry), c)
      | None \<Rightarrow>
          (case compile E key max_assertion_ops of
             Inr compd \<Rightarrow>
               (Inr compd, cache_insert C c key \<lparr>entry_assertion = compd, entry_timestamp = now\<rparr>)
           | Inl err \<Rightarrow> (Inl err, c)))"

section \<open>The cache is transparent\<close>

definition cache_coherent ::
  "('c, ('p, 'q) CacheEntry) assoc_cache \<Rightarrow> ('p, 'q, 'j) externals \<Rightarrow> u32 \<Rightarrow> 'c \<Rightarrow> bool" where
  "cache_coherent C E max_ops c =
     (\<forall>k e. cache_lookup C c k = Some e \<longrightarrow> compile E k max_ops = Inr (entry_assertion e))"

lemma get_or_compile_coherent:
  assumes "cache_law C" "cache_coherent C E max_ops c"
  shows "fst (get_or_compile C E now key max_ops c) = compile E key max_ops"
    and "cache_coherent C E max_ops (snd (get_or_compile C E now key max_ops c))"
proof -
  show "fst (get_or_compile C E now key max_ops c) = compile E key max_ops"
    using assms(2) by (auto simp: get_or_compile_def cache_coherent_def split: option.splits sum.splits)
  show "cache_coherent C E max_ops (snd (get_or_compile C E now key max_ops c))"
  proof (cases "cache_lookup C c key")
    case (Some e)
    then show ?thesis using assms(2) by (simp add: get_or_compile_def)
  next
    case None
    show ?thesis
    proof (cases "compile E key max_ops")
      case (Inl e)
      then show ?thesis using assms(2) None by (simp add: get_or_compile_def)
    next
      case (Inr compd)
      show ?thesis
        unfolding cache_coherent_def
      proof (intro allI impI)
        fix k e
        assume "cache_lookup C (snd (get_or_compile C E now key max_ops c)) k = Some e"
        then have "cache_lookup C (cache_insert C c key
            \<lparr>entry_assertion = compd, entry_timestamp = now\<rparr>) k = Some e"
          by (simp add: get_or_compile_def None Inr)
        with assms(1) have "if k = key then e = \<lparr>entry_assertion = compd, entry_timestamp = now\<rparr>
            else cache_lookup C c k = Some e"
          unfolding cache_law_def by blast
        then show "compile E k max_ops = Inr (entry_assertion e)"
          using assms(2) Inr by (auto simp: cache_coherent_def split: if_splits)
      qed
    qed
  qed
qed

text \<open>A table of one entry that has these properties.\<close>

definition plain_cache :: "(Assertion \<Rightarrow> 'e option, 'e) assoc_cache" where
  "plain_cache = \<lparr>cache_lookup = (\<lambda>c k. c k), cache_insert = (\<lambda>c k e. (\<lambda>_. None)(k \<mapsto> e))\<rparr>"

lemma plain_cache_law: "cache_law plain_cache"
  by (simp add: cache_law_def plain_cache_def)

lemma plain_cache_coherent: "cache_coherent plain_cache E n (\<lambda>_. None)"
  by (simp add: cache_coherent_def plain_cache_def)

text \<open>A run of lookups, each at its own time.\<close>

fun lookups ::
  "('c, ('p, 'q) CacheEntry) assoc_cache \<Rightarrow> ('p, 'q, 'j) externals \<Rightarrow> u32 \<Rightarrow> (instant \<times> Assertion) list
     \<Rightarrow> 'c \<Rightarrow> (CompilationError + ('p, 'q) CAssertion) list" where
  "lookups C E max_ops [] c = []"
| "lookups C E max_ops ((now, k) # ks) c =
     (case get_or_compile C E now k max_ops c of (r, c') \<Rightarrow> r # lookups C E max_ops ks c')"

text \<open>
  C37: However many assertions are looked up, in whatever order and whatever entries the table drops,
  every lookup through a cache that started empty returns what compiling that assertion returns.
\<close>

theorem cache_transparent:
  assumes "cache_law C" "\<forall>k. cache_lookup C c0 k = None"
  shows "lookups C E max_ops ks c0 = map (\<lambda>(now, k). compile E k max_ops) ks"
proof -
  have "cache_coherent C E max_ops c \<Longrightarrow> lookups C E max_ops ks c = map (\<lambda>(now, k). compile E k max_ops) ks"
    for c
  proof (induction ks arbitrary: c)
    case (Cons x ks)
    obtain now k where x: "x = (now, k)" by (cases x)
    obtain r c' where run: "get_or_compile C E now k max_ops c = (r, c')"
      by (cases "get_or_compile C E now k max_ops c")
    from get_or_compile_coherent [OF assms(1) Cons.prems, of now k] Cons.IH [of c'] show ?case
      by (simp add: x run)
  qed simp
  moreover have "cache_coherent C E max_ops c0" using assms(2) by (simp add: cache_coherent_def)
  ultimately show ?thesis by simp
qed

theorem cache_transparent_witness:
  "lookups plain_cache plain_externals 4
     [(1, \<lparr> root = OpStatusCodeCheck 200 Equals \<rparr>), (2, \<lparr> root = OpStatusCodeCheck 200 Equals \<rparr>)]
     (\<lambda>_. None)
   = map (\<lambda>(now, k). compile plain_externals k 4)
     [(1 :: instant, \<lparr> root = OpStatusCodeCheck 200 Equals \<rparr>), (2, \<lparr> root = OpStatusCodeCheck 200 Equals \<rparr>)]"
  by (rule cache_transparent [OF plain_cache_law]) (simp add: plain_cache_def)

end
