(* ===== verification/ReqwestChecker.thy ===== *)
theory ReqwestChecker
  imports HttpErrors AssertCache
begin

text \<open>
  The checker that makes HTTP requests (\<open>src/src/checker/reqwest_checker.rs\<close>): the options and the
  client they build, the request, the bounded read of a body, the outcome of a response, and the
  two operations \<open>check_url\<close> and \<open>check_robots\<close>.

  The HTTP client, the URL and robots.txt parsers and the base64 encoder are third-party code: the
  answer to a request is part of the input of a call, the others are the fields of
  \<open>http_externals\<close>.  A response body is the list of what the stream yields, each with the time at
  which it is there; reading stops at the first thing that arrives after the deadline.
\<close>

section \<open>Options and the client\<close>

definition UPTIME_USER_AGENT :: string where
  "UPTIME_USER_AGENT =
     ''SentryUptimeBot/1.0 (+http://docs.sentry.io/product/alerts/uptime-monitoring/)''"

definition ROBOTS_TIMEOUT :: time_delta where
  "ROBOTS_TIMEOUT = seconds 5"

definition MAX_ROBOTS_BYTES :: nat where
  "MAX_ROBOTS_BYTES = 10000"

definition MAX_BODY_BYTES :: nat where
  "MAX_BODY_BYTES = 10000"

text \<open>A name server is the text of its address.\<close>

record checker_options =
  op_validate_url :: bool
  op_disable_connection_reuse :: bool
  op_pool_idle_timeout :: time_delta
  op_dns_nameservers :: "string list option"
  op_interface :: "string option"
  op_disable_assertions :: bool
  op_response_capture_enabled :: bool
  op_assertion_complexity :: u32
  op_max_assertion_ops :: u32

definition default_options :: checker_options where
  "default_options =
     \<lparr>op_validate_url = True, op_disable_connection_reuse = False,
      op_pool_idle_timeout = seconds 90, op_dns_nameservers = None, op_interface = None,
      op_disable_assertions = False, op_response_capture_enabled = False,
      op_assertion_complexity = 100, op_max_assertion_ops = 16\<rparr>"

text \<open>What the client builder is told (on Linux, where an interface can be chosen).\<close>

record client_config =
  cl_hickory_dns :: bool
  cl_default_headers :: "(string \<times> string) list"
  cl_pool_idle_timeout :: time_delta
  cl_tls_info :: bool
  cl_ip_filter :: bool
  cl_dns_nameservers :: "string list option"
  cl_pool_max_idle_per_host :: "nat option"
  cl_interface :: "string option"

record 'c ReqwestChecker =
  rc_client :: client_config
  rc_assert_cache :: 'c
  rc_disable_assertions :: bool
  rc_response_capture_enabled :: bool
  rc_assertion_complexity :: u32
  rc_max_assertion_ops :: u32

definition new_internal :: "checker_options \<Rightarrow> 'c \<Rightarrow> 'c ReqwestChecker" where
  "new_internal opts assert_cache =
     (let builder = \<lparr>cl_hickory_dns = True, cl_default_headers = [(''User-Agent'', UPTIME_USER_AGENT)],
                     cl_pool_idle_timeout = op_pool_idle_timeout opts, cl_tls_info = True,
                     cl_ip_filter = False, cl_dns_nameservers = None,
                     cl_pool_max_idle_per_host = None, cl_interface = None\<rparr>;
          builder = (if op_validate_url opts then builder\<lparr>cl_ip_filter := True\<rparr> else builder);
          builder = (case op_dns_nameservers opts of
                       Some ns \<Rightarrow> builder\<lparr>cl_dns_nameservers := Some ns\<rparr> | None \<Rightarrow> builder);
          builder = (if op_disable_connection_reuse opts
                     then builder\<lparr>cl_pool_max_idle_per_host := Some 0\<rparr> else builder);
          builder = (case op_interface opts of
                       Some nic \<Rightarrow> builder\<lparr>cl_interface := Some nic\<rparr> | None \<Rightarrow> builder)
      in \<lparr>rc_client = builder, rc_assert_cache = assert_cache,
          rc_disable_assertions = op_disable_assertions opts,
          rc_response_capture_enabled = op_response_capture_enabled opts,
          rc_assertion_complexity = op_assertion_complexity opts,
          rc_max_assertion_ops = op_max_assertion_ops opts\<rparr>)"

definition new_reqwest_checker ::
  "bool \<Rightarrow> bool \<Rightarrow> time_delta \<Rightarrow> string list option \<Rightarrow> string option \<Rightarrow> 'c \<Rightarrow> bool \<Rightarrow> bool
     \<Rightarrow> u32 \<Rightarrow> u32 \<Rightarrow> 'c ReqwestChecker" where
  "new_reqwest_checker validate_url disable_connection_reuse pool_idle_timeout dns_nameservers
     interface assert_cache disable_assertions response_capture_enabled assertion_complexity
     max_assertion_ops =
     new_internal
       \<lparr>op_validate_url = validate_url, op_disable_connection_reuse = disable_connection_reuse,
        op_pool_idle_timeout = pool_idle_timeout, op_dns_nameservers = dns_nameservers,
        op_interface = interface, op_disable_assertions = disable_assertions,
        op_response_capture_enabled = response_capture_enabled,
        op_assertion_complexity = assertion_complexity,
        op_max_assertion_ops = max_assertion_ops\<rparr> assert_cache"

section \<open>Requests and responses\<close>

record http_request =
  hr_method :: string
  hr_url :: string
  hr_timeout :: time_delta
  hr_headers :: "(string \<times> string) list"
  hr_trace_header :: "string \<times> string"
  hr_body :: string

record http_externals =
  header_name_try_from :: "string \<Rightarrow> string option"
  header_value_from_str :: "string \<Rightarrow> string option"
  status_to_string :: "u16 \<Rightarrow> string"
  base64_encode :: "u8 list \<Rightarrow> string"
  url_parse :: "string \<Rightarrow> string option"
  url_set_path :: "string \<Rightarrow> string \<Rightarrow> string"
  robots_allowed :: "string \<Rightarrow> u8 list \<Rightarrow> (string \<Rightarrow> bool) option"

text \<open>Headers whose name or value is not valid are left out.\<close>

fun valid_headers :: "http_externals \<Rightarrow> (string \<times> string) list \<Rightarrow> (string \<times> string) list" where
  "valid_headers H [] = []"
| "valid_headers H ((key, value) # hs) =
     (case header_name_try_from H key of
        None \<Rightarrow> valid_headers H hs
      | Some header_name \<Rightarrow>
          (case header_value_from_str H value of
             None \<Rightarrow> valid_headers H hs
           | Some header_value \<Rightarrow> (header_name, header_value) # valid_headers H hs))"

definition to_std_or_default :: "time_delta \<Rightarrow> time_delta" where
  "to_std_or_default d = (if d < 0 then 0 else d)"

definition do_request :: "http_externals \<Rightarrow> check_config \<Rightarrow> string \<Rightarrow> http_request" where
  "do_request H c sentry_trace =
     \<lparr>hr_method = http_method (cc_request_method c),
      hr_url = cc_url c,
      hr_timeout = to_std_or_default (cc_timeout c),
      hr_headers = valid_headers H (cc_request_headers c),
      hr_trace_header = (''sentry-trace'', sentry_trace),
      hr_body = cc_request_body c\<rparr>"

datatype body_event = Chunk "u8 list" | ConnectionBroken

record response =
  rs_status :: u16
  rs_headers :: "(string \<times> u8 list) list"
  rs_stream :: "(instant \<times> body_event) list"

definition is_success :: "u16 \<Rightarrow> bool" where
  "is_success status = (200 \<le> status \<and> status < 300)"

section \<open>Reading a body\<close>

fun read_loop ::
  "instant \<Rightarrow> nat \<Rightarrow> u8 list \<Rightarrow> (instant \<times> body_event) list \<Rightarrow> u8 list \<times> (instant \<times> body_event) list" where
  "read_loop timeout_instant max_bytes all_bytes [] = (all_bytes, [])"
| "read_loop timeout_instant max_bytes all_bytes ((at, ev) # evs) =
     (if timeout_instant < at then (all_bytes, (at, ev) # evs)
      else case ev of
             ConnectionBroken \<Rightarrow> (all_bytes, evs)
           | Chunk chunk \<Rightarrow>
               (let all_bytes = all_bytes @ chunk
                in if max_bytes < length all_bytes then (all_bytes, evs)
                   else read_loop timeout_instant max_bytes all_bytes evs))"

definition read_body_bounded :: "instant \<Rightarrow> nat \<Rightarrow> response \<Rightarrow> u8 list \<times> response" where
  "read_body_bounded timeout_instant max_bytes res =
     (case read_loop timeout_instant max_bytes [] (rs_stream res) of
        (bytes, rest) \<Rightarrow> (bytes, res\<lparr>rs_stream := rest\<rparr>))"

text \<open>
  The deadline: the timeout in whole milliseconds, cast to an unsigned number, after the start; if
  that instant cannot be represented, the current one.
\<close>

definition checked_add_instant :: "instant \<Rightarrow> time_delta \<Rightarrow> instant option" where
  "checked_add_instant i d =
     (if (i + d) div nanos_per_sec \<le> i64_max then Some (i + d) else None)"

definition body_deadline :: "instant \<Rightarrow> check_config \<Rightarrow> instant \<Rightarrow> instant" where
  "body_deadline start c now =
     (let ms = uint (word_of_int (cc_timeout c sdiv 1000000) :: u64)
      in case checked_add_instant start (ms * 1000000) of Some i \<Rightarrow> i | None \<Rightarrow> now)"

section \<open>The outcome of a response\<close>

text \<open>What the surroundings supply to one call.\<close>

record reqwest_input =
  wi_start :: instant \<comment> \<open>the monotonic clock at the start\<close>
  wi_instant_now :: instant \<comment> \<open>the monotonic clock later\<close>
  wi_utc_now :: datetime
  wi_span_id :: u64
  wi_elapsed :: time_delta \<comment> \<open>time since the start, at the end of the request\<close>
  wi_elapsed_end :: time_delta \<comment> \<open>time since the start, at the end of the check\<close>
  wi_answer :: "http_request \<Rightarrow> reqwest_error + response \<times> RedirectStats list"
  wi_robots_answer :: "string \<Rightarrow> response option"

type_synonym ('p, 'q, 'c) compiled_cache = "('c, ('p, 'q) CacheEntry) assoc_cache"

definition response_data_of :: "response \<Rightarrow> u8 list \<Rightarrow> response_data" where
  "response_data_of r body_bytes =
     \<lparr>rd_status = rs_status r, rd_headers = rs_headers r, rd_body = body_bytes\<rparr>"

definition outcome_of_eval :: "RuntimeError + EvalResult \<Rightarrow> Check" where
  "outcome_of_eval result =
     (case result of
        Inr e \<Rightarrow> if er_result e then check_success else assert_failure (reason_path e)
      | Inl err \<Rightarrow> assert_evaluation_failure err)"

definition outcome_of_status :: "http_externals \<Rightarrow> u16 \<Rightarrow> Check" where
  "outcome_of_status H status =
     (if is_success status then check_success else code_failure (status_to_string H) status)"

definition to_check_result ::
  "('p, 'q, 'j) externals \<Rightarrow> ('p, 'q, 'c) compiled_cache \<Rightarrow> http_externals \<Rightarrow> reqwest_input
     \<Rightarrow> ScheduledCheck \<Rightarrow> 'c ReqwestChecker \<Rightarrow> response \<Rightarrow> Check \<times> 'c \<times> response" where
  "to_check_result E C H w sc self r =
     (if \<not> rc_disable_assertions self then
        (case cc_assertion (sc_config sc) of
           Some assertion \<Rightarrow>
             (let (body_bytes, r) =
                    (if requires_body assertion
                     then read_body_bounded (body_deadline (wi_start w) (sc_config sc) (wi_instant_now w))
                            MAX_BODY_BYTES r
                     else ([], r))
              in case get_or_compile C E (wi_instant_now w) assertion (rc_max_assertion_ops self)
                        (rc_assert_cache self) of
                   (Inl err, cache) \<Rightarrow> (assert_compile_failure err, cache, r)
                 | (Inr compiled_assertion, cache) \<Rightarrow>
                     (let check = outcome_of_eval
                            (eval E compiled_assertion (response_data_of r body_bytes)
                              (rc_assertion_complexity self))
                      in (check\<lparr>ck_body_bytes :=
                             (if requires_body assertion then Some body_bytes else None)\<rparr>, cache, r)))
         | None \<Rightarrow> (outcome_of_status H (rs_status r), rc_assert_cache self, r))
      else (outcome_of_status H (rs_status r), rc_assert_cache self, r))"

section \<open>Checking a URL\<close>

text \<open>The last request is given the body, base64-encoded unless empty, and the headers.\<close>

definition header_pairs :: "('p, 'q, 'j) externals \<Rightarrow> response \<Rightarrow> (string \<times> string) list" where
  "header_pairs E r =
     map (\<lambda>(name, val). (name, case header_to_str E val of Some s \<Rightarrow> s | None \<Rightarrow> ''<non-utf8>''))
       (rs_headers r)"

definition attach_capture ::
  "('p, 'q, 'j) externals \<Rightarrow> http_externals \<Rightarrow> response \<Rightarrow> u8 list option \<Rightarrow> RequestInfo list
     \<Rightarrow> RequestInfo list" where
  "attach_capture E H r body infos =
     (if infos = [] then infos
      else case body of
        None \<Rightarrow> infos
      | Some body_bytes \<Rightarrow>
          (let last_req = last infos;
               last_req = (if body_bytes \<noteq> []
                           then last_req\<lparr>response_body := Some (base64_encode H body_bytes)\<rparr>
                           else last_req);
               last_req = last_req\<lparr>response_headers := Some (header_pairs E r)\<rparr>
           in butlast infos @ [last_req]))"

definition checked_response ::
  "('p, 'q, 'j) externals \<Rightarrow> ('p, 'q, 'c) compiled_cache \<Rightarrow> http_externals \<Rightarrow> stats_externals
     \<Rightarrow> reqwest_input \<Rightarrow> ScheduledCheck \<Rightarrow> 'c ReqwestChecker \<Rightarrow> response \<Rightarrow> RedirectStats list
     \<Rightarrow> Check \<times> 'c" where
  "checked_response E C H S w sc self r stats =
     (let should_capture =
            rc_response_capture_enabled self \<and> cc_capture_response_on_failure (sc_config sc);
          (check, cache, r) = to_check_result E C H w sc self r;
          will_capture = (sc_force_body_capture sc \<or> (should_capture \<and> ck_result check = Failure));
          (check, r) =
            (if will_capture \<and> ck_body_bytes check = None
             then (let (bytes, r) = read_body_bounded
                         (body_deadline (wi_start w) (sc_config sc) (wi_instant_now w)) MAX_BODY_BYTES r
                   in (check\<lparr>ck_body_bytes := Some bytes\<rparr>, r))
             else (check, r));
          infos = to_request_info_list S stats (cc_request_method (sc_config sc));
          infos = (if will_capture then attach_capture E H r (ck_body_bytes check) infos else infos)
      in (check\<lparr>ck_request_infos := infos\<rparr>, cache))"

text \<open>
  The failure data of a finished check: \<open>None\<close> is a panic, \<open>Some None\<close> no failure data.
\<close>

definition failure_data_of :: "check_config \<Rightarrow> EvalPath option \<Rightarrow> Assertion option option" where
  "failure_data_of c path_opt =
     (case path_opt of
        None \<Rightarrow> Some None
      | Some path \<Rightarrow>
          (case cc_assertion c of
             None \<Rightarrow> None
           | Some a \<Rightarrow>
               (case extract_failure_data path (root a) of
                  None \<Rightarrow> None
                | Some f \<Rightarrow> Some (Some \<lparr>root = f\<rparr>))))"

definition reqwest_check_url ::
  "('p, 'q, 'j) externals \<Rightarrow> ('p, 'q, 'c) compiled_cache \<Rightarrow> http_externals \<Rightarrow> stats_externals
     \<Rightarrow> fmt_externals \<Rightarrow> uuid_v5 \<Rightarrow> reqwest_input \<Rightarrow> ScheduledCheck \<Rightarrow> string \<Rightarrow> 'c ReqwestChecker
     \<Rightarrow> (CheckResult \<times> 'c ReqwestChecker) option" where
  "reqwest_check_url E C H S X v5 w sc region self =
     (let config = sc_config sc;
          scheduled_check_time = tick_time (sc_tick sc);
          actual_check_time = wi_utc_now w;
          span_id = wi_span_id w;
          trace_id = make_trace_id X v5 config (sc_tick sc) (sc_retry_count sc);
          trace_header = make_trace_header X config trace_id span_id;
          (check, cache) =
            (case wi_answer w (do_request H config trace_header) of
               Inr (r, stats) \<Rightarrow> checked_response E C H S w sc self r stats
             | Inl err \<Rightarrow>
                 (other_failure (reason_of_error err)
                    (to_errored_request_infos actual_check_time (wi_elapsed w) err sc),
                  rc_assert_cache self));
          duration = from_std_or_default (wi_elapsed_end w)
      in case failure_data_of config (ck_assert_path check) of
           None \<Rightarrow> None
         | Some assertion_failure_data \<Rightarrow>
             Some (\<lparr>cr_guid = trace_id,
                    cr_subscription_id = cc_subscription_id config,
                    cr_status = ck_result check,
                    cr_status_reason = ck_reason check,
                    cr_trace_id = trace_id,
                    cr_span_id = span_id,
                    cr_scheduled_check_time = scheduled_check_time,
                    cr_scheduled_check_time_us = scheduled_check_time,
                    cr_actual_check_time = actual_check_time,
                    cr_actual_check_time_us = actual_check_time,
                    cr_duration = Some duration,
                    cr_duration_us = Some duration,
                    cr_request_info = (if ck_request_infos check = [] then None
                                       else Some (last (ck_request_infos check))),
                    cr_request_info_list = ck_request_infos check,
                    cr_region = region,
                    cr_assertion_failure_data = assertion_failure_data\<rparr>,
                   self\<lparr>rc_assert_cache := cache\<rparr>))"

section \<open>Checking robots.txt\<close>

definition reqwest_check_robots ::
  "http_externals \<Rightarrow> fmt_externals \<Rightarrow> uuid_v5 \<Rightarrow> reqwest_input \<Rightarrow> ScheduledCheck \<Rightarrow> string
     \<Rightarrow> 'c ReqwestChecker \<Rightarrow> (CheckResult option \<times> 'c ReqwestChecker) option" where
  "reqwest_check_robots H X v5 w sc region self =
     (case url_parse H (cc_url (sc_config sc)) of
        None \<Rightarrow> Some (None, self)
      | Some url \<Rightarrow>
          (case wi_robots_answer w (url_set_path H url ''robots.txt'') of
             None \<Rightarrow> Some (None, self)
           | Some res \<Rightarrow>
               (let deadline = (case checked_add_instant (wi_start w) ROBOTS_TIMEOUT of
                                  Some i \<Rightarrow> i | None \<Rightarrow> wi_instant_now w);
                    (robots_txt, _) = read_body_bounded deadline MAX_ROBOTS_BYTES res
                in case robots_allowed H ''SentryUptimeBot'' robots_txt of
                     None \<Rightarrow> Some (None, self)
                   | Some allowed \<Rightarrow>
                       if allowed url then Some (None, self)
                       else
                         (let trace_id = make_trace_id X v5 (sc_config sc) (sc_tick sc) (sc_retry_count sc)
                          in Some (Some
                            \<lparr>cr_guid = trace_id,
                             cr_subscription_id = cc_subscription_id (sc_config sc),
                             cr_status = DisallowedByRobots,
                             cr_status_reason = None,
                             cr_trace_id = trace_id,
                             cr_span_id = wi_span_id w,
                             cr_scheduled_check_time = tick_time (sc_tick sc),
                             cr_scheduled_check_time_us = tick_time (sc_tick sc),
                             cr_actual_check_time = wi_utc_now w,
                             cr_actual_check_time_us = wi_utc_now w,
                             cr_duration = None,
                             cr_duration_us = None,
                             cr_request_info = None,
                             cr_request_info_list = [],
                             cr_region = region,
                             cr_assertion_failure_data = None\<rparr>, self)))))"

interpretation reqwest: checker "reqwest_check_url E C H S X v5" "reqwest_check_robots H X v5"
  by unfold_locales
    (auto simp: reqwest_check_url_def reqwest_check_robots_def reports_on_def Let_def
      split: option.splits prod.splits if_splits)

section \<open>The checker in use\<close>

datatype 'c HttpChecker = HReqwest "'c ReqwestChecker" | HDummy DummyChecker

record http_input =
  hi_reqwest :: reqwest_input
  hi_dummy :: call_input

definition http_check_url ::
  "('p, 'q, 'j) externals \<Rightarrow> ('p, 'q, 'c) compiled_cache \<Rightarrow> http_externals \<Rightarrow> stats_externals
     \<Rightarrow> fmt_externals \<Rightarrow> uuid_v5 \<Rightarrow> http_input \<Rightarrow> ScheduledCheck \<Rightarrow> string \<Rightarrow> 'c HttpChecker
     \<Rightarrow> (CheckResult \<times> 'c HttpChecker) option" where
  "http_check_url E C H S X v5 w sc region self =
     (case self of
        HReqwest c \<Rightarrow>
          map_option (\<lambda>(r, c). (r, HReqwest c)) (reqwest_check_url E C H S X v5 (hi_reqwest w) sc region c)
      | HDummy c \<Rightarrow>
          map_option (\<lambda>(r, c). (r, HDummy c)) (dummy_check_url (hi_dummy w) sc region c))"

definition http_check_robots ::
  "http_externals \<Rightarrow> fmt_externals \<Rightarrow> uuid_v5 \<Rightarrow> http_input \<Rightarrow> ScheduledCheck \<Rightarrow> string
     \<Rightarrow> 'c HttpChecker \<Rightarrow> (CheckResult option \<times> 'c HttpChecker) option" where
  "http_check_robots H X v5 w sc region self =
     (case self of
        HReqwest c \<Rightarrow>
          map_option (\<lambda>(r, c). (r, HReqwest c)) (reqwest_check_robots H X v5 (hi_reqwest w) sc region c)
      | HDummy c \<Rightarrow>
          map_option (\<lambda>(r, c). (r, HDummy c)) (dummy_check_robots (hi_dummy w) sc region c))"

interpretation http: checker "http_check_url E C H S X v5" "http_check_robots H X v5"
  by unfold_locales
    (auto simp: http_check_url_def http_check_robots_def split: HttpChecker.splits
      dest: reqwest.url_reports reqwest.robots_reports dummy.url_reports dummy.robots_reports)

section \<open>The bounded read\<close>

fun chunk_bytes :: "body_event \<Rightarrow> u8 list" where
  "chunk_bytes (Chunk c) = c"
| "chunk_bytes ConnectionBroken = []"

fun is_chunk :: "body_event \<Rightarrow> bool" where
  "is_chunk (Chunk c) = True"
| "is_chunk ConnectionBroken = False"

definition bytes_of :: "(instant \<times> body_event) list \<Rightarrow> u8 list" where
  "bytes_of evs = concat (map (chunk_bytes \<circ> snd) evs)"

lemma bytes_of_simps [simp]:
  "bytes_of [] = []" "bytes_of ((t, ev) # evs) = chunk_bytes ev @ bytes_of evs"
  by (simp_all add: bytes_of_def)

lemma read_loop_prefix:
  "\<exists>k. fst (read_loop d m acc evs) = acc @ bytes_of (take k evs) \<and> k \<le> length evs \<and>
     list_all (\<lambda>e. fst e \<le> d \<and> is_chunk (snd e)) (take k evs) \<and>
     (k = 0 \<or> length acc + length (bytes_of (take (k - 1) evs)) \<le> max m (length acc))"
proof (induction d m acc evs rule: read_loop.induct)
  case (1 d m acc)
  show ?case by (rule exI [of _ 0]) simp
next
  case (2 d m acc t ev evs)
  show ?case
  proof (cases "d < t \<or> \<not> is_chunk ev")
    case True
    then show ?thesis by (intro exI [of _ 0]) (cases ev; simp)
  next
    case False
    then obtain c where ev: "ev = Chunk c" and t: "\<not> d < t" by (cases ev) auto
    show ?thesis
    proof (cases "m < length (acc @ c)")
      case True
      then show ?thesis using t by (intro exI [of _ 1]) (simp add: ev Let_def)
    next
      case small: False
      with "2.IH" [OF t ev refl] obtain k where
        k: "fst (read_loop d m (acc @ c) evs) = (acc @ c) @ bytes_of (take k evs)" "k \<le> length evs"
          "list_all (\<lambda>e. fst e \<le> d \<and> is_chunk (snd e)) (take k evs)"
          "k = 0 \<or> length (acc @ c) + length (bytes_of (take (k - 1) evs)) \<le> max m (length (acc @ c))"
        by auto
      show ?thesis
        using k t small by (intro exI [of _ "Suc k"]) (cases k; auto simp: ev Let_def)
    qed
  qed
qed


text \<open>
  The bound does not cut the body: a chunk that is there in time is kept whole, however long.
\<close>

theorem body_not_truncated:
  assumes "rs_stream r = [(t, Chunk c)]" "t \<le> d"
  shows "fst (read_body_bounded d m r) = c"
  using assms by (simp add: read_body_bounded_def Let_def)

theorem body_not_truncated_witness:
  "fst (read_body_bounded 9 MAX_BODY_BYTES
     \<lparr>rs_status = 200, rs_headers = [], rs_stream = [(5, Chunk (replicate 20000 0))]\<rparr>) = replicate 20000 0"
  by (rule body_not_truncated [where t = 5]) simp_all

section \<open>Concrete surroundings\<close>

definition plain_http :: http_externals where
  "plain_http = \<lparr>header_name_try_from = Some, header_value_from_str = Some,
     status_to_string = (\<lambda>s. show_nat (unat s)), base64_encode = map (\<lambda>b. char_of (unat b)),
     url_parse = Some, url_set_path = (\<lambda>u p. u @ ''/'' @ p), robots_allowed = (\<lambda>a t. Some (\<lambda>u. True))\<rparr>"

definition plain_stats :: stats_externals where
  "plain_stats =
     \<lparr>new_pooled = (\<lambda>i t. \<lparr>get_dns_resolve = None, get_connect = None, get_tls_connect = None\<rparr>),
      x509_from_der = (\<lambda>b. None)\<rparr>"

definition plain_redirect :: RedirectStats where
  "plain_redirect = \<lparr>get_connection_stats = None, get_request_start = 5, get_request_start_timestamp = 77,
     get_request_sent = None, get_response_start = None, get_request_end = 9000,
     get_certificate_bytes = None, get_status_code = 200, get_request_body_size = 0, get_url = ''u''\<rparr>"

text \<open>A call answered with a status and a body that is there at once.\<close>

definition plain_input :: "u16 \<Rightarrow> u8 list \<Rightarrow> reqwest_input" where
  "plain_input status body =
     \<lparr>wi_start = 0, wi_instant_now = 0, wi_utc_now = 0, wi_span_id = 1, wi_elapsed = 0,
      wi_elapsed_end = 0,
      wi_answer = (\<lambda>_. Inr (\<lparr>rs_status = status, rs_headers = [], rs_stream = [(0, Chunk body)]\<rparr>,
                            [plain_redirect])),
      wi_robots_answer = (\<lambda>_. None)\<rparr>"

definition plain_check :: "bool \<Rightarrow> Assertion option \<Rightarrow> ScheduledCheck" where
  "plain_check force assertion =
     new_scheduled_check Uptime (from_time 0) (default_check_config\<lparr>cc_assertion := assertion\<rparr>) force 0"

definition plain_checker :: "(Assertion \<Rightarrow> 'e option) ReqwestChecker" where
  "plain_checker = new_internal default_options (\<lambda>_. None)"

lemma plain_checker_coherent:
  "cache_coherent plain_cache E (rc_max_assertion_ops plain_checker) (rc_assert_cache plain_checker)"
  by (simp add: plain_checker_def new_internal_def default_options_def plain_cache_coherent)

lemma plain_checker_simps [simp]:
  "rc_disable_assertions plain_checker = False" "rc_response_capture_enabled plain_checker = False"
  "rc_max_assertion_ops plain_checker = 16" "rc_assertion_complexity plain_checker = 100"
  "rc_assert_cache plain_checker = (\<lambda>_. None)"
  by (simp_all add: plain_checker_def new_internal_def default_options_def)

lemma plain_check_simps [simp]:
  "cc_assertion (sc_config (plain_check force a)) = a"
  "sc_force_body_capture (plain_check force a) = force"
  "cc_timeout (sc_config (plain_check force a)) = seconds 10"
  by (simp_all add: plain_check_def new_scheduled_check_def default_check_config_def)

section \<open>The outcome of a check\<close>

text \<open>The bytes an assertion is evaluated on.\<close>

definition assertion_body :: "reqwest_input \<Rightarrow> ScheduledCheck \<Rightarrow> Assertion \<Rightarrow> response \<Rightarrow> u8 list" where
  "assertion_body w sc a r =
     (if requires_body a
      then fst (read_body_bounded (body_deadline (wi_start w) (sc_config sc) (wi_instant_now w)) MAX_BODY_BYTES r)
      else [])"

lemma read_body_keeps:
  "rs_status (snd (read_body_bounded d m r)) = rs_status r"
  "rs_headers (snd (read_body_bounded d m r)) = rs_headers r"
  by (simp_all add: read_body_bounded_def split: prod.splits)

lemma to_check_result_assertion:
  assumes "\<not> rc_disable_assertions self" "cc_assertion (sc_config sc) = Some a"
    and "cache_law C" "cache_coherent C E (rc_max_assertion_ops self) (rc_assert_cache self)"
  shows "ck_result (fst (to_check_result E C H w sc self r)) = Success \<longleftrightarrow>
      (\<exists>c e. compile E a (rc_max_assertion_ops self) = Inr c \<and>
         eval E c (response_data_of r (assertion_body w sc a r)) (rc_assertion_complexity self) = Inr e \<and>
         er_result e)"
    and "ck_assert_path (fst (to_check_result E C H w sc self r)) = Some p \<Longrightarrow>
      \<exists>c e. compile E a (rc_max_assertion_ops self) = Inr c \<and>
         eval E c (response_data_of r (assertion_body w sc a r)) (rc_assertion_complexity self) = Inr e \<and>
         \<not> er_result e \<and> p = reason_path e"
    and "cache_coherent C E (rc_max_assertion_ops self) (fst (snd (to_check_result E C H w sc self r)))"
proof -
  define rb where "rb = (if requires_body a
      then read_body_bounded (body_deadline (wi_start w) (sc_config sc) (wi_instant_now w)) MAX_BODY_BYTES r
      else ([], r))"
  obtain b r' where rb': "rb = (b, r')" by (cases rb)
  have b: "b = assertion_body w sc a r"
    using rb' by (auto simp: rb_def assertion_body_def split: if_splits dest: arg_cong [of _ _ fst])
  have keeps: "rs_status r' = rs_status r" "rs_headers r' = rs_headers r"
    using rb' read_body_keeps [of "body_deadline (wi_start w) (sc_config sc) (wi_instant_now w)" MAX_BODY_BYTES r]
    by (auto simp: rb_def split: if_splits)
  obtain m cache where g: "get_or_compile C E (wi_instant_now w) a (rc_max_assertion_ops self)
      (rc_assert_cache self) = (m, cache)"
    by (cases "get_or_compile C E (wi_instant_now w) a (rc_max_assertion_ops self) (rc_assert_cache self)")
  have m: "m = compile E a (rc_max_assertion_ops self)"
    and coh: "cache_coherent C E (rc_max_assertion_ops self) cache"
    using get_or_compile_coherent [OF assms(3,4), of "wi_instant_now w" a] by (simp_all add: g)
  have data: "response_data_of r' b = response_data_of r (assertion_body w sc a r)"
    by (simp add: response_data_of_def keeps b)
  note run = to_check_result_def rb_def [symmetric] rb' g assms(1,2) data
  show "ck_result (fst (to_check_result E C H w sc self r)) = Success \<longleftrightarrow>
      (\<exists>c e. compile E a (rc_max_assertion_ops self) = Inr c \<and>
         eval E c (response_data_of r (assertion_body w sc a r)) (rc_assertion_complexity self) = Inr e \<and>
         er_result e)"
    by (cases m) (auto simp: run m [symmetric] outcome_of_eval_def check_constructors split: sum.splits)
  show "cache_coherent C E (rc_max_assertion_ops self) (fst (snd (to_check_result E C H w sc self r)))"
    using coh by (cases m) (simp_all add: run)
  show "\<exists>c e. compile E a (rc_max_assertion_ops self) = Inr c \<and>
         eval E c (response_data_of r (assertion_body w sc a r)) (rc_assertion_complexity self) = Inr e \<and>
         \<not> er_result e \<and> p = reason_path e"
    if "ck_assert_path (fst (to_check_result E C H w sc self r)) = Some p"
    using that by (cases m) (auto simp: run m [symmetric] outcome_of_eval_def check_constructors
        split: sum.splits if_splits)
qed

lemma to_check_result_plain:
  assumes "rc_disable_assertions self \<or> cc_assertion (sc_config sc) = None"
  shows "to_check_result E C H w sc self r = (outcome_of_status H (rs_status r), rc_assert_cache self, r)"
  using assms by (auto simp: to_check_result_def)

lemma outcome_of_status_path [simp]: "ck_assert_path (outcome_of_status H s) = None"
  by (simp add: outcome_of_status_def check_constructors)

text \<open>
  C17: A response counts as a success exactly when the configured assertion compiles and, on this response (and
  its body as far as it was read), has the value true; when no assertion is configured or assertions are
  disabled, exactly when the status is a 2xx.  The cache of compiled assertions has no influence.
\<close>

theorem outcome_success_iff:
  assumes "cache_law C" "cache_coherent C E (rc_max_assertion_ops self) (rc_assert_cache self)"
  shows "ck_result (fst (to_check_result E C H w sc self r)) = Success \<longleftrightarrow>
    (case (if rc_disable_assertions self then None else cc_assertion (sc_config sc)) of
       None \<Rightarrow> is_success (rs_status r)
     | Some a \<Rightarrow> \<exists>c e. compile E a (rc_max_assertion_ops self) = Inr c \<and>
         eval E c (response_data_of r (assertion_body w sc a r)) (rc_assertion_complexity self) = Inr e \<and>
         er_result e)"
  using assms to_check_result_plain [of self sc E C H w r]
    to_check_result_assertion(1) [of self sc _ C E H w r]
  by (cases "cc_assertion (sc_config sc)"; cases "rc_disable_assertions self")
    (auto simp: outcome_of_status_def check_constructors)

theorem outcome_success_iff_witness:
  "ck_result (fst (to_check_result plain_externals plain_cache plain_http (plain_input 204 [])
     (plain_check False None) plain_checker \<lparr>rs_status = 204, rs_headers = [], rs_stream = []\<rparr>)) = Success"
  using outcome_success_iff [OF plain_cache_law plain_checker_coherent, where E = plain_externals
      and H = plain_http and w = "plain_input 204 []" and sc = "plain_check False None"
      and r = "\<lparr>rs_status = 204, rs_headers = [], rs_stream = []\<rparr>"]
  by (simp add: is_success_def)

lemma checked_response_parts:
  "ck_assert_path (fst (checked_response E C H S w sc self r stats)) =
     ck_assert_path (fst (to_check_result E C H w sc self r))"
  "snd (checked_response E C H S w sc self r stats) = fst (snd (to_check_result E C H w sc self r))"
  "ck_result (fst (checked_response E C H S w sc self r stats)) =
     ck_result (fst (to_check_result E C H w sc self r))"
  by (simp_all add: checked_response_def Let_def split: prod.splits)

lemma reqwest_url_total:
  assumes "js_gas_law E" "cache_law C"
    and "cache_coherent C E (rc_max_assertion_ops self) (rc_assert_cache self)"
  shows "\<exists>res self'. reqwest_check_url E C H S X v5 w sc region self = Some (res, self') \<and>
    cache_coherent C E (rc_max_assertion_ops self') (rc_assert_cache self') \<and>
    (case cr_assertion_failure_data res of None \<Rightarrow> True
     | Some f \<Rightarrow> \<exists>cf rd. compiled_of E (root f) = Some cf \<and> holds E rd cf = Some False)"
proof (cases "wi_answer w (do_request H (sc_config sc)
    (make_trace_header X (sc_config sc) (make_trace_id X v5 (sc_config sc) (sc_tick sc) (sc_retry_count sc))
      (wi_span_id w)))")
  case (Inl err)
  then show ?thesis
    using assms(3) by (simp add: reqwest_check_url_def Let_def failure_data_of_def check_constructors)
next
  case (Inr ans)
  obtain r stats where ans: "ans = (r, stats)" by (cases ans)
  define ck where "ck = checked_response E C H S w sc self r stats"
  have path: "ck_assert_path (fst ck) = ck_assert_path (fst (to_check_result E C H w sc self r))"
    and cache: "snd ck = fst (snd (to_check_result E C H w sc self r))"
    by (simp_all add: ck_def checked_response_parts)
  have coh: "cache_coherent C E (rc_max_assertion_ops self) (snd ck)"
    using assms(2,3) to_check_result_assertion(3) [of self sc _ C E H w r]
      to_check_result_plain [of self sc E C H w r]
    by (cases "cc_assertion (sc_config sc)"; cases "rc_disable_assertions self") (auto simp: cache)
  have data: "\<exists>fd. failure_data_of (sc_config sc) (ck_assert_path (fst ck)) = Some fd \<and>
    (case fd of None \<Rightarrow> True
     | Some f \<Rightarrow> \<exists>cf rd. compiled_of E (root f) = Some cf \<and> holds E rd cf = Some False)"
  proof (cases "ck_assert_path (fst ck)")
    case None
    then show ?thesis by (simp add: failure_data_of_def)
  next
    case (Some p)
    have "\<not> (rc_disable_assertions self \<or> cc_assertion (sc_config sc) = None)"
    proof
      assume "rc_disable_assertions self \<or> cc_assertion (sc_config sc) = None"
      from to_check_result_plain [OF this, of E C H w r] Some show False by (simp add: path)
    qed
    then have on: "\<not> rc_disable_assertions self" "cc_assertion (sc_config sc) \<noteq> None" by simp_all
    then obtain a where a: "cc_assertion (sc_config sc) = Some a" by blast
    obtain c e where ce: "compile E a (rc_max_assertion_ops self) = Inr c"
        "eval E c (response_data_of r (assertion_body w sc a r)) (rc_assertion_complexity self) = Inr e"
        "\<not> er_result e" "p = reason_path e"
      using to_check_result_assertion(2) [OF on(1) a assms(2,3)] Some path by fastforce
    have "\<exists>f cf. extract_failure_data (reason_path e) (root a) = Some f \<and> compiled_of E f = Some cf \<and>
        holds E (response_data_of r (assertion_body w sc a r)) cf = Some (er_result e)"
      using eval_op_failure_part [OF assms(1) ce(1,2)] by blast
    then show ?thesis using ce(3,4) Some by (auto simp: failure_data_of_def a)
  qed
  then obtain fd where "failure_data_of (sc_config sc) (ck_assert_path (fst ck)) = Some fd"
    "case fd of None \<Rightarrow> True
     | Some f \<Rightarrow> \<exists>cf rd. compiled_of E (root f) = Some cf \<and> holds E rd cf = Some False" by blast
  moreover obtain k cache where "ck = (k, cache)" by (cases ck)
  ultimately show ?thesis
    using coh by (simp add: reqwest_check_url_def Let_def Inr ans ck_def [symmetric])
qed



lemma attach_capture_none: "attach_capture E H r None infos = infos"
  by (simp add: attach_capture_def)

lemma to_request_info_plain:
  "ri \<in> set (to_request_info_list S stats m) \<Longrightarrow> response_body ri = None \<and> response_headers ri = None"
  by (auto simp: to_request_info_list_def to_request_info_def)

text \<open>
  Response bodies and headers are reported only when asked for: without a forced capture they appear in no
  request of a result unless capturing is enabled in the checker and in the configuration and the
  check failed.
\<close>

theorem capture_only_when_asked:
  assumes "reqwest_check_url E C H S X v5 w sc region self = Some (res, self')"
    and "\<not> sc_force_body_capture sc"
    and "\<not> (rc_response_capture_enabled self \<and> cc_capture_response_on_failure (sc_config sc) \<and>
             cr_status res = Failure)"
  shows "\<forall>ri \<in> set (cr_request_info_list res). response_body ri = None \<and> response_headers ri = None"
proof (cases "wi_answer w (do_request H (sc_config sc)
    (make_trace_header X (sc_config sc) (make_trace_id X v5 (sc_config sc) (sc_tick sc) (sc_retry_count sc))
      (wi_span_id w)))")
  case (Inl err)
  with assms(1) show ?thesis
    by (auto simp: reqwest_check_url_def Let_def other_failure_def to_errored_request_infos_def
        split: option.splits if_splits)
next
  case (Inr ans)
  obtain r stats where ans: "ans = (r, stats)" by (cases ans)
  obtain k cache where k: "checked_response E C H S w sc self r stats = (k, cache)"
    by (cases "checked_response E C H S w sc self r stats")
  have res: "cr_request_info_list res = ck_request_infos k" "cr_status res = ck_result k"
    using assms(1) by (auto simp: reqwest_check_url_def Let_def Inr ans k split: option.splits)
  obtain k0 c0 r0 where k0: "to_check_result E C H w sc self r = (k0, c0, r0)"
    by (cases "to_check_result E C H w sc self r")
  have "ck_result k = ck_result k0"
    using checked_response_parts(3) [of E C H S w sc self r stats] by (simp add: k k0)
  with assms(2,3) res have "\<not> (rc_response_capture_enabled self \<and>
      cc_capture_response_on_failure (sc_config sc) \<and> ck_result k0 = Failure)" by simp
  with assms(2) k have "ck_request_infos k = to_request_info_list S stats (cc_request_method (sc_config sc))"
    by (auto simp: checked_response_def Let_def k0)
  then show ?thesis using to_request_info_plain unfolding res(1) by metis
qed

theorem capture_only_when_asked_witness:
  "\<exists>res self'. reqwest_check_url plain_externals plain_cache plain_http plain_stats plain_fmt (\<lambda>_ _. 7)
     (plain_input 500 [65]) (plain_check False None) ''us'' plain_checker = Some (res, self') \<and>
     (\<forall>ri \<in> set (cr_request_info_list res). response_body ri = None \<and> response_headers ri = None)"
proof -
  obtain res self' where run: "reqwest_check_url plain_externals plain_cache plain_http plain_stats plain_fmt
      (\<lambda>_ _. 7) (plain_input 500 [65]) (plain_check False None) ''us'' plain_checker = Some (res, self')"
    by (simp add: reqwest_check_url_def checked_response_def to_check_result_def plain_input_def
        outcome_of_status_def is_success_def code_failure_def failure_data_of_def Let_def)
  moreover have "\<forall>ri \<in> set (cr_request_info_list res). response_body ri = None \<and> response_headers ri = None"
    by (rule capture_only_when_asked [OF run]) simp_all
  ultimately show ?thesis by blast
qed

text \<open>
  When the assertion needs the body but does not compile, a capture of the response has no body: the body was
  read before the compilation and is dropped with it, and the second read finds the stream consumed.
\<close>

theorem compile_failure_loses_body:
  assumes "\<not> rc_disable_assertions self" "cc_assertion (sc_config sc) = Some a" "requires_body a"
    and "get_or_compile C E (wi_instant_now w) a (rc_max_assertion_ops self) (rc_assert_cache self)
           = (Inl err, cache)"
    and "rs_stream r = [(t, Chunk body)]" "t \<le> body_deadline (wi_start w) (sc_config sc) (wi_instant_now w)"
    and "sc_force_body_capture sc" "stats = [rs]"
  shows "map response_body (ck_request_infos (fst (checked_response E C H S w sc self r stats))) = [None]"
  using assms
  by (simp add: checked_response_def to_check_result_def read_body_bounded_def Let_def
      assert_compile_failure_def to_request_info_list_def to_request_info_def attach_capture_def)

theorem compile_failure_loses_body_witness:
  "map response_body (ck_request_infos (fst (checked_response plain_externals plain_cache plain_http
      plain_stats (plain_input 200 [65]) (plain_check True (Some \<lparr>root = OpJsonPath [] Always JONone\<rparr>))
      plain_checker \<lparr>rs_status = 200, rs_headers = [], rs_stream = [(0, Chunk [65])]\<rparr> [plain_redirect])))
   = [None]"
proof (rule compile_failure_loses_body [where t = 0 and body = "[65]"
      and a = "\<lparr>root = OpJsonPath [] Always JONone\<rparr>" and cache = "\<lambda>_. None"
      and err = "JsonPathParser [0] ''expected $'' [] 0"])
  show "get_or_compile plain_cache plain_externals (wi_instant_now (plain_input 200 [65]))
      \<lparr>root = OpJsonPath [] Always JONone\<rparr> (rc_max_assertion_ops plain_checker)
      (rc_assert_cache plain_checker) = (Inl (JsonPathParser [0] ''expected $'' [] 0), \<lambda>_. None)"
    by (simp add: get_or_compile_def plain_cache_def compile_def compile_op.simps dec_ops_def
        compile_json_path_def plain_externals_def compilation_error_of_def)
qed (simp_all add: requires_body_def plain_input_def body_deadline_def checked_add_instant_def
      i64_max_def seconds_def)

end
