(* ===== verification/Producers.thy ===== *)
theory Producers
  imports CheckResults
begin

text \<open>
  The producers of check results (\<open>src/src/producer.rs\<close> and \<open>src/src/producer/\<close>): the interface, the
  producer that does nothing, the one for tests, the Kafka producer, and the Vector producer with
  its batching worker and its retries.

  Serialisation (\<open>serde_json\<close>), the schema check (\<open>sentry_kafka_schemas\<close>) and the Kafka client
  (\<open>sentry_arroyo\<close>) are third-party code: the fields of \<open>producer_externals\<close>.
\<close>

section \<open>The interface\<close>

datatype ExtractCodeError =
    Serialization string
  | ProducerError string
  | SchemaError string
  | VectorError string

record producer_externals =
  to_vec :: "CheckResult \<Rightarrow> string + u8 list"
  validate_json :: "u8 list \<Rightarrow> string option" \<comment> \<open>the error, if any\<close>
  kafka_produce :: "u128 \<Rightarrow> u8 list \<Rightarrow> string option"

text \<open>
  A producer takes a result and either refuses it with an error, and is as before, or takes it and has then
  emitted what it emits for the result; \<open>None\<close> is a panic.
\<close>

locale results_producer =
  fixes produce :: "CheckResult \<Rightarrow> 'st \<Rightarrow> ((ExtractCodeError + unit) \<times> 'st) option"
    and emitted :: "'st \<Rightarrow> 'm list"
    and emits :: "CheckResult \<Rightarrow> 'm list"
  assumes produce_ok: "produce r st = Some (Inr (), st') \<Longrightarrow> emitted st' = emitted st @ emits r"
    and produce_err: "produce r st = Some (Inl e, st') \<Longrightarrow> emitted st' = emitted st"

text \<open>A sequence of results handed to a producer: the emissions of those it took, in order.\<close>

fun produce_all ::
  "(CheckResult \<Rightarrow> 'st \<Rightarrow> ((ExtractCodeError + unit) \<times> 'st) option) \<Rightarrow> CheckResult list \<Rightarrow> 'st
     \<Rightarrow> (CheckResult list \<times> 'st) option" where
  "produce_all produce [] st = Some ([], st)"
| "produce_all produce (r # rs) st =
     (case produce r st of
        None \<Rightarrow> None
      | Some (res, st') \<Rightarrow>
          (case produce_all produce rs st' of
             None \<Rightarrow> None
           | Some (taken, st'') \<Rightarrow> Some ((case res of Inr _ \<Rightarrow> r # taken | Inl _ \<Rightarrow> taken), st'')))"

context results_producer
begin

lemma produce_all_emitted:
  "produce_all produce rs st = Some (taken, st') \<Longrightarrow> emitted st' = emitted st @ concat (map emits taken)"
proof (induction rs arbitrary: st taken)
  case (Cons r rs)
  then obtain res st1 taken1 where s: "produce r st = Some (res, st1)"
      "produce_all produce rs st1 = Some (taken1, st')"
      "taken = (case res of Inr _ \<Rightarrow> r # taken1 | Inl _ \<Rightarrow> taken1)"
    by (auto split: option.splits)
  from Cons.IH [OF s(2)] show ?case
    using s(1,3) by (cases res) (auto dest: produce_ok produce_err)
qed simp

end

section \<open>Simple producers\<close>

definition noop_produce :: "CheckResult \<Rightarrow> unit \<Rightarrow> ((ExtractCodeError + unit) \<times> unit) option" where
  "noop_produce r st = Some (Inr (), st)"

text \<open>The payloads a check with the dummy producer validated.\<close>

definition dummy_produce ::
  "producer_externals \<Rightarrow> CheckResult \<Rightarrow> u8 list list \<Rightarrow> ((ExtractCodeError + unit) \<times> u8 list list) option" where
  "dummy_produce P r st =
     (case to_vec P r of
        Inl e \<Rightarrow> Some (Inl (Serialization e), st)
      | Inr json \<Rightarrow>
          (case validate_json P json of
             Some _ \<Rightarrow> None
           | None \<Rightarrow> Some (Inr (), st @ [json])))"

text \<open>The messages handed to Kafka: their key is the subscription.\<close>

definition kafka_produce_result ::
  "producer_externals \<Rightarrow> CheckResult \<Rightarrow> (u128 \<times> u8 list) list
     \<Rightarrow> ((ExtractCodeError + unit) \<times> (u128 \<times> u8 list) list) option" where
  "kafka_produce_result P r st =
     (case to_vec P r of
        Inl e \<Rightarrow> Some (Inl (Serialization e), st)
      | Inr json \<Rightarrow>
          (case validate_json P json of
             Some e \<Rightarrow> Some (Inl (SchemaError e), st)
           | None \<Rightarrow>
               (case kafka_produce P (cr_subscription_id r) json of
                  Some e \<Rightarrow> Some (Inl (ProducerError e), st)
                | None \<Rightarrow> Some (Inr (), st @ [(cr_subscription_id r, json)]))))"

definition payload :: "producer_externals \<Rightarrow> CheckResult \<Rightarrow> u8 list" where
  "payload P r = (case to_vec P r of Inr json \<Rightarrow> json | Inl _ \<Rightarrow> [])"

interpretation noop: results_producer noop_produce "\<lambda>_. []" "\<lambda>_. []"
  by unfold_locales (simp_all add: noop_produce_def)

interpretation dummy_producer: results_producer "dummy_produce P" "\<lambda>st. st" "\<lambda>r. [payload P r]"
  by unfold_locales (auto simp: dummy_produce_def payload_def split: sum.splits option.splits)

interpretation kafka: results_producer "kafka_produce_result P" "\<lambda>st. st"
    "\<lambda>r. [(cr_subscription_id r, payload P r)]"
  by unfold_locales (auto simp: kafka_produce_result_def payload_def split: sum.splits option.splits)

section \<open>The Vector producer\<close>

record VectorRequestWorkerConfig =
  vector_batch_size :: nat
  vector_batch_timeout_secs :: u64
  vector_endpoint :: string
  retry_vector_errors_forever :: bool
  vector_region :: string

text \<open>
  The channel to the worker, whether the worker still listens, the counter of pending items, and the
  increments of that counter that are still to come (they follow the sending).
\<close>

record VectorResultsProducer =
  vp_channel :: "u8 list list"
  vp_open :: bool
  vp_pending_items :: usize

definition new_vector_producer :: VectorResultsProducer where
  "new_vector_producer = \<lparr>vp_channel = [], vp_open = True, vp_pending_items = 0\<rparr>"

definition vector_produce ::
  "producer_externals \<Rightarrow> CheckResult \<Rightarrow> 'a VectorResultsProducer_scheme
     \<Rightarrow> ((ExtractCodeError + unit) \<times> 'a VectorResultsProducer_scheme) option" where
  "vector_produce P r st =
     (case to_vec P r of
        Inl e \<Rightarrow> Some (Inl (Serialization e), st)
      | Inr json \<Rightarrow>
          (case validate_json P json of
             Some e \<Rightarrow> Some (Inl (SchemaError e), st)
           | None \<Rightarrow>
               if \<not> vp_open st then Some (Inl (VectorError ''send failed channel closed''), st)
               else Some (Inr (), st\<lparr>vp_channel := vp_channel st @ [json],
                                    vp_pending_items := vp_pending_items st + 1\<rparr>)))"

interpretation vector: results_producer "vector_produce P" vp_channel "\<lambda>r. [payload P r]"
  by unfold_locales (auto simp: vector_produce_def payload_def split: sum.splits option.splits if_splits)

section \<open>Sending a batch\<close>

text \<open>Every item followed by a newline.\<close>

fun batch_body :: "u8 list list \<Rightarrow> u8 list" where
  "batch_body [] = []"
| "batch_body (s # ss) = s @ 10 # batch_body ss"

definition BASE_DELAY_MS :: u64 where "BASE_DELAY_MS = 100"
definition MAX_DELAY_MS :: u64 where "MAX_DELAY_MS = 2000"

text \<open>Products of 64-bit words wrap, as in the release build.\<close>

definition retry_delay :: "u32 \<Rightarrow> u64" where
  "retry_delay num_of_retries =
     min (BASE_DELAY_MS * 2 ^ unat (min num_of_retries 63)) MAX_DELAY_MS"

datatype http_answer =
    Answered u16
  | Unanswered string
  | Unbuildable string \<comment> \<open>the request could not even be built\<close>

definition is_server_error :: "u16 \<Rightarrow> bool" where
  "is_server_error status = (500 \<le> status \<and> status < 600)"

text \<open>
  The loop over the attempts, given the answers to them: the result (\<open>None\<close>: still trying when the
  answers end), the delays slept and the bodies sent.
\<close>

fun accepted_answer :: "http_answer \<Rightarrow> bool" where
  "accepted_answer (Answered status) = (\<not> is_server_error status)"
| "accepted_answer _ = False"

fun send_loop ::
  "bool \<Rightarrow> u8 list \<Rightarrow> http_answer list \<Rightarrow> u32 \<Rightarrow> (ExtractCodeError + unit) option \<times> u64 list \<times> u8 list list" where
  "send_loop forever body [] n = (None, [], [])"
| "send_loop forever body (Unbuildable msg # as) n = (Some (Inl (VectorError msg)), [], [])"
| "send_loop forever body (a # as) n =
     (let delay = retry_delay n
      in if accepted_answer a then (Some (Inr ()), [], [body])
         else if \<not> forever then (Some (Inl (VectorError ''retries exhausted'')), [], [body])
         else (case send_loop forever body as (n + 1) of
                 (r, ds, bs) \<Rightarrow> (r, delay # ds, body # bs)))"

definition send_batch ::
  "bool \<Rightarrow> u8 list list \<Rightarrow> http_answer list \<Rightarrow> (ExtractCodeError + unit) option \<times> u64 list \<times> u8 list list" where
  "send_batch forever batch answers =
     (if batch = [] then (Some (Inr ()), [], [])
      else send_loop forever (batch_body batch) answers 0)"

section \<open>Retries\<close>

lemma retry_delay_table:
  "list_all (\<lambda>k. unat (min (BASE_DELAY_MS * 2 ^ k) MAX_DELAY_MS) =
     (if k \<le> 4 then 100 * 2 ^ k else if k < 62 then 2000 else 0)) [0..<64]"
  by code_simp

text \<open>
  The delay before the next attempt doubles from 100 ms and is capped at 2000 ms, up to 62 failed attempts; from
  then on the product wraps around to zero and the attempts follow each other without any delay.
\<close>

theorem backoff_delays:
  "unat (retry_delay n) =
     (if unat n \<le> 4 then 100 * 2 ^ unat n else if unat n < 62 then 2000 else 0)"
proof -
  have m: "unat (min n 63) = min (unat n) 63"
    by (auto simp: min_def word_le_nat_alt)
  have t: "unat (min (BASE_DELAY_MS * 2 ^ k) MAX_DELAY_MS) =
     (if k \<le> 4 then 100 * 2 ^ k else if k < 62 then 2000 else 0)" if "k < 64" for k
    using retry_delay_table that by (simp add: list_all_iff)
  have "min (unat n) 63 < 64" by simp
  from t [OF this] show ?thesis unfolding retry_delay_def m by (auto simp: min_def)
qed

lemma send_loop_forever:
  "i < length as \<Longrightarrow> accepted_answer (as ! i) \<Longrightarrow>
     \<forall>j<i. \<not> accepted_answer (as ! j) \<and> (\<forall>m. as ! j \<noteq> Unbuildable m) \<Longrightarrow>
     fst (send_loop True body as n) = Some (Inr ()) \<and>
     snd (snd (send_loop True body as n)) = replicate (Suc i) body"
proof (induction as arbitrary: i n)
  case (Cons a as)
  show ?case
  proof (cases i)
    case 0
    with Cons.prems show ?thesis by (cases a) auto
  next
    case (Suc i')
    then have na: "\<not> accepted_answer a" "\<forall>m. a \<noteq> Unbuildable m" using Cons.prems(3) by fastforce+
    have "\<forall>j<i'. \<not> accepted_answer (as ! j) \<and> (\<forall>m. as ! j \<noteq> Unbuildable m)"
      using Cons.prems(3) Suc by fastforce
    with Cons.IH [of i' "n + 1"] Cons.prems Suc
    have "fst (send_loop True body as (n + 1)) = Some (Inr ()) \<and>
        snd (snd (send_loop True body as (n + 1))) = replicate (Suc i') body" by simp
    then show ?thesis
      using na Suc by (cases a) (auto split: prod.splits)
  qed
qed simp

text \<open>
  C38: With endless retries a batch is delivered: if the first answer other than a server error or a failed
  connection is the one to attempt i, the loop returns success after exactly i + 1 attempts, each with the same
  complete body.
\<close>

theorem send_batch_delivers:
  assumes "batch \<noteq> []" "i < length answers" "accepted_answer (answers ! i)"
    and "\<forall>j<i. \<not> accepted_answer (answers ! j) \<and> (\<forall>m. answers ! j \<noteq> Unbuildable m)"
  shows "fst (send_batch True batch answers) = Some (Inr ()) \<and>
    snd (snd (send_batch True batch answers)) = replicate (Suc i) (batch_body batch)"
  using send_loop_forever [OF assms(2-4), of "batch_body batch" 0] assms(1)
  by (simp add: send_batch_def)

theorem send_batch_delivers_witness:
  "fst (send_batch True [[1], [2]] [Unanswered ''reset'', Answered 503, Answered 200]) = Some (Inr ()) \<and>
   snd (snd (send_batch True [[1], [2]] [Unanswered ''reset'', Answered 503, Answered 200]))
     = replicate (Suc 2) (batch_body [[1], [2]])"
  by (rule send_batch_delivers) (auto simp: is_server_error_def dest!: less_2_cases)

section \<open>The body of a batch\<close>

fun split_lines :: "u8 list \<Rightarrow> u8 list \<Rightarrow> u8 list list" where
  "split_lines cur [] = []"
| "split_lines cur (b # bs) = (if b = 10 then cur # split_lines [] bs else split_lines (cur @ [b]) bs)"

lemma split_lines_item:
  "10 \<notin> set s \<Longrightarrow> split_lines cur (s @ 10 # rest) = (cur @ s) # split_lines [] rest"
  by (induction s arbitrary: cur) auto

text \<open>
  The body of a batch can be taken apart again: splitting it after each newline gives back exactly the items of the
  batch, in order, provided no item contains a newline (compact JSON has none).
\<close>

theorem batch_body_roundtrip:
  assumes "\<forall>s \<in> set batch. 10 \<notin> set s"
  shows "split_lines [] (batch_body batch) = batch"
  using assms by (induction batch) (simp_all add: split_lines_item)

theorem batch_body_roundtrip_witness: "split_lines [] (batch_body [[1, 2], [], [3]]) = [[1, 2], [], [3]]"
  by (rule batch_body_roundtrip) simp

section \<open>The worker\<close>

text \<open>
  The producer and its worker side by side.  A send and the count of it are two steps, so that the worker can come in
  between; \<open>uncounted\<close> is the number of sends whose count is still to come.  The worker collects
  items into a chunk, and hands the chunk over when it is full, or when the time for it is up.
\<close>

record vector_state =
  vs_queue :: "u8 list list"
  vs_chunk :: "u8 list list"
  vs_batches :: "u8 list list list"
  vs_pending :: usize
  vs_uncounted :: nat
  vs_accepted :: "u8 list list"

definition vector_init :: vector_state where
  "vector_init = \<lparr>vs_queue = [], vs_chunk = [], vs_batches = [], vs_pending = 0, vs_uncounted = 0,
     vs_accepted = []\<rparr>"

definition vector_send :: "u8 list \<Rightarrow> vector_state \<Rightarrow> vector_state" where
  "vector_send json s = s\<lparr>vs_queue := vs_queue s @ [json], vs_uncounted := vs_uncounted s + 1,
     vs_accepted := vs_accepted s @ [json]\<rparr>"

definition vector_count :: "vector_state \<Rightarrow> vector_state" where
  "vector_count s = s\<lparr>vs_pending := vs_pending s + 1, vs_uncounted := vs_uncounted s - 1\<rparr>"

definition worker_take :: "u8 list \<Rightarrow> u8 list list \<Rightarrow> vector_state \<Rightarrow> vector_state" where
  "worker_take x q s = s\<lparr>vs_queue := q, vs_chunk := vs_chunk s @ [x]\<rparr>"

definition worker_emit :: "vector_state \<Rightarrow> vector_state" where
  "worker_emit s = s\<lparr>vs_pending := vs_pending s - of_nat (length (vs_chunk s)),
     vs_batches := vs_batches s @ [vs_chunk s], vs_chunk := []\<rparr>"

inductive vector_step :: "nat \<Rightarrow> vector_state \<Rightarrow> vector_state \<Rightarrow> bool" for cap where
  send: "vector_step cap s (vector_send json s)"
| count: "0 < vs_uncounted s \<Longrightarrow> vector_step cap s (vector_count s)"
| take: "vs_queue s = x # q \<Longrightarrow> length (vs_chunk s) < cap \<Longrightarrow> vector_step cap s (worker_take x q s)"
| emit: "vs_chunk s \<noteq> [] \<Longrightarrow> vector_step cap s (worker_emit s)"

inductive vector_reachable :: "nat \<Rightarrow> vector_state \<Rightarrow> bool" for cap where
  init: "vector_reachable cap vector_init"
| step: "vector_reachable cap s \<Longrightarrow> vector_step cap s s' \<Longrightarrow> vector_reachable cap s'"

definition vector_inv :: "nat \<Rightarrow> vector_state \<Rightarrow> bool" where
  "vector_inv cap s =
     (concat (vs_batches s) @ vs_chunk s @ vs_queue s = vs_accepted s \<and>
      length (vs_chunk s) \<le> cap \<and>
      list_all (\<lambda>b. b \<noteq> [] \<and> length b \<le> cap) (vs_batches s) \<and>
      vs_pending s + of_nat (vs_uncounted s) = of_nat (length (vs_chunk s) + length (vs_queue s)))"

lemma vector_inv_init: "vector_inv cap vector_init"
  by (simp add: vector_inv_def vector_init_def)

lemma vector_inv_step:
  assumes "vector_inv cap s" "vector_step cap s s'"
  shows "vector_inv cap s'"
  using assms(2,1)
proof cases
  case (send json)
  with assms(1) show ?thesis by (auto simp: vector_inv_def vector_send_def algebra_simps)
next
  case count
  with assms(1) show ?thesis
    by (cases "vs_uncounted s") (auto simp: vector_inv_def vector_count_def algebra_simps)
next
  case (take x q)
  with assms(1) show ?thesis by (auto simp: vector_inv_def worker_take_def algebra_simps)
next
  case emit
  with assms(1) show ?thesis by (auto simp: vector_inv_def worker_emit_def algebra_simps)
qed

text \<open>
  However the sending of results and the worker interleave, no result is lost, duplicated or reordered (the
  batches, the chunk being collected and the channel are together what was accepted), every batch is non-empty and
  within the batch size, and the counter of pending items, once every send is counted, is exact.
\<close>

theorem vector_worker_inv:
  assumes "vector_reachable cap s"
  shows "concat (vs_batches s) @ vs_chunk s @ vs_queue s = vs_accepted s \<and>
    list_all (\<lambda>b. b \<noteq> [] \<and> length b \<le> cap) (vs_batches s) \<and>
    vs_pending s = of_nat (length (vs_chunk s) + length (vs_queue s)) - of_nat (vs_uncounted s)"
proof -
  have "vector_inv cap s"
    using assms by induction (auto intro: vector_inv_init vector_inv_step)
  then show ?thesis by (auto simp: vector_inv_def eq_diff_eq)
qed

theorem vector_worker_inv_witness:
  "concat (vs_batches (vector_send [7] vector_init)) @ vs_chunk (vector_send [7] vector_init) @
     vs_queue (vector_send [7] vector_init) = vs_accepted (vector_send [7] vector_init)"
proof -
  have "vector_reachable 2 (vector_send [7] vector_init)" by (rule step [OF init send])
  from vector_worker_inv [OF this] show ?thesis by blast
qed

text \<open>
  The counter of pending items is decremented before it is incremented when the worker is faster than the
  producer: it can be reached with the value of minus one, that is 2 to the 64 minus 1.
\<close>

theorem pending_items_underflow:
  "\<exists>s. vector_reachable 1 s \<and> vs_pending s = - 1"
proof -
  let ?s1 = "vector_send [7] vector_init"
  let ?s2 = "worker_take [7] [] ?s1"
  have "vector_reachable 1 ?s1" by (rule step [OF init send])
  then have "vector_reachable 1 ?s2"
    by (rule step [OF _ take]) (simp_all add: vector_send_def vector_init_def)
  then have "vector_reachable 1 (worker_emit ?s2)"
    by (rule step [OF _ emit]) (simp add: worker_take_def)
  moreover have "vs_pending (worker_emit ?s2) = - 1"
    by (simp add: worker_emit_def worker_take_def vector_send_def vector_init_def)
  ultimately show ?thesis by blast
qed

end
