(* ===== verification/Transitions.thy ===== *)
theory Transitions
  imports Main
begin

text \<open>
  Step relations: invariants over runs, and runs in which the steps that do something are counted.  A component that is a step
  relation states its invariant and the weight of what is left to do as an instance of the locales below.
\<close>

section \<open>Invariants\<close>

locale invariant_steps =
  fixes step :: "'s \<Rightarrow> 's \<Rightarrow> bool"
    and inv :: "'s \<Rightarrow> bool"
  assumes inv_step: "inv s \<Longrightarrow> step s s' \<Longrightarrow> inv s'"
begin

lemma inv_run: "step\<^sup>*\<^sup>* s s' \<Longrightarrow> inv s \<Longrightarrow> inv s'"
  by (induction rule: rtranclp_induct) (auto intro: inv_step)

end

section \<open>Counting the steps that do something\<close>

text \<open>Runs of steps that do work and of steps that are idle, with the number of the former.\<close>

inductive counted_run :: "('s \<Rightarrow> 's \<Rightarrow> bool) \<Rightarrow> ('s \<Rightarrow> 's \<Rightarrow> bool) \<Rightarrow> 's \<Rightarrow> nat \<Rightarrow> 's \<Rightarrow> bool"
  for work idle s where
  none: "counted_run work idle s 0 s"
| idling: "counted_run work idle s n s' \<Longrightarrow> idle s' s'' \<Longrightarrow> counted_run work idle s n s''"
| working: "counted_run work idle s n s' \<Longrightarrow> work s' s'' \<Longrightarrow> counted_run work idle s (Suc n) s''"

locale weighted_steps =
  fixes work :: "'s \<Rightarrow> 's \<Rightarrow> bool"
    and idle :: "'s \<Rightarrow> 's \<Rightarrow> bool"
    and inv :: "'s \<Rightarrow> bool"
    and weight :: "'s \<Rightarrow> nat"
  assumes inv_work: "inv s \<Longrightarrow> work s s' \<Longrightarrow> inv s'"
    and inv_idle: "inv s \<Longrightarrow> idle s s' \<Longrightarrow> inv s'"
    and work_weight: "inv s \<Longrightarrow> work s s' \<Longrightarrow> weight s' < weight s"
    and idle_weight: "inv s \<Longrightarrow> idle s s' \<Longrightarrow> weight s' \<le> weight s"
begin

sublocale invariant_steps "\<lambda>s s'. work s s' \<or> idle s s'" inv
  by unfold_locales (auto intro: inv_work inv_idle)

lemma run_weight:
  "counted_run work idle s n s' \<Longrightarrow> inv s \<Longrightarrow> inv s' \<and> n + weight s' \<le> weight s"
proof (induction rule: counted_run.induct)
  case (idling n s' s'')
  then show ?case using idle_weight [of s' s''] inv_idle by auto
next
  case (working n s' s'')
  then show ?case using work_weight [of s' s''] inv_work by auto
qed simp

end

end
