(* ===== verification/CheckExecutor.thy ===== *)
theory CheckExecutor
  imports ReqwestChecker Producers Transitions "HOL-Library.Multiset"
begin

text \<open>
  The executor (\<open>src/src/check_executor.rs\<close>): queueing a check, executing it once with its retry
  decision, and the loop that runs a bounded number of checks at a time.

  \<open>do_check\<close> takes the operations of the checker and of the producer as arguments, as the source takes
  the objects; the properties are proved for every checker and producer that keep their
  interface, and hold of the ones in use by interpretation.
\<close>

section \<open>Results of the executor itself\<close>

definition missed_from :: "datetime \<Rightarrow> u128 \<Rightarrow> ScheduledCheck \<Rightarrow> string \<Rightarrow> CheckResult" where
  "missed_from now guid check region =
     \<lparr>cr_guid = guid,
      cr_subscription_id = cc_subscription_id (sc_config check),
      cr_status = MissedWindow,
      cr_status_reason = Some
        \<lparr>status_type = RMissProduced,
         description = ''Check was not completed within the expected time window'',
         details = None\<rparr>,
      cr_trace_id = 0,
      cr_span_id = 0,
      cr_scheduled_check_time = tick_time (sc_tick check),
      cr_scheduled_check_time_us = tick_time (sc_tick check),
      cr_actual_check_time = now,
      cr_actual_check_time_us = now,
      cr_duration = None,
      cr_duration_us = None,
      cr_request_info = None,
      cr_request_info_list = [],
      cr_region = region,
      cr_assertion_failure_data = None\<rparr>"

text \<open>Reporting the completion: an error when the receiving end is gone.\<close>

definition record_result ::
  "(nat \<Rightarrow> bool) \<Rightarrow> ScheduledCheck \<Rightarrow> CheckResult option \<Rightarrow> string + nat \<times> CheckResult option" where
  "record_result rx_open check result =
     (if rx_open (sc_resolve_tx check) then Inr (sc_resolve_tx check, result)
      else Inl ''Scheduled check send error'')"

section \<open>Executing one check\<close>

record ExecutorConfig =
  ec_concurrency :: nat
  ec_checker_parallel :: bool
  ec_failure_retries :: u16
  ec_region :: string
  ec_record_task_metrics :: bool

text \<open>How an execution ends, and the result that was handed to the producer.\<close>

datatype check_end =
    Requeued ScheduledCheck
  | Resolved nat "CheckResult option"
  | Unreported \<comment> \<open>a passed robots check whose receiver is gone\<close>

record exec_input =
  xi_now :: datetime \<comment> \<open>the clock when the check is taken up\<close>
  xi_missed_guid :: u128
  xi_rx_open :: "nat \<Rightarrow> bool"
  xi_queue_open :: bool

definition check_outcome ::
  "('w \<Rightarrow> ScheduledCheck \<Rightarrow> string \<Rightarrow> 'st \<Rightarrow> (CheckResult \<times> 'st) option)
     \<Rightarrow> ('w \<Rightarrow> ScheduledCheck \<Rightarrow> string \<Rightarrow> 'st \<Rightarrow> (CheckResult option \<times> 'st) option)
     \<Rightarrow> exec_input \<Rightarrow> 'w \<Rightarrow> ScheduledCheck \<Rightarrow> string \<Rightarrow> 'st \<Rightarrow> (CheckResult option \<times> 'st) option" where
  "check_outcome check_url check_robots x w scheduled_check region st =
     (let late_by = xi_now x - tick_time (sc_tick scheduled_check);
          interval = seconds (int (interval_secs (cc_interval (sc_config scheduled_check))))
      in if interval < late_by
         then Some (Some (missed_from (xi_now x) (xi_missed_guid x) scheduled_check region), st)
         else case sc_kind scheduled_check of
                Uptime \<Rightarrow> map_option (\<lambda>(r, st). (Some r, st)) (check_url w scheduled_check region st)
              | Robots \<Rightarrow> check_robots w scheduled_check region st)"

text \<open>
  \<open>None\<close>: the check does not return, or a channel that must exist does not (a panic).
\<close>

definition do_check ::
  "('w \<Rightarrow> ScheduledCheck \<Rightarrow> string \<Rightarrow> 'st \<Rightarrow> (CheckResult \<times> 'st) option)
     \<Rightarrow> ('w \<Rightarrow> ScheduledCheck \<Rightarrow> string \<Rightarrow> 'st \<Rightarrow> (CheckResult option \<times> 'st) option)
     \<Rightarrow> (CheckResult \<Rightarrow> 'pst \<Rightarrow> ((ExtractCodeError + unit) \<times> 'pst) option)
     \<Rightarrow> u16 \<Rightarrow> string \<Rightarrow> exec_input \<Rightarrow> 'w \<Rightarrow> ScheduledCheck \<Rightarrow> 'st \<Rightarrow> 'pst
     \<Rightarrow> (check_end \<times> 'st \<times> 'pst) option" where
  "do_check check_url check_robots produce failure_retries region x w scheduled_check st pst =
     (case check_outcome check_url check_robots x w scheduled_check region st of
        None \<Rightarrow> None
      | Some (None, st) \<Rightarrow>
          (case record_result (xi_rx_open x) scheduled_check None of
             Inl _ \<Rightarrow> Some (Unreported, st, pst)
           | Inr (tx, res) \<Rightarrow> Some (Resolved tx res, st, pst))
      | Some (Some check_result, st) \<Rightarrow>
          (let will_retry = (cr_status check_result = Failure \<and>
                             sc_retry_count scheduled_check < failure_retries)
           in if will_retry then
                (if xi_queue_open x
                 then Some (Requeued (scheduled_check\<lparr>sc_retry_count := sc_retry_count scheduled_check + 1\<rparr>),
                            st, pst)
                 else None)
              else
                (case produce check_result pst of
                   None \<Rightarrow> None
                 | Some (_, pst) \<Rightarrow>
                     (case record_result (xi_rx_open x) scheduled_check (Some check_result) of
                        Inl _ \<Rightarrow> None
                      | Inr (tx, res) \<Rightarrow> Some (Resolved tx res, st, pst)))))"

section \<open>What one execution does\<close>

lemma missed_reports: "reports_on check region (missed_from now guid check region)"
  by (simp add: reports_on_def missed_from_def)

context checker
begin

lemma outcome_reports:
  "check_outcome check_url check_robots x w c region st = Some (Some r, st') \<Longrightarrow> reports_on c region r"
  by (auto simp: check_outcome_def missed_reports Let_def split: if_splits CheckKind.splits
      dest: url_reports robots_reports)

lemma outcome_late:
  "seconds (int (interval_secs (cc_interval (sc_config c)))) < xi_now x - tick_time (sc_tick c) \<Longrightarrow>
     check_outcome check_url check_robots x w c region st
       = Some (Some (missed_from (xi_now x) (xi_missed_guid x) c region), st)"
  by (simp add: check_outcome_def)

lemma do_check_resolved:
  assumes "do_check check_url check_robots produce n region x w c st pst = Some (Resolved tx (Some r), st', pst')"
  shows "reports_on c region r \<and> tx = sc_resolve_tx c \<and> (cr_status r = Failure \<longrightarrow> n \<le> sc_retry_count c) \<and>
    (\<exists>res. produce r pst = Some (res, pst'))"
proof -
  obtain out st1 where out: "check_outcome check_url check_robots x w c region st = Some (out, st1)"
    using assms by (auto simp: do_check_def split: option.splits)
  obtain r' where r': "out = Some r'"
    using assms by (cases out) (auto simp: do_check_def out record_result_def split: if_splits)
  have rep: "reports_on c region r'" using outcome_reports out r' by simp
  show ?thesis
    using assms rep
    by (auto simp: do_check_def out r' record_result_def Let_def not_less
        split: if_splits option.splits)
qed

lemma do_check_requeued:
  assumes "do_check check_url check_robots produce n region x w c st pst = Some (Requeued c', st', pst')"
  shows "c' = c\<lparr>sc_retry_count := sc_retry_count c + 1\<rparr> \<and> sc_retry_count c < n \<and> pst' = pst"
  using assms
  by (auto simp: do_check_def record_result_def Let_def split: if_splits option.splits sum.splits)

end

section \<open>The executor\<close>

text \<open>
  The state of the executor and of everyone who queues checks: the checks whose arrival is counted but not yet sent,
  the channel, the checks being executed, the two counters, what was resolved, and the states of the
  checker and the producer.  \<open>ex_submitted\<close> remembers the resolving ends that were handed out.
\<close>

record ('st, 'pst) executor =
  ex_submitted :: "nat list"
  ex_sending :: "ScheduledCheck list"
  ex_queue :: "ScheduledCheck list"
  ex_running :: "ScheduledCheck list"
  ex_queue_size :: u64
  ex_num_running :: u64
  ex_resolved :: "(nat \<times> CheckResult option) list"
  ex_unreported :: "nat list"
  ex_cancelled :: bool
  ex_checker :: 'st
  ex_producer :: 'pst

definition new_executor :: "'st \<Rightarrow> 'pst \<Rightarrow> ('st, 'pst) executor" where
  "new_executor st pst =
     \<lparr>ex_submitted = [], ex_sending = [], ex_queue = [], ex_running = [], ex_queue_size = 0,
      ex_num_running = 0, ex_resolved = [], ex_unreported = [], ex_cancelled = False,
      ex_checker = st, ex_producer = pst\<rparr>"

text \<open>Counting a check in precedes sending it.\<close>

definition announce :: "ScheduledCheck \<Rightarrow> ('st, 'pst) executor \<Rightarrow> ('st, 'pst) executor" where
  "announce c s = s\<lparr>ex_queue_size := ex_queue_size s + 1, ex_sending := ex_sending s @ [c]\<rparr>"

definition queue_check ::
  "Tick \<Rightarrow> check_config \<Rightarrow> CheckKind \<Rightarrow> nat \<Rightarrow> ('st, 'pst) executor \<Rightarrow> ('st, 'pst) executor" where
  "queue_check tick config kind resolve_tx s =
     announce (new_scheduled_check kind tick config False resolve_tx)
       (s\<lparr>ex_submitted := ex_submitted s @ [resolve_tx]\<rparr>)"

definition send_check ::
  "ScheduledCheck list \<Rightarrow> ScheduledCheck \<Rightarrow> ScheduledCheck list \<Rightarrow> ('st, 'pst) executor \<Rightarrow> ('st, 'pst) executor" where
  "send_check xs c ys s = s\<lparr>ex_sending := xs @ ys, ex_queue := ex_queue s @ [c]\<rparr>"

text \<open>A concurrency of zero is no limit.\<close>

definition may_start :: "ExecutorConfig \<Rightarrow> ('st, 'pst) executor \<Rightarrow> bool" where
  "may_start conf s =
     (\<not> ex_cancelled s \<and> (ec_concurrency conf = 0 \<or> length (ex_running s) < ec_concurrency conf))"

definition start_check ::
  "ScheduledCheck \<Rightarrow> ScheduledCheck list \<Rightarrow> ('st, 'pst) executor \<Rightarrow> ('st, 'pst) executor" where
  "start_check c q s =
     s\<lparr>ex_queue := q, ex_queue_size := ex_queue_size s - 1, ex_num_running := ex_num_running s + 1,
       ex_running := ex_running s @ [c]\<rparr>"

definition finish_check ::
  "check_end \<Rightarrow> 'st \<Rightarrow> 'pst \<Rightarrow> ScheduledCheck list \<Rightarrow> ScheduledCheck \<Rightarrow> ScheduledCheck list
     \<Rightarrow> ('st, 'pst) executor \<Rightarrow> ('st, 'pst) executor" where
  "finish_check e st pst xs c ys s =
     (let s = s\<lparr>ex_running := xs @ ys, ex_num_running := ex_num_running s - 1, ex_checker := st,
                ex_producer := pst\<rparr>
      in case e of
           Requeued c' \<Rightarrow> announce c' s
         | Resolved tx res \<Rightarrow> s\<lparr>ex_resolved := ex_resolved s @ [(tx, res)]\<rparr>
         | Unreported \<Rightarrow> s\<lparr>ex_unreported := ex_unreported s @ [sc_resolve_tx c]\<rparr>)"

definition cancel :: "('st, 'pst) executor \<Rightarrow> ('st, 'pst) executor" where
  "cancel s = s\<lparr>ex_cancelled := True\<rparr>"

inductive executor_step ::
  "('w \<Rightarrow> ScheduledCheck \<Rightarrow> string \<Rightarrow> 'st \<Rightarrow> (CheckResult \<times> 'st) option)
     \<Rightarrow> ('w \<Rightarrow> ScheduledCheck \<Rightarrow> string \<Rightarrow> 'st \<Rightarrow> (CheckResult option \<times> 'st) option)
     \<Rightarrow> (CheckResult \<Rightarrow> 'pst \<Rightarrow> ((ExtractCodeError + unit) \<times> 'pst) option)
     \<Rightarrow> ExecutorConfig \<Rightarrow> ('st, 'pst) executor \<Rightarrow> ('st, 'pst) executor \<Rightarrow> bool"
  for check_url check_robots produce conf where
  submit: "tx \<notin> set (ex_submitted s) \<Longrightarrow>
    executor_step check_url check_robots produce conf s (queue_check tick config kind tx s)"
| arrive: "ex_sending s = xs @ c # ys \<Longrightarrow>
    executor_step check_url check_robots produce conf s (send_check xs c ys s)"
| start: "ex_queue s = c # q \<Longrightarrow> may_start conf s \<Longrightarrow>
    executor_step check_url check_robots produce conf s (start_check c q s)"
| finish: "ex_running s = xs @ c # ys \<Longrightarrow>
    do_check check_url check_robots produce (ec_failure_retries conf) (ec_region conf) x w c
      (ex_checker s) (ex_producer s) = Some (e, st, pst) \<Longrightarrow>
    executor_step check_url check_robots produce conf s (finish_check e st pst xs c ys s)"
| stop: "executor_step check_url check_robots produce conf s (cancel s)"

inductive executor_reachable for check_url check_robots produce conf st0 pst0 where
  init: "executor_reachable check_url check_robots produce conf st0 pst0 (new_executor st0 pst0)"
| step: "executor_reachable check_url check_robots produce conf st0 pst0 s \<Longrightarrow>
    executor_step check_url check_robots produce conf s s' \<Longrightarrow>
    executor_reachable check_url check_robots produce conf st0 pst0 s'"

section \<open>Every check is resolved at most once, within the limits\<close>

definition in_hand :: "('st, 'pst) executor \<Rightarrow> ScheduledCheck list" where
  "in_hand s = ex_sending s @ ex_queue s @ ex_running s"

definition executor_inv :: "ExecutorConfig \<Rightarrow> ('st, 'pst) executor \<Rightarrow> bool" where
  "executor_inv conf s =
     (ex_queue_size s = of_nat (length (ex_sending s) + length (ex_queue s)) \<and>
      ex_num_running s = of_nat (length (ex_running s)) \<and>
      (ec_concurrency conf = 0 \<or> length (ex_running s) \<le> ec_concurrency conf) \<and>
      image_mset sc_resolve_tx (mset (in_hand s)) + mset (map fst (ex_resolved s)) + mset (ex_unreported s)
        = mset (ex_submitted s) \<and>
      distinct (ex_submitted s) \<and>
      list_all (\<lambda>c. sc_retry_count c \<le> ec_failure_retries conf) (in_hand s))"

lemma executor_inv_new: "executor_inv conf (new_executor st pst)"
  by (simp add: executor_inv_def new_executor_def in_hand_def)

lemma executor_inv_announce:
  "executor_inv conf s \<Longrightarrow> tx \<notin> set (ex_submitted s) \<Longrightarrow> executor_inv conf (queue_check tick config kind tx s)"
  by (simp add: executor_inv_def queue_check_def announce_def new_scheduled_check_def in_hand_def ac_simps)

lemma executor_inv_send:
  "executor_inv conf s \<Longrightarrow> ex_sending s = xs @ c # ys \<Longrightarrow> executor_inv conf (send_check xs c ys s)"
  by (simp add: executor_inv_def send_check_def in_hand_def ac_simps)

lemma executor_inv_start:
  "executor_inv conf s \<Longrightarrow> ex_queue s = c # q \<Longrightarrow> may_start conf s \<Longrightarrow> executor_inv conf (start_check c q s)"
  by (auto simp: executor_inv_def start_check_def in_hand_def may_start_def ac_simps)

lemma executor_inv_cancel: "executor_inv conf s \<Longrightarrow> executor_inv conf (cancel s)"
  by (simp add: executor_inv_def cancel_def in_hand_def)

text \<open>What any end of an execution leaves: the same resolving end, and retries within their limit.\<close>

definition end_ok :: "ExecutorConfig \<Rightarrow> ScheduledCheck \<Rightarrow> check_end \<Rightarrow> bool" where
  "end_ok conf c e =
     (case e of
        Requeued c' \<Rightarrow> sc_resolve_tx c' = sc_resolve_tx c \<and> sc_retry_count c' \<le> ec_failure_retries conf
      | Resolved tx _ \<Rightarrow> tx = sc_resolve_tx c
      | Unreported \<Rightarrow> True)"

lemma executor_inv_finish:
  assumes "executor_inv conf s" "ex_running s = xs @ c # ys" "end_ok conf c e"
  shows "executor_inv conf (finish_check e st pst xs c ys s)"
  using assms
  by (cases e) (auto simp: executor_inv_def finish_check_def announce_def in_hand_def end_ok_def Let_def ac_simps)

lemma do_check_end_ok:
  assumes "do_check check_url check_robots produce (ec_failure_retries conf) region x w c st pst
    = Some (e, st', pst')"
  shows "end_ok conf c e"
  using assms
  by (auto simp: do_check_def end_ok_def record_result_def Let_def inc_le
      split: option.splits sum.splits if_splits)

lemma executor_inv_step:
  assumes "executor_step check_url check_robots produce conf s s'" "executor_inv conf s"
  shows "executor_inv conf s'"
  using assms
proof cases
  case (submit tx tick config kind)
  then show ?thesis using assms(2) executor_inv_announce by simp
next
  case (arrive xs c ys)
  then show ?thesis using assms(2) executor_inv_send by simp
next
  case (start c q)
  then show ?thesis using assms(2) executor_inv_start by simp
next
  case (finish xs c ys x w e st pst)
  from do_check_end_ok [OF finish(3)] show ?thesis
    unfolding finish(1) by (rule executor_inv_finish [OF assms(2) finish(2)])
next
  case stop
  then show ?thesis using assms(2) executor_inv_cancel by simp
qed

lemma executor_inv_reachable:
  "executor_reachable check_url check_robots produce conf st0 pst0 s \<Longrightarrow> executor_inv conf s"
  by (induction rule: executor_reachable.induct) (auto intro: executor_inv_new executor_inv_step)

section \<open>The work that is left\<close>

text \<open>
  Every check in hand has three steps to go, being sent, started and finished, for each of its remaining attempts.
\<close>

definition check_work :: "u16 \<Rightarrow> nat \<Rightarrow> ScheduledCheck \<Rightarrow> nat" where
  "check_work n k c = 3 * (unat n - unat (sc_retry_count c)) + k"

definition executor_work :: "ExecutorConfig \<Rightarrow> ('st, 'pst) executor \<Rightarrow> nat" where
  "executor_work conf s =
     sum_list (map (check_work (ec_failure_retries conf) 3) (ex_sending s)) +
     sum_list (map (check_work (ec_failure_retries conf) 2) (ex_queue s)) +
     sum_list (map (check_work (ec_failure_retries conf) 1) (ex_running s))"

lemma executor_work_bound:
  "executor_work conf s \<le> (3 * unat (ec_failure_retries conf) + 3) * length (in_hand s)"
proof -
  let ?n = "ec_failure_retries conf"
  have "sum_list (map (check_work ?n k) xs) \<le> (3 * unat ?n + 3) * length xs" if "k \<le> 3" for k xs
    using that by (induction xs) (auto simp: check_work_def)
  from this [of 3 "ex_sending s"] this [of 2 "ex_queue s"] this [of 1 "ex_running s"] show ?thesis
    by (simp add: executor_work_def in_hand_def algebra_simps)
qed

lemma do_check_retry_work:
  assumes "do_check check_url check_robots produce n region x w c st pst = Some (Requeued c', st', pst')"
  shows "check_work n 3 c' < check_work n 1 c"
proof -
  from assms have c': "c' = c\<lparr>sc_retry_count := sc_retry_count c + 1\<rparr>" "sc_retry_count c < n"
    by (auto simp: do_check_def record_result_def Let_def split: if_splits option.splits sum.splits)
  from c'(2) have "unat (sc_retry_count c) < unat n" by (simp add: word_less_nat_alt)
  moreover have "unat n < 2 ^ 16" using unsigned_less [of n] by simp
  ultimately have "unat (sc_retry_count c + 1) = Suc (unat (sc_retry_count c))"
    by (simp add: unat_word_ariths)
  with \<open>unat (sc_retry_count c) < unat n\<close> show ?thesis by (simp add: check_work_def c'(1))
qed

lemma executor_step_work:
  assumes "executor_step check_url check_robots produce conf s s'" "ex_submitted s' = ex_submitted s"
  shows "s' = cancel s \<or> executor_work conf s' < executor_work conf s"
  using assms(1)
proof cases
  case (submit tx tick config kind)
  then show ?thesis using assms(2) by (simp add: queue_check_def announce_def)
next
  case (arrive xs c ys)
  then show ?thesis by (simp add: executor_work_def send_check_def check_work_def)
next
  case (start c q)
  then show ?thesis by (simp add: executor_work_def start_check_def check_work_def)
next
  case (finish xs c ys x w e st pst)
  have less: "check_work (ec_failure_retries conf) 3 c' < check_work (ec_failure_retries conf) 1 c" if "e = Requeued c'" for c'
    by (rule do_check_retry_work [OF finish(3) [unfolded that]])
  show ?thesis
  proof (cases e)
    case (Requeued c')
    with less show ?thesis by (simp add: finish(1,2) executor_work_def finish_check_def announce_def Let_def)
  next
    case (Resolved tx r)
    then show ?thesis by (simp add: finish(1,2) executor_work_def finish_check_def check_work_def Let_def)
  next
    case Unreported
    then show ?thesis by (simp add: finish(1,2) executor_work_def finish_check_def check_work_def Let_def)
  qed
next
  case stop
  then show ?thesis by simp
qed

text \<open>The steps that queue no new check; asking the executor again to stop is no work.\<close>

definition drain_step where
  "drain_step check_url check_robots produce conf s s' \<longleftrightarrow>
     executor_step check_url check_robots produce conf s s' \<and> ex_submitted s' = ex_submitted s \<and> s' \<noteq> cancel s"

definition cancel_step :: "('st, 'pst) executor \<Rightarrow> ('st, 'pst) executor \<Rightarrow> bool" where
  "cancel_step s s' \<longleftrightarrow> s' = cancel s"

lemma executor_work_cancel: "executor_work conf (cancel s) = executor_work conf s"
  by (simp add: executor_work_def cancel_def)

interpretation draining: weighted_steps "drain_step check_url check_robots produce conf" cancel_step "\<lambda>_. True"
    "executor_work conf" for check_url check_robots produce conf
  by unfold_locales (auto simp: drain_step_def cancel_step_def executor_work_cancel dest: executor_step_work)

text \<open>As long as a check is in hand, the executor is not stopped and executions return, some step does something.\<close>

definition can_work where
  "can_work check_url check_robots produce conf s \<longleftrightarrow>
     (\<exists>s'. drain_step check_url check_robots produce conf s s')"

lemma can_workI:
  assumes "executor_step check_url check_robots produce conf s s'" "ex_submitted s' = ex_submitted s"
    "length (ex_sending s') \<noteq> length (ex_sending s) \<or> length (ex_queue s') \<noteq> length (ex_queue s) \<or>
     length (ex_running s') \<noteq> length (ex_running s)"
  shows "can_work check_url check_robots produce conf s"
  unfolding can_work_def drain_step_def using assms by (intro exI [of _ s']) (auto simp: cancel_def)

lemma executor_progress:
  assumes returns: "\<forall>c\<in>set (ex_running s). \<exists>x w. do_check check_url check_robots produce (ec_failure_retries conf)
      (ec_region conf) x w c (ex_checker s) (ex_producer s) \<noteq> None"
    and running: "\<not> ex_cancelled s" and hand: "in_hand s \<noteq> []"
  shows "can_work check_url check_robots produce conf s"
proof -
  consider c q where "ex_running s = c # q" | c q where "ex_sending s = c # q"
    | c q where "ex_running s = []" "ex_queue s = c # q"
    using hand by (cases "ex_running s"; cases "ex_sending s"; cases "ex_queue s") (auto simp: in_hand_def)
  then show ?thesis
  proof cases
    case (1 c q)
    with returns obtain x w e st pst where "do_check check_url check_robots produce (ec_failure_retries conf)
      (ec_region conf) x w c (ex_checker s) (ex_producer s) = Some (e, st, pst)" by auto
    from executor_step.finish [OF _ this, where xs = "[]" and ys = q] 1
    have "executor_step check_url check_robots produce conf s (finish_check e st pst [] c q s)" by simp
    then show ?thesis
      by (rule can_workI) (cases e; simp add: 1 finish_check_def announce_def Let_def)+
  next
    case (2 c q)
    then show ?thesis
      by (intro can_workI [OF executor_step.arrive [where xs = "[]"]]) (simp_all add: send_check_def)
  next
    case (3 c q)
    then show ?thesis using running
      by (intro can_workI [OF executor_step.start]) (auto simp: may_start_def start_check_def)
  qed
qed





text \<open>
  C16: When an execution resolves its check with a result, the result is about that check (its subscription, its
  scheduled time, the executor's region), it went to the producer, it is reported to the check's own
  receiver, and it is a failure only when the retries are used up.
\<close>

theorem do_check_resolves_own_check:
  assumes "do_check (http_check_url E C H S X v5) (http_check_robots H X v5) produce failure_retries region
      x w check st pst = Some (Resolved tx (Some r), st', pst')"
  shows "reports_on check region r \<and> tx = sc_resolve_tx check \<and>
    (cr_status r \<noteq> Failure \<or> failure_retries \<le> sc_retry_count check) \<and>
    (\<exists>res. produce r pst = Some (res, pst'))"
  using http.do_check_resolved [OF assms] by blast

definition plain_exec_input :: "datetime \<Rightarrow> exec_input" where
  "plain_exec_input now = \<lparr>xi_now = now, xi_missed_guid = 1, xi_rx_open = (\<lambda>_. True), xi_queue_open = True\<rparr>"

theorem do_check_resolves_own_check_witness:
  "reports_on (plain_check False None) ''us''
     (missed_from (seconds 61) 1 (plain_check False None) ''us'')"
proof -
  let ?w = "\<lparr>hi_reqwest = plain_input 200 [],
      hi_dummy = \<lparr>in_now = 0, in_trace_id = 0, in_guid = 0, in_span_id = 0\<rparr>\<rparr>"
  have "do_check (http_check_url plain_externals plain_cache plain_http plain_stats plain_fmt (\<lambda>_ _. 7))
      (http_check_robots plain_http plain_fmt (\<lambda>_ _. 7)) noop_produce 2 ''us'' (plain_exec_input (seconds 61))
      ?w (plain_check False None) (HReqwest plain_checker) ()
    = Some (Resolved 0 (Some (missed_from (seconds 61) 1 (plain_check False None) ''us'')),
        HReqwest plain_checker, ())"
    by (simp add: do_check_def check_outcome_def plain_exec_input_def plain_check_def new_scheduled_check_def
        default_check_config_def from_time_def seconds_def missed_from_def noop_produce_def record_result_def)
  from do_check_resolves_own_check [OF this] show ?thesis by blast
qed

text \<open>
  A check taken up more than its interval after its tick is not made: the outcome is a missed window,
  whatever the checker would have said (and also for a robots.txt check).
\<close>

theorem late_check_is_missed:
  assumes "seconds (int (interval_secs (cc_interval (sc_config check)))) < xi_now x - tick_time (sc_tick check)"
  shows "check_outcome (http_check_url E C H S X v5) (http_check_robots H X v5) x w check region st
    = Some (Some (missed_from (xi_now x) (xi_missed_guid x) check region), st)"
  using assms by (rule http.outcome_late)

theorem late_check_is_missed_witness:
  "check_outcome (http_check_url plain_externals plain_cache plain_http plain_stats plain_fmt (\<lambda>_ _. 7))
     (http_check_robots plain_http plain_fmt (\<lambda>_ _. 7)) (plain_exec_input (seconds 61))
     \<lparr>hi_reqwest = plain_input 200 [],
      hi_dummy = \<lparr>in_now = 0, in_trace_id = 0, in_guid = 0, in_span_id = 0\<rparr>\<rparr>
     (plain_check False None) ''us'' (HReqwest plain_checker)
   = Some (Some (missed_from (seconds 61) 1 (plain_check False None) ''us''), HReqwest plain_checker)"
  using late_check_is_missed [of "plain_check False None" "plain_exec_input (seconds 61)"]
  by (simp add: plain_check_def plain_exec_input_def new_scheduled_check_def default_check_config_def
      from_time_def seconds_def)

end
