(* ===== verification/Scheduler.thy ===== *)
theory Scheduler
  imports ConfigStore CheckExecutor
begin

text \<open>
  The scheduler (\<open>src/src/scheduler.rs\<close>): where the ticks start after a restart, the ticks themselves,
  the queueing of the checks of a tick, and the processor that advances the stored watermark in the
  order of the ticks.

  The ticker is Tokio's interval with its default behaviour: it yields the instants \<open>start_at\<close>,
  one second later, and so on, none of them left out when it is late.
\<close>

section \<open>Where the ticks start\<close>

definition tick_frequency :: time_delta where
  "tick_frequency = seconds 1"

text \<open>Truncation to the second; it fails for an instant whose nanoseconds do not fit 64 bits.\<close>

definition trunc_to_second :: "datetime \<Rightarrow> string + datetime" where
  "trunc_to_second t =
     (if i64_min \<le> t \<and> t \<le> i64_max then Inr (t - t mod nanos_per_sec) else Inl ''timestamp out of range'')"

definition scheduler_start :: "i64 option \<Rightarrow> datetime \<Rightarrow> string + datetime" where
  "scheduler_start last_progress now =
     (case last_progress of
        Some last_completed_check_nanos \<Rightarrow>
          (let next_check = last_completed_check_nanos + tick_frequency
           in case trunc_to_second now of
                Inl e \<Rightarrow> Inl e
              | Inr t \<Rightarrow> Inr (min next_check t))
      | None \<Rightarrow> trunc_to_second now)"

text \<open>
  The monotonic instant of the first tick: the time since the start, which must not be negative, before the
  present one.
\<close>

definition scheduler_start_at :: "datetime \<Rightarrow> datetime \<Rightarrow> instant \<Rightarrow> string + instant" where
  "scheduler_start_at start now instant_now =
     (if now - start < 0 then Inl ''out of range''
      else Inr (if 0 \<le> instant_now - (now - start) then instant_now - (now - start) else instant_now))"

text \<open>The k-th tick of the ticker, and the tick of the program for it.\<close>

definition interval_tick :: "instant \<Rightarrow> nat \<Rightarrow> instant" where
  "interval_tick start_at k = start_at + int k * tick_frequency"

definition nth_tick :: "datetime \<Rightarrow> instant \<Rightarrow> nat \<Rightarrow> Tick" where
  "nth_tick start start_at k = from_time (start + duration_since (interval_tick start_at k) start_at)"

lemma nth_tick_time: "tick_time (nth_tick start start_at k) = start + seconds (int k)"
  by (simp add: nth_tick_def from_time_def interval_tick_def duration_since_def tick_frequency_def seconds_def)

section \<open>Queueing the checks of a tick\<close>

record ExecutionBundle =
  eb_tick :: Tick
  eb_checks :: "nat list"

text \<open>
  The configurations of the bucket in some order, each with the fresh channel its check would get.  The outer \<open>None\<close> is
  a panic; queueing fails when the executor no longer listens.
\<close>

fun schedule_configs ::
  "uuid_v5 \<Rightarrow> string \<Rightarrow> Tick \<Rightarrow> bool \<Rightarrow> (check_config \<times> nat) list \<Rightarrow> ('st, 'pst) executor
     \<Rightarrow> (string + nat list \<times> ('st, 'pst) executor) option" where
  "schedule_configs v5 region tick executor_open [] s = Some (Inr ([], s))"
| "schedule_configs v5 region tick executor_open ((config, tx) # cs) s =
     (case should_run v5 config tick region of
        None \<Rightarrow> None
      | Some True \<Rightarrow>
          if executor_open then
            (case schedule_configs v5 region tick executor_open cs (queue_check tick config Uptime tx s) of
               None \<Rightarrow> None
             | Some (Inl e) \<Rightarrow> Some (Inl e)
             | Some (Inr (results, s')) \<Rightarrow> Some (Inr (tx # results, s')))
          else Some (Inl ''executor_sender.queue_check failed'')
      | Some False \<Rightarrow> schedule_configs v5 region tick executor_open cs s)"

text \<open>The bundle goes to the tick processor, if that still listens.\<close>

definition schedule_checks ::
  "uuid_v5 \<Rightarrow> string \<Rightarrow> Tick \<Rightarrow> bool \<Rightarrow> bool \<Rightarrow> (check_config \<times> nat) list \<Rightarrow> ('st, 'pst) executor
     \<Rightarrow> (string + ExecutionBundle \<times> ('st, 'pst) executor) option" where
  "schedule_checks v5 region tick executor_open processor_open cs s =
     (case schedule_configs v5 region tick executor_open cs s of
        None \<Rightarrow> None
      | Some (Inl e) \<Rightarrow> Some (Inl e)
      | Some (Inr (results, s')) \<Rightarrow>
          if processor_open then Some (Inr (\<lparr>eb_tick = tick, eb_checks = results\<rparr>, s'))
          else Some (Inl ''tick_complete_tx.send failure''))"

text \<open>
  The loop over the ticks until the shutdown: what each iteration sees, and the bundles it hands on.
\<close>

record tick_iteration =
  ti_shutdown :: bool
  ti_bucket :: "(check_config \<times> nat) list"
  ti_executor_open :: bool
  ti_processor_open :: bool

fun scheduler_ticks ::
  "uuid_v5 \<Rightarrow> string \<Rightarrow> datetime \<Rightarrow> instant \<Rightarrow> nat \<Rightarrow> tick_iteration list \<Rightarrow> ('st, 'pst) executor
     \<Rightarrow> (string + ExecutionBundle list \<times> ('st, 'pst) executor) option" where
  "scheduler_ticks v5 region start start_at k [] s = Some (Inr ([], s))"
| "scheduler_ticks v5 region start start_at k (it # its) s =
     (if ti_shutdown it then Some (Inr ([], s))
      else case schedule_checks v5 region (nth_tick start start_at k) (ti_executor_open it)
                  (ti_processor_open it) (ti_bucket it) s of
             None \<Rightarrow> None
           | Some (Inl e) \<Rightarrow> Some (Inl e)
           | Some (Inr (bundle, s')) \<Rightarrow>
               (case scheduler_ticks v5 region start start_at (Suc k) its s' of
                  None \<Rightarrow> None
                | Some (Inl e) \<Rightarrow> Some (Inl e)
                | Some (Inr (bundles, s'')) \<Rightarrow> Some (Inr (bundle # bundles, s''))))"

section \<open>The tick processor\<close>

text \<open>The end of a one-shot channel: a result arrived (also none), or the sender is gone.\<close>

datatype receipt = Received | SenderGone

definition HANDLE_BATCH_SIZE :: nat where
  "HANDLE_BATCH_SIZE = 1000"

text \<open>
  The last tick of a batch up to the first bundle with a lost check; the rest of the batch is dropped.
\<close>

fun last_completed :: "(nat \<Rightarrow> receipt) \<Rightarrow> ExecutionBundle list \<Rightarrow> Tick option \<Rightarrow> Tick option" where
  "last_completed r [] last_tick = last_tick"
| "last_completed r (bundle # bs) last_tick =
     (if list_ex (\<lambda>tx. r tx = SenderGone) (eb_checks bundle) then last_tick
      else last_completed r bs (Some (eb_tick bundle)))"

datatype write_outcome =
    Written
  | WriteTimeout
  | ConnectionDropped bool \<comment> \<open>whether the reconnection succeeds\<close>
  | FatalWrite

definition timestamp_nanos_opt :: "datetime \<Rightarrow> i64 option" where
  "timestamp_nanos_opt t = (if i64_min \<le> t \<and> t \<le> i64_max then Some t else None)"

text \<open>
  The processor over the batches it reads, each with the outcome of its write: the values it tried to write, in order,
  and whether it ended in an error.
\<close>

fun process_batches ::
  "(nat \<Rightarrow> receipt) \<Rightarrow> (ExecutionBundle list \<times> write_outcome) list \<Rightarrow> (i64 \<times> write_outcome) list \<times> (string + unit)" where
  "process_batches r [] = ([], Inr ())"
| "process_batches r ((batch, w) # bs) =
     (case last_completed r batch None of
        None \<Rightarrow> ([], Inl ''Didn't process any checks; executor must be down'')
      | Some tick \<Rightarrow>
          (case timestamp_nanos_opt (tick_time tick) of
             None \<Rightarrow> process_batches r bs
           | Some progress \<Rightarrow>
               (case w of
                  FatalWrite \<Rightarrow> ([(progress, w)], Inl ''Fatal error trying to set redis progress key'')
                | _ \<Rightarrow> (case process_batches r bs of (ws, res) \<Rightarrow> ((progress, w) # ws, res)))))"

text \<open>The stored watermark after the writes that certainly happened.\<close>

definition watermark :: "i64 option \<Rightarrow> (i64 \<times> write_outcome) list \<Rightarrow> i64 option" where
  "watermark w0 ws = foldl (\<lambda>w (p, out). if out = Written then Some p else w) w0 ws"

section \<open>What is queued at a tick\<close>

definition runs_here :: "uuid_v5 \<Rightarrow> Tick \<Rightarrow> string \<Rightarrow> check_config \<Rightarrow> bool" where
  "runs_here v5 tick region c = (should_run v5 c tick region = Some True)"

lemma should_run_cases: "should_run v5 c tick region = Some (runs_here v5 tick region c)"
  using should_run_no_panic [of v5 c tick region] by (auto simp: runs_here_def)

lemma queue_check_sends:
  "ex_sending (queue_check tick c kind tx s)
     = ex_sending s @ [new_scheduled_check kind tick c False tx]"
  "ex_submitted (queue_check tick c kind tx s) = ex_submitted s @ [tx]"
  by (simp_all add: queue_check_def announce_def)

lemma schedule_configs_open:
  "\<exists>s'. schedule_configs v5 region tick True cs s
      = Some (Inr (map snd (filter (\<lambda>x. runs_here v5 tick region (fst x)) cs), s')) \<and>
    ex_sending s' = ex_sending s @ map (\<lambda>x. new_scheduled_check Uptime tick (fst x) False (snd x))
      (filter (\<lambda>x. runs_here v5 tick region (fst x)) cs)"
proof (induction cs arbitrary: s)
  case Nil
  then show ?case by simp
next
  case (Cons x cs)
  obtain config tx where x: "x = (config, tx)" by (cases x)
  show ?case
    using Cons.IH [of "queue_check tick config Uptime tx s"] Cons.IH [of s]
    by (cases "runs_here v5 tick region config")
      (auto simp: x should_run_cases queue_check_sends)
qed

text \<open>Scheduling is made of executor steps.\<close>

lemma schedule_configs_reachable:
  "schedule_configs v5 region tick open cs s = Some (Inr (txs, s')) \<Longrightarrow>
   distinct (map snd cs) \<Longrightarrow> set (map snd cs) \<inter> set (ex_submitted s) = {} \<Longrightarrow>
   executor_reachable cu cr pr conf st pst s \<Longrightarrow> executor_reachable cu cr pr conf st pst s'"
proof (induction cs arbitrary: s txs)
  case Nil
  then show ?case by simp
next
  case (Cons x cs)
  obtain config tx where x: "x = (config, tx)" by (cases x)
  show ?case
  proof (cases "runs_here v5 tick region config")
    case False
    then show ?thesis using Cons.prems Cons.IH [of s txs] by (simp add: x should_run_cases)
  next
    case True
    let ?q = "queue_check tick config Uptime tx s"
    have "executor_reachable cu cr pr conf st pst ?q"
      using Cons.prems(3,4) by (intro executor_reachable.step [OF _ submit]) (simp_all add: x)
    moreover have "\<exists>r. schedule_configs v5 region tick open cs ?q = Some (Inr (r, s'))"
      using Cons.prems(1) True
      by (auto simp: x should_run_cases split: if_splits option.splits sum.splits prod.splits)
    ultimately show ?thesis
      using Cons.prems(2,3) Cons.IH [of ?q] by (auto simp: x queue_check_sends)
  qed
qed

text \<open>
  At a tick, the checks of exactly those configurations of the bucket that run in this region at this tick are
  queued, one uptime check each for that tick, and the tick's bundle waits for exactly their channels; nothing panics.
\<close>

theorem schedule_checks_exact:
  "\<exists>s'. schedule_checks v5 region tick True True cs s
      = Some (Inr (\<lparr>eb_tick = tick,
                    eb_checks = map snd (filter (\<lambda>x. runs_here v5 tick region (fst x)) cs)\<rparr>, s')) \<and>
    ex_sending s' = ex_sending s @ map (\<lambda>x. new_scheduled_check Uptime tick (fst x) False (snd x))
      (filter (\<lambda>x. runs_here v5 tick region (fst x)) cs)"
proof -
  obtain s' where "schedule_configs v5 region tick True cs s
      = Some (Inr (map snd (filter (\<lambda>x. runs_here v5 tick region (fst x)) cs), s'))"
    "ex_sending s' = ex_sending s @ map (\<lambda>x. new_scheduled_check Uptime tick (fst x) False (snd x))
      (filter (\<lambda>x. runs_here v5 tick region (fst x)) cs)"
    using schedule_configs_open by blast
  then show ?thesis by (simp add: schedule_checks_def)
qed

text \<open>
  The bundles of a run are those of consecutive seconds from the start on: the k-th is for the second k after
  it, whatever else happens in the loop.
\<close>

theorem ticks_without_gap:
  assumes "scheduler_ticks v5 region start start_at 0 its s = Some (Inr (bundles, s'))"
  shows "map (\<lambda>b. tick_time (eb_tick b)) bundles = map (\<lambda>k. start + seconds (int k)) [0..<length bundles]"
proof -
  have "scheduler_ticks v5 region start start_at k its s = Some (Inr (bs, s')) \<Longrightarrow>
      map eb_tick bs = map (nth_tick start start_at) [k..<k + length bs]" for k bs s
  proof (induction its arbitrary: k bs s)
    case (Cons it its)
    show ?case
    proof (cases "ti_shutdown it")
      case False
      with Cons.prems obtain b s1 bs1 where b: "schedule_checks v5 region (nth_tick start start_at k)
            (ti_executor_open it) (ti_processor_open it) (ti_bucket it) s = Some (Inr (b, s1))"
          "scheduler_ticks v5 region start start_at (Suc k) its s1 = Some (Inr (bs1, s'))" "bs = b # bs1"
        by (auto split: option.splits sum.splits)
      have "eb_tick b = nth_tick start start_at k"
        using b(1) by (auto simp: schedule_checks_def split: option.splits sum.splits if_splits)
      with Cons.IH [OF b(2)] show ?thesis by (simp add: b(3) upt_conv_Cons del: upt_Suc)
    qed (use Cons.prems in simp)
  qed simp
  from this [OF assms] have "map tick_time (map eb_tick bundles)
      = map tick_time (map (nth_tick start start_at) [0..<length bundles])" by simp
  then show ?thesis by (simp add: nth_tick_time comp_def)
qed

theorem ticks_without_gap_witness:
  "\<exists>s'. scheduler_ticks (\<lambda>_ _. 7) ''us'' 0 9 0
      [\<lparr>ti_shutdown = False, ti_bucket = [], ti_executor_open = True, ti_processor_open = True\<rparr>,
       \<lparr>ti_shutdown = False, ti_bucket = [(default_check_config, 4)], ti_executor_open = True,
        ti_processor_open = True\<rparr>]
      (new_executor () ()) = Some (Inr ([\<lparr>eb_tick = nth_tick 0 9 0, eb_checks = []\<rparr>,
                                          \<lparr>eb_tick = nth_tick 0 9 1, eb_checks = [4]\<rparr>], s')) \<and>
    map (\<lambda>b. tick_time (eb_tick b)) [\<lparr>eb_tick = nth_tick 0 9 0, eb_checks = []\<rparr>,
                                       \<lparr>eb_tick = nth_tick 0 9 1, eb_checks = [4]\<rparr>]
      = map (\<lambda>k. 0 + seconds (int k))
          [0..<length [\<lparr>eb_tick = nth_tick 0 9 0, eb_checks = [] :: nat list\<rparr>,
                       \<lparr>eb_tick = nth_tick 0 9 1, eb_checks = [4]\<rparr>]]"
proof -
  have "\<exists>s'. scheduler_ticks (\<lambda>_ _. 7) ''us'' 0 9 0
      [\<lparr>ti_shutdown = False, ti_bucket = [], ti_executor_open = True, ti_processor_open = True\<rparr>,
       \<lparr>ti_shutdown = False, ti_bucket = [(default_check_config, 4)], ti_executor_open = True,
        ti_processor_open = True\<rparr>]
      (new_executor () ()) = Some (Inr ([\<lparr>eb_tick = nth_tick 0 9 0, eb_checks = []\<rparr>,
                                          \<lparr>eb_tick = nth_tick 0 9 1, eb_checks = [4]\<rparr>], s'))"
    by (simp add: schedule_checks_def default_check_config_def)
  then obtain s' where run: "scheduler_ticks (\<lambda>_ _. 7) ''us'' 0 9 0
      [\<lparr>ti_shutdown = False, ti_bucket = [], ti_executor_open = True, ti_processor_open = True\<rparr>,
       \<lparr>ti_shutdown = False, ti_bucket = [(default_check_config, 4)], ti_executor_open = True,
        ti_processor_open = True\<rparr>]
      (new_executor () ()) = Some (Inr ([\<lparr>eb_tick = nth_tick 0 9 0, eb_checks = []\<rparr>,
                                          \<lparr>eb_tick = nth_tick 0 9 1, eb_checks = [4]\<rparr>], s'))" ..
  from run ticks_without_gap [OF run] show ?thesis by blast
qed

section \<open>The watermark\<close>

definition bundle_ok :: "(nat \<Rightarrow> receipt) \<Rightarrow> ExecutionBundle \<Rightarrow> bool" where
  "bundle_ok r b = list_all (\<lambda>tx. r tx \<noteq> SenderGone) (eb_checks b)"

lemma not_bundle_ok: "list_ex (\<lambda>tx. r tx = SenderGone) (eb_checks b) \<longleftrightarrow> \<not> bundle_ok r b"
  by (auto simp: bundle_ok_def list_ex_iff list_all_iff)

lemma last_completed_ok:
  "list_all (bundle_ok r) bs \<Longrightarrow> bs \<noteq> [] \<Longrightarrow> last_completed r bs t = Some (eb_tick (last bs))"
  by (induction bs arbitrary: t) (auto simp: not_bundle_ok)

lemma last_completed_prefix:
  "last_completed r bs None = Some t \<Longrightarrow>
     \<exists>k. 0 < k \<and> k \<le> length bs \<and> list_all (bundle_ok r) (take k bs) \<and> t = eb_tick (bs ! (k - 1))"
proof -
  have "last_completed r bs t0 = Some t \<Longrightarrow> t0 = Some t \<or>
     (\<exists>k. 0 < k \<and> k \<le> length bs \<and> list_all (bundle_ok r) (take k bs) \<and> t = eb_tick (bs ! (k - 1)))" for t0
  proof (induction bs arbitrary: t0)
    case (Cons b bs)
    show ?case
    proof (cases "bundle_ok r b")
      case False
      with Cons.prems show ?thesis by (simp add: not_bundle_ok)
    next
      case True
      with Cons.prems Cons.IH [of "Some (eb_tick b)"] have "eb_tick b = t \<or>
        (\<exists>k. 0 < k \<and> k \<le> length bs \<and> list_all (bundle_ok r) (take k bs) \<and> t = eb_tick (bs ! (k - 1)))"
        by (simp add: not_bundle_ok)
      then show ?thesis
      proof (elim disjE exE)
        assume "eb_tick b = t"
        with True show ?thesis by (intro disjI2 exI [of _ 1]) simp
      next
        fix k assume "0 < k \<and> k \<le> length bs \<and> list_all (bundle_ok r) (take k bs) \<and> t = eb_tick (bs ! (k - 1))"
        with True show ?thesis by (intro disjI2 exI [of _ "Suc k"]) (simp add: nth_Cons')
      qed
    qed
  qed simp
  then show "last_completed r bs None = Some t \<Longrightarrow> ?thesis" by blast
qed


lemma watermark_Cons [simp]: "watermark w0 ((p, Written) # ws) = watermark (Some p) ws"
  by (simp add: watermark_def)

lemma watermark_Nil [simp]: "watermark w0 [] = w0"
  by (simp add: watermark_def)

definition in_i64 :: "datetime \<Rightarrow> bool" where
  "in_i64 t = (i64_min \<le> t \<and> t \<le> i64_max)"

lemma process_batches_ok:
  "list_all (\<lambda>(b, w). b \<noteq> [] \<and> w = Written) bs \<Longrightarrow>
   list_all (\<lambda>x. bundle_ok r x \<and> in_i64 (tick_time (eb_tick x))) (concat (map fst bs)) \<Longrightarrow>
     watermark w0 (fst (process_batches r bs))
       = (if bs = [] then w0 else Some (tick_time (eb_tick (last (concat (map fst bs))))))"
proof (induction bs arbitrary: w0)
  case (Cons x bs)
  obtain batch w where x: "x = (batch, w)" by (cases x)
  let ?t = "tick_time (eb_tick (last batch))"
  have b: "batch \<noteq> []" "w = Written" using Cons.prems(1) by (simp_all add: x)
  have ok: "list_all (bundle_ok r) batch" "in_i64 ?t"
    using Cons.prems(2) b(1) by (auto simp: x list_all_iff)
  have "watermark w0 (fst (process_batches r (x # bs))) = watermark (Some ?t) (fst (process_batches r bs))"
    using ok b by (auto simp: x last_completed_ok timestamp_nanos_opt_def in_i64_def split: prod.split)
  also have "\<dots> = (if bs = [] then Some ?t else Some (tick_time (eb_tick (last (concat (map fst bs))))))"
    using Cons.prems by (intro Cons.IH) (simp_all add: x)
  also have "\<dots> = Some (tick_time (eb_tick (last (concat (map fst (x # bs))))))"
  proof (cases "bs = []")
    case False
    then have "concat (map fst bs) \<noteq> []" using Cons.prems(1) by (cases bs) auto
    with False show ?thesis by (simp add: x)
  qed (simp add: x)
  finally show ?case by simp
qed simp

text \<open>
  A restart continues where the last run got to: when a run that started at some second has had the checks of its
  first n ticks resolved, in whatever batches they were read, a checker that starts later begins
  with the tick n seconds after that start.  No second between the two runs is left out, and none is repeated.
\<close>

theorem restart_resumes:
  assumes "concat (map fst bs) = map (\<lambda>k. \<lparr>eb_tick = nth_tick start start_at k, eb_checks = chks k\<rparr>) [0..<n]"
    and "0 < n" "list_all (\<lambda>(b, w). b \<noteq> [] \<and> w = Written) bs"
    and "list_all (bundle_ok r) (concat (map fst bs))"
    and "i64_min \<le> start" "start + seconds (int n) \<le> i64_max"
    and "trunc_to_second now = Inr t" "start + seconds (int n) \<le> t"
  shows "scheduler_start (watermark w0 (fst (process_batches r bs))) now = Inr (start + seconds (int n))"
proof -
  have range: "list_all (\<lambda>x. bundle_ok r x \<and> in_i64 (tick_time (eb_tick x))) (concat (map fst bs))"
    unfolding list_all_iff
  proof
    fix x assume x: "x \<in> set (concat (map fst bs))"
    then have x': "x \<in> set (map (\<lambda>k. \<lparr>eb_tick = nth_tick start start_at k, eb_checks = chks k\<rparr>) [0..<n])"
      unfolding assms(1) .
    then obtain k where k: "k < n" "tick_time (eb_tick x) = start + seconds (int k)"
      by (auto simp: nth_tick_time)
    then have "in_i64 (tick_time (eb_tick x))"
      using assms(5,6) by (simp add: in_i64_def seconds_def)
    moreover have "bundle_ok r x" using assms(4) x unfolding list_all_iff by blast
    ultimately show "bundle_ok r x \<and> in_i64 (tick_time (eb_tick x))" by simp
  qed
  have "bs \<noteq> []" using assms(1,2) by auto
  then have "watermark w0 (fst (process_batches r bs)) = Some (tick_time (eb_tick (last (concat (map fst bs)))))"
    using process_batches_ok [OF assms(3) range] by simp
  also have "\<dots> = Some (start + seconds (int (n - 1)))"
    using assms(2) by (simp add: assms(1) last_map nth_tick_time)
  finally have w: "watermark w0 (fst (process_batches r bs)) = Some (start + seconds (int (n - 1)))" .
  have "start + seconds (int (n - 1)) + tick_frequency = start + seconds (int n)"
    using assms(2) by (simp add: tick_frequency_def seconds_def algebra_simps of_nat_diff)
  then show ?thesis using assms(7,8) by (simp add: scheduler_start_def w min_def)
qed

theorem restart_resumes_witness:
  "scheduler_start (watermark None (fst (process_batches (\<lambda>_. Received)
      [([\<lparr>eb_tick = nth_tick 0 7 0, eb_checks = [1, 2]\<rparr>, \<lparr>eb_tick = nth_tick 0 7 1, eb_checks = []\<rparr>], Written)])))
     (seconds 5) = Inr (0 + seconds (int 2))"
  by (rule restart_resumes [where start_at = 7 and chks = "\<lambda>k. if k = 0 then [1, 2] else []" and t = "seconds 5"])
    (simp_all add: bundle_ok_def i64_min_def i64_max_def seconds_def trunc_to_second_def upt_rec)

text \<open>
  After a bundle with a lost check has stopped a batch, the next batch can still move the watermark past
  its tick: the checks of that tick are then never made up for by a restart.
\<close>

theorem watermark_can_skip_a_tick:
  assumes "r lost = SenderGone" "bundle_ok r b1" "bundle_ok r b3" "lost \<in> set (eb_checks b2)"
    and "in_i64 (tick_time (eb_tick b1))" "in_i64 (tick_time (eb_tick b3))"
  shows "\<not> bundle_ok r b2 \<and>
    watermark w0 (fst (process_batches r [([b1, b2], Written), ([b3], Written)]))
      = Some (tick_time (eb_tick b3))"
proof -
  have b2: "\<not> bundle_ok r b2" using assms(1,4) by (auto simp: bundle_ok_def list_all_iff)
  then show ?thesis
    using assms(2,3,5,6) by (simp add: not_bundle_ok timestamp_nanos_opt_def in_i64_def)
qed

theorem watermark_can_skip_a_tick_witness:
  "watermark None (fst (process_batches (\<lambda>tx. if tx = 2 then SenderGone else Received)
      [([\<lparr>eb_tick = nth_tick 0 0 0, eb_checks = [1]\<rparr>, \<lparr>eb_tick = nth_tick 0 0 1, eb_checks = [2]\<rparr>], Written),
       ([\<lparr>eb_tick = nth_tick 0 0 2, eb_checks = [3]\<rparr>], Written)])) = Some (seconds 2)"
  using watermark_can_skip_a_tick [of "\<lambda>tx. if tx = 2 then SenderGone else Received" 2
      "\<lparr>eb_tick = nth_tick 0 0 0, eb_checks = [1]\<rparr>" "\<lparr>eb_tick = nth_tick 0 0 2, eb_checks = [3]\<rparr>"
      "\<lparr>eb_tick = nth_tick 0 0 1, eb_checks = [2]\<rparr>" None]
  by (simp add: bundle_ok_def in_i64_def i64_min_def i64_max_def nth_tick_time seconds_def)

end
