(* ===== verification/AppConfig.thy ===== *)
theory AppConfig
  imports RustStd
begin

text \<open>
  The configuration of the process (\<open>src/src/app/config.rs\<close>) and of its logging
  (\<open>src/src/logging.rs\<close>): the records and their defaults, the order in which the sources of a
  configuration override each other, the parsing of the name servers, and what the debug output of the Kafka
  settings shows.

  The configuration library is the record \<open>config_lib\<close>, and the parser of IP addresses a parameter; an address is
  its text where the program only passes it on.
\<close>

section \<open>Enumerations\<close>

datatype ConfigProviderMode = ProviderRedis

datatype ProducerMode = ProducerKafka | ProducerVector

datatype CheckerMode = CheckerReqwest

datatype LogFormat = FormatAuto | FormatPretty | FormatSimplified | FormatJson

datatype Level = LevelError | LevelWarn | LevelInfo | LevelDebug | LevelTrace | LevelOff

datatype LevelFilter = FilterError | FilterWarn | FilterInfo | FilterDebug | FilterTrace | FilterOff

fun level_filter :: "Level \<Rightarrow> LevelFilter" where
  "level_filter LevelError = FilterError"
| "level_filter LevelWarn = FilterWarn"
| "level_filter LevelInfo = FilterInfo"
| "level_filter LevelDebug = FilterDebug"
| "level_filter LevelTrace = FilterTrace"
| "level_filter LevelOff = FilterOff"

datatype KafkaSecurityProtocol = Plaintext | Ssl | SaslPlaintext | SaslSsl

fun protocol_to_string :: "KafkaSecurityProtocol \<Rightarrow> string" where
  "protocol_to_string Plaintext = ''plaintext''"
| "protocol_to_string Ssl = ''ssl''"
| "protocol_to_string SaslPlaintext = ''sasl_plaintext''"
| "protocol_to_string SaslSsl = ''sasl_ssl''"

section \<open>Records\<close>

record MetricsConfig =
  mc_statsd_addr :: string
  mc_default_tags :: "(string \<times> string) list"
  mc_hostname_tag :: "string option"

record KafkaConfig =
  kc_security_protocol :: "KafkaSecurityProtocol option"
  kc_ssl_ca_location :: "string option"
  kc_ssl_cert_location :: "string option"
  kc_ssl_key_location :: "string option"
  kc_sasl_mechanism :: "string option"
  kc_sasl_username :: "string option"
  kc_sasl_password :: "string option"

definition default_kafka_config :: KafkaConfig where
  "default_kafka_config =
     \<lparr>kc_security_protocol = None, kc_ssl_ca_location = None, kc_ssl_cert_location = None,
      kc_ssl_key_location = None, kc_sasl_mechanism = None, kc_sasl_username = None,
      kc_sasl_password = None\<rparr>"

record Config =
  cf_sentry_dsn :: "string option"
  cf_sentry_env :: "string option"
  cf_log_level :: Level
  cf_log_format :: LogFormat
  cf_checker_concurrency :: usize
  cf_checker_parallel :: bool
  cf_interface :: "string option"
  cf_metrics :: MetricsConfig
  cf_results_kafka_cluster :: "string list"
  cf_results_kafka_topic :: string
  cf_kafka_config :: KafkaConfig
  cf_config_provider_mode :: ConfigProviderMode
  cf_checker_mode :: CheckerMode
  cf_producer_mode :: ProducerMode
  cf_config_provider_redis_update_ms :: u64
  cf_config_provider_redis_total_partitions :: u16
  cf_vector_batch_size :: usize
  cf_vector_batch_timeout_secs :: u64
  cf_vector_endpoint :: string
  cf_redis_enable_cluster :: bool
  cf_retry_vector_errors_forever :: bool
  cf_redis_host :: string
  cf_region :: string
  cf_allow_internal_ips :: bool
  cf_disable_connection_reuse :: bool
  cf_record_task_metrics :: bool
  cf_pool_idle_timeout_secs :: u64
  cf_checker_number :: u16
  cf_total_checkers :: u16
  cf_failure_retries :: u16
  cf_thread_cpu_scale_factor :: usize
  cf_http_checker_dns_nameservers :: "string list option"
  cf_redis_timeouts_ms :: u64
  cf_enable_metrics :: bool
  cf_redis_readonly :: bool
  cf_webserver_port :: u16
  cf_disable_asserts :: bool
  cf_response_capture_enabled :: bool
  cf_assertion_complexity :: u32
  cf_max_assertion_ops :: u32

definition default_config :: Config where
  "default_config =
     \<lparr>cf_sentry_dsn = None, cf_sentry_env = None, cf_log_level = LevelWarn, cf_log_format = FormatAuto,
      cf_checker_concurrency = 200, cf_checker_parallel = False, cf_interface = None,
      cf_metrics = \<lparr>mc_statsd_addr = ''127.0.0.1:8126'', mc_default_tags = [], mc_hostname_tag = None\<rparr>,
      cf_results_kafka_cluster = [''127.0.0.1:9092''], cf_results_kafka_topic = ''uptime-results'',
      cf_kafka_config = default_kafka_config, cf_config_provider_mode = ProviderRedis,
      cf_checker_mode = CheckerReqwest, cf_producer_mode = ProducerKafka,
      cf_config_provider_redis_update_ms = 1000, cf_config_provider_redis_total_partitions = 128,
      cf_vector_batch_size = 10, cf_vector_batch_timeout_secs = 10,
      cf_vector_endpoint = ''http://localhost:8020'', cf_redis_enable_cluster = False,
      cf_retry_vector_errors_forever = False, cf_redis_host = ''redis://127.0.0.1:6379'',
      cf_region = ''default'', cf_allow_internal_ips = False, cf_disable_connection_reuse = True,
      cf_record_task_metrics = False, cf_pool_idle_timeout_secs = 90, cf_checker_number = 0,
      cf_total_checkers = 1, cf_failure_retries = 0, cf_thread_cpu_scale_factor = 1,
      cf_http_checker_dns_nameservers = None, cf_redis_timeouts_ms = 30000, cf_enable_metrics = False,
      cf_redis_readonly = False, cf_webserver_port = 12345, cf_disable_asserts = False,
      cf_response_capture_enabled = False, cf_assertion_complexity = 100, cf_max_assertion_ops = 16\<rparr>"

section \<open>Sources of a configuration\<close>

text \<open>
  A source of type \<open>'f\<close>: the serialised defaults, a file, the environment under a prefix, a single key; sources are
  merged, and a configuration is extracted from the result.
\<close>

record 'f config_lib =
  fg_defaults :: "Config \<Rightarrow> 'f"
  fg_yaml_file :: "string \<Rightarrow> 'f"
  fg_env_prefixed :: "string \<Rightarrow> 'f"
  fg_log_level :: "string \<Rightarrow> Level \<Rightarrow> 'f"
  fg_log_format :: "string \<Rightarrow> LogFormat \<Rightarrow> 'f"
  fg_merge :: "'f \<Rightarrow> 'f \<Rightarrow> 'f"
  fg_extract :: "'f \<Rightarrow> string + Config"

record CliApp =
  app_config :: "string option"
  app_log_level :: "Level option"
  app_log_format :: "LogFormat option"

definition config_sources :: "'f config_lib \<Rightarrow> CliApp \<Rightarrow> 'f" where
  "config_sources lib app =
     (let builder = fg_defaults lib default_config;
          builder = (case app_config app of
                       Some path \<Rightarrow> fg_merge lib builder (fg_yaml_file lib path) | None \<Rightarrow> builder);
          builder = fg_merge lib builder (fg_env_prefixed lib ''UPTIME_CHECKER_'');
          builder = (case app_log_level app of
                       Some l \<Rightarrow> fg_merge lib builder (fg_log_level lib ''log_level'' l) | None \<Rightarrow> builder);
          builder = (case app_log_format app of
                       Some f \<Rightarrow> fg_merge lib builder (fg_log_format lib ''log_format'' f) | None \<Rightarrow> builder)
      in builder)"

definition extract_config :: "'f config_lib \<Rightarrow> CliApp \<Rightarrow> string + Config" where
  "extract_config lib app = fg_extract lib (config_sources lib app)"

section \<open>Name servers\<close>

text \<open>The white space of the standard library's \<open>trim\<close>, as UTF-8 byte sequences.\<close>

definition whitespace :: "string list" where
  "whitespace = map (map char_of)
     ([[9], [10], [11], [12], [13], [32], [194, 133], [194, 160], [225, 154, 128]]
       @ map (\<lambda>n. [226, 128, 128 + n]) [0..<11]
       @ [[226, 128, 168], [226, 128, 169], [226, 128, 175], [226, 129, 159], [227, 128, 128 :: nat]])"

definition starts_with :: "string \<Rightarrow> string \<Rightarrow> bool" where
  "starts_with p s = (take (length p) s = p)"

fun drop_seqs :: "nat \<Rightarrow> string list \<Rightarrow> string \<Rightarrow> string" where
  "drop_seqs 0 ps s = s"
| "drop_seqs (Suc n) ps s =
     (case filter (\<lambda>p. starts_with p s) ps of
        [] \<Rightarrow> s
      | p # _ \<Rightarrow> drop_seqs n ps (drop (length p) s))"

text \<open>Every round drops a byte, so the length of the string is enough rounds.\<close>

definition trim :: "string \<Rightarrow> string" where
  "trim s =
     (let s = drop_seqs (length s) whitespace s
      in rev (drop_seqs (length s) (map rev whitespace) (rev s)))"

fun split_on :: "char \<Rightarrow> string \<Rightarrow> string list" where
  "split_on c [] = [[]]"
| "split_on c (x # xs) =
     (if x = c then [] # split_on c xs
      else case split_on c xs of [] \<Rightarrow> [[x]] | w # ws \<Rightarrow> (x # w) # ws)"

fun collect_results :: "('e + 'a) list \<Rightarrow> 'e + 'a list" where
  "collect_results [] = Inr []"
| "collect_results (r # rs) =
     (case r of
        Inl e \<Rightarrow> Inl e
      | Inr a \<Rightarrow> (case collect_results rs of Inl e \<Rightarrow> Inl e | Inr as \<Rightarrow> Inr (a # as)))"

definition deserialize_nameservers ::
  "(string \<Rightarrow> 'e + 'ip) \<Rightarrow> string option \<Rightarrow> 'e + 'ip list option" where
  "deserialize_nameservers ip_from_str s =
     (case s of
        None \<Rightarrow> Inr None
      | Some s \<Rightarrow>
          (if s = [] then Inr None
           else case collect_results (map (\<lambda>s. ip_from_str (trim s)) (split_on (CHR '','') s)) of
                  Inl e \<Rightarrow> Inl e
                | Inr ips \<Rightarrow> Inr (Some ips)))"

section \<open>Output\<close>

text \<open>
  The fields of the debug output of the Kafka settings; \<open>dbg\<close> renders an optional value.
\<close>

definition fmt_kafka_config ::
  "(string option \<Rightarrow> string) \<Rightarrow> (KafkaSecurityProtocol option \<Rightarrow> string) \<Rightarrow> KafkaConfig
     \<Rightarrow> string \<times> (string \<times> string) list" where
  "fmt_kafka_config dbg dbg_protocol c =
     (''KafkaConfig'',
      [(''security_protocol'', dbg_protocol (kc_security_protocol c)),
       (''ssl_ca_location'', dbg (kc_ssl_ca_location c)),
       (''ssl_cert_location'', dbg (kc_ssl_cert_location c)),
       (''ssl_key_location'', ''\"***redacted***\"''),
       (''sasl_mechanism'', dbg (kc_sasl_mechanism c)),
       (''sasl_username'', dbg (kc_sasl_username c)),
       (''sasl_password'', ''\"***redacted***\"'')])"

record LoggingConfig =
  lg_sentry_dsn :: "string option"
  lg_sentry_env :: "string option"
  lg_log_level :: Level
  lg_log_format :: LogFormat

definition logging_from_config :: "Config \<Rightarrow> LoggingConfig" where
  "logging_from_config c =
     \<lparr>lg_sentry_dsn = cf_sentry_dsn c, lg_sentry_env = cf_sentry_env c, lg_log_level = cf_log_level c,
      lg_log_format = cf_log_format c\<rparr>"

datatype log_layer = CompactLayer | PlainLayer | JsonLayer

definition log_layer_of :: "LogFormat \<Rightarrow> bool \<Rightarrow> log_layer" where
  "log_layer_of log_format user_attended =
     (case (log_format, user_attended) of
        (FormatAuto, True) \<Rightarrow> CompactLayer
      | (FormatPretty, _) \<Rightarrow> CompactLayer
      | (FormatAuto, False) \<Rightarrow> PlainLayer
      | (FormatSimplified, _) \<Rightarrow> PlainLayer
      | (FormatJson, _) \<Rightarrow> JsonLayer)"

section \<open>Properties\<close>

text \<open>The secrets do not influence the debug output.\<close>

lemma secrets_redacted:
  "fmt_kafka_config dbg dbg_protocol (c\<lparr>kc_ssl_key_location := k, kc_sasl_password := p\<rparr>)
     = fmt_kafka_config dbg dbg_protocol c"
  by (simp add: fmt_kafka_config_def)

lemma split_on_not_empty [simp]: "split_on c s \<noteq> []"
  by (induction c s rule: split_on.induct) (auto split: list.splits)

lemma split_on_word: "c \<notin> set w \<Longrightarrow> split_on c w = [w]"
  by (induction w) auto

lemma split_on_append: "c \<notin> set w \<Longrightarrow> split_on c (w @ c # s) = w # split_on c s"
  by (induction w) auto

fun join :: "char \<Rightarrow> string list \<Rightarrow> string" where
  "join c [] = []"
| "join c [w] = w"
| "join c (w # ws) = w @ c # join c ws"

lemma split_join:
  "ws \<noteq> [] \<Longrightarrow> \<forall>w\<in>set ws. c \<notin> set w \<Longrightarrow> split_on c (join c ws) = ws"
  by (induction c ws rule: join.induct) (auto simp: split_on_word split_on_append)

lemma collect_results_Inr: "collect_results (map Inr xs) = Inr xs"
  by (induction xs) auto

lemma collect_results_eq_Inr: "collect_results rs = Inr xs \<longleftrightarrow> rs = map Inr xs"
proof (induction rs arbitrary: xs)
  case (Cons r rs)
  show ?case
  proof (cases r)
    case (Inr a)
    then show ?thesis using Cons.IH by (cases xs; cases "collect_results rs") auto
  qed (cases xs; simp)
qed (simp add: eq_commute)

text \<open>The characters of the textual form of an address.\<close>

definition address_char :: "char \<Rightarrow> bool" where
  "address_char c = (c \<in> set ''0123456789abcdefABCDEF.:'')"

lemma whitespace_starts: "list_all (\<lambda>p. p \<noteq> [] \<and> \<not> address_char (hd p)) whitespace"
  by code_simp

lemma whitespace_ends: "list_all (\<lambda>p. p \<noteq> [] \<and> \<not> address_char (hd p)) (map rev whitespace)"
  by code_simp

lemma space_starts: "filter (\<lambda>p. hd p = CHR '' '') whitespace = ['' '']"
  by code_simp

lemma space_ends: "filter (\<lambda>p. hd p = CHR '' '') (map rev whitespace) = ['' '']"
  by code_simp

lemma filter_starts_hd:
  "list_all (\<lambda>p. p \<noteq> []) ps \<Longrightarrow>
     filter (\<lambda>p. starts_with p (x # s)) ps
       = filter (\<lambda>p. starts_with p (x # s)) (filter (\<lambda>p. hd p = x) ps)"
proof -
  assume "list_all (\<lambda>p. p \<noteq> []) ps"
  then have "starts_with p (x # s) = (hd p = x \<and> starts_with p (x # s))" if "p \<in> set ps" for p
    using that by (cases p) (auto simp: starts_with_def list_all_iff)
  then show ?thesis unfolding filter_filter by (intro filter_cong) auto
qed

lemma drop_seqs_spaces:
  assumes "list_all (\<lambda>p. p \<noteq> [] \<and> \<not> address_char (hd p)) ps"
    "filter (\<lambda>p. hd p = CHR '' '') ps = ['' '']" "t \<noteq> []" "address_char (hd t)" "m \<le> n"
  shows "drop_seqs n ps (replicate m (CHR '' '') @ t) = t"
proof -
  have ne: "list_all (\<lambda>p. p \<noteq> []) ps" using assms(1) by (simp add: list_all_iff)
  obtain x xs where t: "t = x # xs" using assms(3) by (cases t) auto
  have none: "filter (\<lambda>p. starts_with p t) ps = []"
    using assms(1,4) unfolding t filter_starts_hd [OF ne] by (auto simp: filter_empty_conv list_all_iff)
  show ?thesis
    using assms(5)
  proof (induction n arbitrary: m)
    case (Suc n)
    show ?case
    proof (cases m)
      case 0
      with none show ?thesis by simp
    next
      case (Suc k)
      have "filter (\<lambda>p. starts_with p (CHR '' '' # replicate k (CHR '' '') @ t)) ps = ['' '']"
        unfolding filter_starts_hd [OF ne] assms(2) by (simp add: starts_with_def)
      with Suc.IH [of k] \<open>m \<le> Suc n\<close> \<open>m = Suc k\<close> show ?thesis by simp
    qed
  qed simp
qed

lemma trim_padded:
  assumes "t \<noteq> []" "list_all address_char t"
  shows "trim (replicate m (CHR '' '') @ t @ replicate n (CHR '' '')) = t"
proof -
  have "hd t \<in> set t" "hd (rev t) \<in> set t" using assms(1) by (auto simp: hd_rev)
  with assms(2) have ends: "address_char (hd t)" "address_char (hd (rev t))"
    by (auto simp: list_all_iff)
  have "drop_seqs k whitespace (replicate m (CHR '' '') @ t @ replicate n (CHR '' ''))
      = t @ replicate n (CHR '' '')" if "m \<le> k" for k
    using drop_seqs_spaces [OF whitespace_starts space_starts, of "t @ replicate n (CHR '' '')" m k]
      assms(1) ends(1) that by simp
  moreover have "drop_seqs k (map rev whitespace) (rev (t @ replicate n (CHR '' ''))) = rev t" if "n \<le> k" for k
    using drop_seqs_spaces [OF whitespace_ends space_ends, of "rev t" n k] assms(1) ends(2) that
    by simp
  ultimately show ?thesis by (simp add: trim_def Let_def)
qed

text \<open>
  A list of addresses written with commas, each with any number of spaces before and after it, is read back
  as exactly these addresses, for every parser of addresses that reads the text an address prints; the empty text and a missing
  value are no name servers.
\<close>

theorem nameservers_roundtrip:
  assumes "\<And>ip. ip_from_str (show_ip ip) = Inr ip"
    and "\<And>ip. show_ip ip \<noteq> [] \<and> list_all address_char (show_ip ip)" and "padded \<noteq> []"
  shows "deserialize_nameservers ip_from_str (Some (join (CHR '','')
      (map (\<lambda>(m, ip, n). replicate m (CHR '' '') @ show_ip ip @ replicate n (CHR '' '')) padded)))
    = Inr (Some (map (\<lambda>(m, ip, n). ip) padded)) \<and>
    deserialize_nameservers ip_from_str (Some []) = Inr None \<and>
    deserialize_nameservers ip_from_str None = Inr None"
proof -
  let ?pad = "\<lambda>(m, ip, n). replicate m (CHR '' '') @ show_ip ip @ replicate n (CHR '' '')"
  have addr: "show_ip ip \<noteq> []" "list_all address_char (show_ip ip)" for ip using assms(2) by blast+
  have "\<not> address_char (CHR '','')" by (simp add: address_char_def)
  then have comma: "CHR '','' \<notin> set (show_ip ip)" for ip using addr(2) [of ip] by (auto simp: list_all_iff)
  have nonempty: "?pad x \<noteq> []" for x using addr(1) by (simp split: prod.splits)
  have join: "split_on (CHR '','') (join (CHR '','') (map ?pad padded)) = map ?pad padded"
    using assms(3) comma by (intro split_join) auto
  have "join (CHR '','') (map ?pad padded) \<noteq> []"
    using assms(3) nonempty by (cases padded; cases "tl padded") auto
  moreover have "map (\<lambda>s. ip_from_str (trim s)) (map ?pad padded) = map Inr (map (\<lambda>(m, ip, n). ip) padded)"
    by (auto simp: trim_padded addr assms(1))
  ultimately show ?thesis
    by (simp add: deserialize_nameservers_def join collect_results_Inr del: map_map)
qed

theorem nameservers_roundtrip_witness:
  "deserialize_nameservers (\<lambda>s. if s = ''::1'' then Inr () else Inl ''invalid IP address syntax'')
     (Some ''::1, ::1 '') = Inr (Some [(), ()])"
  using nameservers_roundtrip [of "\<lambda>s. if s = ''::1'' then Inr () else Inl ''invalid IP address syntax''"
      "\<lambda>_. ''::1''" "[(0, (), 0), (1, (), 1)]"]
  by (simp add: address_char_def)

end
