(* ===== verification/Redis.thy ===== *)
theory Redis
  imports CheckConfigs RustStd
begin

text \<open>
  The Redis client of the program (\<open>src/src/redis.rs\<close>).  The server and the client library are the record
  \<open>redis_lib\<close>: every command takes the state \<open>'db\<close> of the server and the connection and answers with an
  error or a value.  The decoding of MessagePack payloads is an argument.
\<close>

section \<open>The library\<close>

type_synonym RedisError = string
type_synonym bytes = "u8 list"

text \<open>
  \<open>rd_take\<close> is the atomic pipeline that reads the values of a hash and deletes it.  A client of type \<open>'cl\<close> connects,
  with timeouts or without, to a connection of type \<open>'cn\<close>.
\<close>

record ('cl, 'cn, 'db) redis_lib =
  rd_open_cluster :: "string list \<Rightarrow> RedisError + 'cl"
  rd_open_single :: "string \<Rightarrow> RedisError + 'cl"
  rd_connect_cluster :: "'cl \<Rightarrow> u64 option \<Rightarrow> 'db \<Rightarrow> (RedisError + 'cn) \<times> 'db"
  rd_connect_single :: "'cl \<Rightarrow> u64 option \<Rightarrow> 'db \<Rightarrow> (RedisError + 'cn) \<times> 'db"
  rd_get :: "'cn \<Rightarrow> string \<Rightarrow> 'db \<Rightarrow> (RedisError + string option) \<times> 'db"
  rd_set_ex :: "'cn \<Rightarrow> string \<Rightarrow> string \<Rightarrow> nat \<Rightarrow> 'db \<Rightarrow> (RedisError + unit) \<times> 'db"
  rd_hvals :: "'cn \<Rightarrow> string \<Rightarrow> 'db \<Rightarrow> (RedisError + bytes list) \<times> 'db"
  rd_take :: "'cn \<Rightarrow> string \<Rightarrow> 'db \<Rightarrow> (RedisError + bytes list) \<times> 'db"
  rd_hget :: "'cn \<Rightarrow> string \<Rightarrow> string list \<Rightarrow> 'db \<Rightarrow> (RedisError + bytes list) \<times> 'db"

section \<open>Updates of configurations\<close>

datatype ConfigUpdateAction = ActionUpsert | ActionDelete

record ConfigUpdate =
  cu_action :: ConfigUpdateAction
  cu_subscription_id :: u128

section \<open>Operations\<close>

definition WATERMARK_EXPIRY :: nat where
  "WATERMARK_EXPIRY = 24 * 60 * 60"

datatype 'cn RedisAsyncConnection = ClusterConnection 'cn | SingleConnection 'cn

fun connection :: "'cn RedisAsyncConnection \<Rightarrow> 'cn" where
  "connection (ClusterConnection conn) = conn"
| "connection (SingleConnection conn) = conn"

datatype 'cn RedisOperations = ReadOps "'cn RedisAsyncConnection" | ReadWriteOps "'cn RedisAsyncConnection"

fun get_readwrite_conn :: "'cn RedisOperations \<Rightarrow> 'cn option" where
  "get_readwrite_conn (ReadOps _) = None"
| "get_readwrite_conn (ReadWriteOps c) = Some (connection c)"

fun get_conn :: "'cn RedisOperations \<Rightarrow> 'cn" where
  "get_conn (ReadOps c) = connection c"
| "get_conn (ReadWriteOps c) = connection c"

fun ops_is_readonly :: "'cn RedisOperations \<Rightarrow> bool" where
  "ops_is_readonly (ReadOps _) = True"
| "ops_is_readonly (ReadWriteOps _) = False"

definition read_watermark ::
  "('cl, 'cn, 'db) redis_lib \<Rightarrow> 'cn RedisOperations \<Rightarrow> string \<Rightarrow> 'db \<Rightarrow> (RedisError + i64 option) \<times> 'db" where
  "read_watermark lib ops progress_key db =
     (case rd_get lib (get_conn ops) progress_key db of
        (Inl e, db) \<Rightarrow> (Inl e, db)
      | (Inr None, db) \<Rightarrow> (Inr None, db)
      | (Inr (Some v), db) \<Rightarrow> (Inr (case parse_i64 v of Inl _ \<Rightarrow> None | Inr i \<Rightarrow> Some i), db))"

definition write_watermark ::
  "('cl, 'cn, 'db) redis_lib \<Rightarrow> 'cn RedisOperations \<Rightarrow> string \<Rightarrow> i64 \<Rightarrow> 'db \<Rightarrow> (RedisError + unit) \<times> 'db" where
  "write_watermark lib ops progress_key progress db =
     rd_set_ex lib (get_conn ops) progress_key (show_int progress) WATERMARK_EXPIRY db"

definition read_configs ::
  "('cl, 'cn, 'db) redis_lib \<Rightarrow> 'cn RedisOperations \<Rightarrow> string \<Rightarrow> 'db \<Rightarrow> (RedisError + bytes list) \<times> 'db" where
  "read_configs lib ops config_key db = rd_hvals lib (get_conn ops) config_key db"

text \<open>The split of the decoded updates, in the order in which they were read.\<close>

fun split_updates :: "ConfigUpdate list \<Rightarrow> ConfigUpdate list \<times> ConfigUpdate list \<Rightarrow> ConfigUpdate list \<times> ConfigUpdate list" where
  "split_updates [] (upserts, deletes) = (upserts, deletes)"
| "split_updates (update # us) (upserts, deletes) =
     (case cu_action update of
        ActionUpsert \<Rightarrow> split_updates us (upserts @ [update], deletes)
      | ActionDelete \<Rightarrow> split_updates us (upserts, deletes @ [update]))"

text \<open>\<open>None\<close> is the panic of a client in read-only mode.  Payloads that do not decode are skipped.\<close>

definition consume_config_updates ::
  "('cl, 'cn, 'db) redis_lib \<Rightarrow> (bytes \<Rightarrow> ConfigUpdate option) \<Rightarrow> 'cn RedisOperations \<Rightarrow> string \<Rightarrow> 'db
     \<Rightarrow> ((RedisError + ConfigUpdate list \<times> ConfigUpdate list) \<times> 'db) option" where
  "consume_config_updates lib update_from_slice ops update_key db =
     (case get_readwrite_conn ops of
        None \<Rightarrow> None
      | Some conn \<Rightarrow>
          Some (case rd_take lib conn update_key db of
                  (Inl e, db) \<Rightarrow> (Inl e, db)
                | (Inr payloads, db) \<Rightarrow> (Inr (split_updates (List.map_filter update_from_slice payloads) ([], [])), db)))"

definition get_config_key_payloads ::
  "('cl, 'cn, 'db) redis_lib \<Rightarrow> 'cn RedisOperations \<Rightarrow> string \<Rightarrow> string list \<Rightarrow> 'db
     \<Rightarrow> (RedisError + bytes list) \<times> 'db" where
  "get_config_key_payloads lib ops config_key config_keys db =
     rd_hget lib (get_conn ops) config_key config_keys db"

section \<open>Clients\<close>

datatype 'cl ClientKind = ClusterClient 'cl | SingleClient 'cl

record 'cl RedisClient =
  rcl_client :: "'cl ClientKind"
  rcl_timeout_ms :: u64
  rcl_readonly :: bool

definition build_redis_client ::
  "('cl, 'cn, 'db) redis_lib \<Rightarrow> string \<Rightarrow> bool \<Rightarrow> u64 \<Rightarrow> bool \<Rightarrow> RedisError + 'cl RedisClient" where
  "build_redis_client lib redis_url enable_cluster timeout_ms readonly =
     (case (if enable_cluster
            then (case rd_open_cluster lib [redis_url] of Inl e \<Rightarrow> Inl e | Inr c \<Rightarrow> Inr (ClusterClient c))
            else (case rd_open_single lib redis_url of Inl e \<Rightarrow> Inl e | Inr c \<Rightarrow> Inr (SingleClient c))) of
        Inl e \<Rightarrow> Inl e
      | Inr client \<Rightarrow>
          Inr \<lparr>rcl_client = client, rcl_timeout_ms = timeout_ms, rcl_readonly = readonly\<rparr>)"

definition to_ops :: "'cn RedisAsyncConnection \<Rightarrow> bool \<Rightarrow> 'cn RedisOperations" where
  "to_ops conn readonly = (if readonly then ReadOps conn else ReadWriteOps conn)"

definition get_async_connection ::
  "('cl, 'cn, 'db) redis_lib \<Rightarrow> 'cl RedisClient \<Rightarrow> 'db \<Rightarrow> (RedisError + 'cn RedisOperations) \<times> 'db" where
  "get_async_connection lib c db =
     (let timeout = (if 0 < rcl_timeout_ms c then Some (rcl_timeout_ms c) else None)
      in case rcl_client c of
           ClusterClient client \<Rightarrow>
             (case rd_connect_cluster lib client timeout db of
                (Inl e, db) \<Rightarrow> (Inl e, db)
              | (Inr conn, db) \<Rightarrow> (Inr (to_ops (ClusterConnection conn) (rcl_readonly c)), db))
         | SingleClient client \<Rightarrow>
             (case rd_connect_single lib client timeout db of
                (Inl e, db) \<Rightarrow> (Inl e, db)
              | (Inr conn, db) \<Rightarrow> (Inr (to_ops (SingleConnection conn) (rcl_readonly c)), db)))"

lemma split_updates_filter:
  "split_updates us (a, b) = (a @ filter (\<lambda>u. cu_action u = ActionUpsert) us,
                              b @ filter (\<lambda>u. cu_action u = ActionDelete) us)"
  by (induction us arbitrary: a b) (auto split: ConfigUpdateAction.splits)

lemma connection_readonly:
  "get_async_connection lib c db = (Inr ops, db') \<Longrightarrow> ops_is_readonly ops = rcl_readonly c"
  by (auto simp: get_async_connection_def to_ops_def Let_def split: ClientKind.splits prod.splits sum.splits if_splits)

lemma readwrite_conn: "get_readwrite_conn ops = (if ops_is_readonly ops then None else Some (get_conn ops))"
  by (cases ops) auto

section \<open>The watermark in the store\<close>

text \<open>
  What is relied on: a value that was set with a positive expiry is what a read of the key, before it expires and when it
  succeeds, returns; connections do not matter.
\<close>

definition set_get_law :: "('cl, 'cn, 'db) redis_lib \<Rightarrow> bool" where
  "set_get_law lib \<longleftrightarrow>
     (\<forall>conn conn' k v n db db' x.
        0 < n \<longrightarrow> rd_set_ex lib conn k v n db = (Inr (), db') \<longrightarrow>
        fst (rd_get lib conn' k db') = Inr x \<longrightarrow> x = Some v)"

lemma set_getD:
  "set_get_law lib \<Longrightarrow> rd_set_ex lib conn k v n db = (Inr (), db') \<Longrightarrow> 0 < n \<Longrightarrow>
     rd_get lib conn' k db' = (Inr x, db'') \<Longrightarrow> x = Some v"
  unfolding set_get_law_def by (metis fst_conv)

text \<open>
  The watermark that a checker wrote is the one that is read back, by the same or another checker, in read-only mode
  or not, for every 64-bit value: its decimal text is parsed to the value that was written.
\<close>

lemma watermark_read_back:
  assumes "set_get_law lib" and "i64_min \<le> p" "p \<le> i64_max"
    and "write_watermark lib ops k p db = (Inr (), db')"
    and "read_watermark lib ops' k db' = (Inr w, db'')"
  shows "w = Some p"
proof -
  from assms(5) obtain x where x: "rd_get lib (get_conn ops') k db' = (Inr x, db'')"
    by (auto simp: read_watermark_def split: prod.splits sum.splits option.splits)
  have "0 < WATERMARK_EXPIRY" by (simp add: WATERMARK_EXPIRY_def)
  with assms(4) have "x = Some (show_int p)"
    unfolding write_watermark_def by (intro set_getD [OF assms(1) _ _ x])
  with assms(2,3,5) x show ?thesis by (simp add: read_watermark_def parse_i64_show_int)
qed

text \<open>A server over a map from keys to values and one from keys to hashes.\<close>

record plain_db =
  pd_strings :: "string \<Rightarrow> string option"
  pd_hashes :: "string \<Rightarrow> (string \<times> bytes) list"

definition plain_redis :: "(unit, unit, plain_db) redis_lib" where
  "plain_redis =
     \<lparr>rd_open_cluster = \<lambda>_. Inr (), rd_open_single = \<lambda>_. Inr (),
      rd_connect_cluster = \<lambda>_ _ db. (Inr (), db), rd_connect_single = \<lambda>_ _ db. (Inr (), db),
      rd_get = \<lambda>_ k db. (Inr (pd_strings db k), db),
      rd_set_ex = \<lambda>_ k v n db. (Inr (), db\<lparr>pd_strings := (pd_strings db)(k \<mapsto> v)\<rparr>),
      rd_hvals = \<lambda>_ k db. (Inr (map snd (pd_hashes db k)), db),
      rd_take = \<lambda>_ k db. (Inr (map snd (pd_hashes db k)), db\<lparr>pd_hashes := (pd_hashes db)(k := [])\<rparr>),
      rd_hget = \<lambda>_ k fs db. (Inr (map (\<lambda>f. case map_of (pd_hashes db k) f of None \<Rightarrow> [] | Some v \<Rightarrow> v) fs), db)\<rparr>"

definition empty_db :: plain_db where
  "empty_db = \<lparr>pd_strings = Map.empty, pd_hashes = \<lambda>_. []\<rparr>"

lemma plain_set_get_law: "set_get_law plain_redis"
  by (auto simp: set_get_law_def plain_redis_def)

theorem watermark_read_back_witness:
  "\<exists>w db'. write_watermark plain_redis (ReadWriteOps (SingleConnection ())) ''k'' (- 1700000000000000000) empty_db
       = (Inr (), db') \<and>
     read_watermark plain_redis (ReadOps (ClusterConnection ())) ''k'' db' = (Inr w, db') \<and>
     w = Some (- 1700000000000000000)"
proof -
  let ?ops = "ReadWriteOps (SingleConnection ())" let ?ops' = "ReadOps (ClusterConnection ())"
  obtain db' where db': "write_watermark plain_redis ?ops ''k'' (- 1700000000000000000) empty_db = (Inr (), db')"
    by (simp add: write_watermark_def plain_redis_def)
  obtain w where w: "read_watermark plain_redis ?ops' ''k'' db' = (Inr w, db')"
    by (cases "pd_strings db' ''k''") (simp_all add: read_watermark_def plain_redis_def)
  have "i64_min \<le> - 1700000000000000000" "- 1700000000000000000 \<le> i64_max"
    by (simp_all add: i64_min_def i64_max_def)
  from watermark_read_back [OF plain_set_get_law this db' w] db' w show ?thesis by blast
qed

end
