(* ===== verification/Manager.thy ===== *)
theory Manager
  imports ConfigStore CheckExecutor AppConfig Redis
begin

text \<open>
  The manager (\<open>src/src/manager.rs\<close>): how the checker, the executor and the producer are set up from the
  configuration, the services it keeps per part, and its shutdown.

  A service is shared: the manager holds one reference, and \<open>ps_refs\<close> counts the references that others
  hold.  The order in which a hash set is read is the argument \<open>ord\<close>.
\<close>

section \<open>Services of a part\<close>

record 'cl PartitionedService =
  ps_partition :: u16
  ps_config :: Config
  ps_config_store :: ConfigStore
  ps_progress_key :: string
  ps_client :: "'cl RedisClient"
  ps_cancelled :: bool
  ps_refs :: nat

definition build_progress_key :: "u16 \<Rightarrow> string" where
  "build_progress_key part = ''scheduler_process::'' @ show_nat (unat part)"

definition start_service ::
  "('cl, 'cn, 'db) redis_lib \<Rightarrow> Config \<Rightarrow> u16 \<Rightarrow> 'cl PartitionedService option" where
  "start_service lib conf part =
     (case build_redis_client lib (cf_redis_host conf) (cf_redis_enable_cluster conf)
             (cf_redis_timeouts_ms conf) (cf_redis_readonly conf) of
        Inl _ \<Rightarrow> None
      | Inr client \<Rightarrow>
          Some \<lparr>ps_partition = part, ps_config = conf, ps_config_store = new_store,
                ps_progress_key = build_progress_key part, ps_client = client,
                ps_cancelled = False, ps_refs = 0\<rparr>)"

definition stop_service :: "'cl PartitionedService \<Rightarrow> 'cl PartitionedService" where
  "stop_service svc = svc\<lparr>ps_cancelled := True\<rparr>"

section \<open>The manager\<close>

record 'cl Manager =
  mg_config :: Config
  mg_services :: "u16 \<Rightarrow> 'cl PartitionedService option"
  mg_shutdown :: "'cl PartitionedService list" \<comment> \<open>the services sent to be stopped\<close>
  mg_shutdown_open :: bool

definition new_manager :: "Config \<Rightarrow> 'cl Manager" where
  "new_manager conf =
     \<lparr>mg_config = conf, mg_services = Map.empty, mg_shutdown = [], mg_shutdown_open = True\<rparr>"

text \<open>A clone of the reference to the service; it panics for an unknown partition.\<close>

definition get_service :: "u16 \<Rightarrow> 'cl Manager \<Rightarrow> ('cl PartitionedService \<times> 'cl Manager) option" where
  "get_service part m =
     (case mg_services m part of
        None \<Rightarrow> None
      | Some svc \<Rightarrow>
          (let svc = svc\<lparr>ps_refs := Suc (ps_refs svc)\<rparr>
           in Some (svc, m\<lparr>mg_services := (mg_services m)(part \<mapsto> svc)\<rparr>)))"

text \<open>The end of the life of such a clone.\<close>

definition drop_service :: "u16 \<Rightarrow> 'cl Manager \<Rightarrow> 'cl Manager" where
  "drop_service part m =
     (case mg_services m part of
        None \<Rightarrow> m
      | Some svc \<Rightarrow> m\<lparr>mg_services := (mg_services m)(part \<mapsto> svc\<lparr>ps_refs := ps_refs svc - 1\<rparr>)\<rparr>)"

definition has_service :: "u16 \<Rightarrow> 'cl Manager \<Rightarrow> bool" where
  "has_service part m = (mg_services m part \<noteq> None)"

definition register_partition ::
  "('cl, 'cn, 'db) redis_lib \<Rightarrow> u16 \<Rightarrow> 'cl Manager \<Rightarrow> 'cl Manager option" where
  "register_partition lib part m =
     (case mg_services m part of
        Some _ \<Rightarrow> Some m
      | None \<Rightarrow>
          (case start_service lib (mg_config m) part of
             None \<Rightarrow> None
           | Some service \<Rightarrow> Some (m\<lparr>mg_services := (mg_services m)(part \<mapsto> service)\<rparr>)))"

text \<open>It panics when others still refer to the service, or when nobody waits for the services to stop.\<close>

definition unregister_partition :: "u16 \<Rightarrow> 'cl Manager \<Rightarrow> 'cl Manager option" where
  "unregister_partition part m =
     (case mg_services m part of
        None \<Rightarrow> Some m
      | Some service \<Rightarrow>
          (let m = m\<lparr>mg_services := (mg_services m)(part := None)\<rparr>
           in if ps_refs service \<noteq> 0 then None
              else if \<not> mg_shutdown_open m then None
              else Some (m\<lparr>mg_shutdown := mg_shutdown m @ [service]\<rparr>)))"

fun for_each_partition :: "(u16 \<Rightarrow> 'm \<Rightarrow> 'm option) \<Rightarrow> u16 list \<Rightarrow> 'm \<Rightarrow> 'm option" where
  "for_each_partition f [] m = Some m"
| "for_each_partition f (p # ps) m = (case f p m of None \<Rightarrow> None | Some m' \<Rightarrow> for_each_partition f ps m')"

definition update_partitions ::
  "('cl, 'cn, 'db) redis_lib \<Rightarrow> (u16 set \<Rightarrow> u16 list) \<Rightarrow> u16 set \<Rightarrow> 'cl Manager \<Rightarrow> 'cl Manager option" where
  "update_partitions lib ord new_partitions m =
     (let known_partitions = dom (mg_services m)
      in case for_each_partition unregister_partition (ord (known_partitions - new_partitions)) m of
           None \<Rightarrow> None
         | Some m' \<Rightarrow>
             for_each_partition (register_partition lib) (ord (new_partitions - known_partitions)) m')"

section \<open>Start and stop\<close>

definition checker_of_config :: "Config \<Rightarrow> 'c \<Rightarrow> 'c HttpChecker" where
  "checker_of_config conf cache =
     (case cf_checker_mode conf of
        CheckerReqwest \<Rightarrow>
          HReqwest (new_reqwest_checker (\<not> cf_allow_internal_ips conf) (cf_disable_connection_reuse conf)
            (seconds (uint (cf_pool_idle_timeout_secs conf))) (cf_http_checker_dns_nameservers conf)
            (cf_interface conf) cache (cf_disable_asserts conf) (cf_response_capture_enabled conf)
            (cf_assertion_complexity conf) (cf_max_assertion_ops conf)))"

definition executor_config_of :: "Config \<Rightarrow> ExecutorConfig" where
  "executor_config_of conf =
     \<lparr>ec_concurrency = unat (cf_checker_concurrency conf), ec_checker_parallel = cf_checker_parallel conf,
      ec_failure_retries = cf_failure_retries conf, ec_region = cf_region conf,
      ec_record_task_metrics = cf_record_task_metrics conf\<rparr>"

definition insert_override ::
  "string \<Rightarrow> string option \<Rightarrow> (string \<Rightarrow> string option) \<Rightarrow> (string \<Rightarrow> string option)" where
  "insert_override key v m = (case v of None \<Rightarrow> m | Some v \<Rightarrow> m(key \<mapsto> v))"

definition kafka_overrides :: "KafkaConfig \<Rightarrow> (string \<Rightarrow> string option)" where
  "kafka_overrides c =
     (let m = [''compression.type'' \<mapsto> ''lz4''];
          m = insert_override ''ssl.ca.location'' (kc_ssl_ca_location c) m;
          m = insert_override ''ssl.certificate.location'' (kc_ssl_cert_location c) m;
          m = insert_override ''ssl.key.location'' (kc_ssl_key_location c) m;
          m = insert_override ''security.protocol'' (map_option protocol_to_string (kc_security_protocol c)) m;
          m = insert_override ''sasl.mechanism'' (kc_sasl_mechanism c) m;
          m = insert_override ''sasl.username'' (kc_sasl_username c) m;
          m = insert_override ''sasl.password'' (kc_sasl_password c) m
      in m)"

datatype producer_setup =
    VectorSetup string VectorRequestWorkerConfig
  | KafkaSetup string "string list" "string \<Rightarrow> string option"

definition producer_of_config :: "Config \<Rightarrow> producer_setup" where
  "producer_of_config conf =
     (case cf_producer_mode conf of
        ProducerVector \<Rightarrow>
          VectorSetup (cf_results_kafka_topic conf)
            \<lparr>vector_batch_size = unat (cf_vector_batch_size conf),
             vector_batch_timeout_secs = cf_vector_batch_timeout_secs conf,
             vector_endpoint = cf_vector_endpoint conf,
             retry_vector_errors_forever = cf_retry_vector_errors_forever conf,
             vector_region = cf_region conf\<rparr>
      | ProducerKafka \<Rightarrow>
          KafkaSetup (cf_results_kafka_topic conf) (cf_results_kafka_cluster conf)
            (kafka_overrides (cf_kafka_config conf)))"

text \<open>The tasks of a running manager: how each ends when it is awaited.\<close>

record ManagerHandle =
  mh_endpoint :: "string + unit"
  mh_consumer :: "string + unit"
  mh_results_worker :: "string + unit"
  mh_services :: "string + unit"
  mh_executor :: "string + unit"

fun await_all :: "(string + unit) list \<Rightarrow> string + unit" where
  "await_all [] = Inr ()"
| "await_all (t # ts) = (case t of Inl e \<Rightarrow> Inl e | Inr _ \<Rightarrow> await_all ts)"

definition stop_manager :: "ManagerHandle \<Rightarrow> string + unit" where
  "stop_manager h = await_all [mh_endpoint h, mh_consumer h, mh_results_worker h, mh_services h, mh_executor h]"

section \<open>Changing the partitions\<close>

definition iteration_order :: "('a set \<Rightarrow> 'a list) \<Rightarrow> bool" where
  "iteration_order ord \<longleftrightarrow> (\<forall>A. finite A \<longrightarrow> set (ord A) = A \<and> distinct (ord A))"

lemma iteration_orderD:
  fixes A :: "u16 set" shows "iteration_order ord \<Longrightarrow> set (ord A) = A \<and> distinct (ord A)"
  by (simp add: iteration_order_def)

lemma sorted_iteration_order: "iteration_order (sorted_list_of_set :: u16 set \<Rightarrow> u16 list)"
  by (simp add: iteration_order_def)

text \<open>Nobody but the manager refers to the services, and they can be started and stopped.\<close>

definition manager_ok :: "('cl, 'cn, 'db) redis_lib \<Rightarrow> 'cl Manager \<Rightarrow> bool" where
  "manager_ok lib m \<longleftrightarrow>
     mg_shutdown_open m \<and> (\<exists>svc. start_service lib (mg_config m) 0 = Some svc) \<and>
     (\<forall>p svc. mg_services m p = Some svc \<longrightarrow> ps_refs svc = 0)"

lemma start_service_any:
  "start_service lib conf p = Some svc \<Longrightarrow>
     start_service lib conf q = Some (svc\<lparr>ps_partition := q, ps_progress_key := build_progress_key q\<rparr>)"
  by (auto simp: start_service_def split: sum.splits)

lemma manager_ok_start:
  "manager_ok lib m \<Longrightarrow> \<exists>svc. start_service lib (mg_config m) p = Some svc"
  using start_service_any unfolding manager_ok_def by blast

lemma started_service:
  "start_service lib conf p = Some svc \<Longrightarrow>
     ps_refs svc = 0 \<and> ps_partition svc = p \<and> ps_config_store svc = new_store \<and>
     ps_progress_key svc = build_progress_key p \<and> \<not> ps_cancelled svc"
  by (auto simp: start_service_def split: sum.splits)

lemma get_service_known:
  "mg_services m p = Some svc \<Longrightarrow>
     get_service p m = Some (svc\<lparr>ps_refs := Suc (ps_refs svc)\<rparr>,
       m\<lparr>mg_services := (mg_services m)(p \<mapsto> svc\<lparr>ps_refs := Suc (ps_refs svc)\<rparr>)\<rparr>)"
  unfolding get_service_def Let_def by simp

lemma unregister_all:
  "distinct ps \<Longrightarrow> set ps \<subseteq> dom (mg_services m) \<Longrightarrow> mg_shutdown_open m \<Longrightarrow>
   \<forall>p\<in>set ps. ps_refs (the (mg_services m p)) = 0 \<Longrightarrow>
   for_each_partition unregister_partition ps m
     = Some (m\<lparr>mg_services := mg_services m |` (- set ps),
               mg_shutdown := mg_shutdown m @ map (\<lambda>p. the (mg_services m p)) ps\<rparr>)"
proof (induction ps arbitrary: m)
  case Nil
  then show ?case by simp
next
  case (Cons p ps)
  then obtain svc where svc: "mg_services m p = Some svc" by auto
  let ?m = "m\<lparr>mg_services := (mg_services m)(p := None), mg_shutdown := mg_shutdown m @ [svc]\<rparr>"
  have un: "unregister_partition p m = Some ?m"
    using Cons.prems(3,4) svc by (simp add: unregister_partition_def Let_def)
  have same: "mg_services ?m q = mg_services m q" if "q \<in> set ps" for q
    using that Cons.prems(1) by auto
  have "for_each_partition unregister_partition ps ?m
      = Some (?m\<lparr>mg_services := mg_services ?m |` (- set ps),
                 mg_shutdown := mg_shutdown ?m @ map (\<lambda>p. the (mg_services ?m p)) ps\<rparr>)"
    using Cons.prems same by (intro Cons.IH) auto
  moreover have "map (\<lambda>p. the (mg_services ?m p)) ps = map (\<lambda>p. the (mg_services m p)) ps"
    using same by simp
  moreover have "mg_services ?m |` (- set ps) = mg_services m |` (- set (p # ps))"
    by (auto simp: restrict_map_def)
  ultimately show ?case by (simp add: un svc)
qed

lemma unregister_stuck:
  "p \<in> set ps \<Longrightarrow> mg_services m p = Some svc \<Longrightarrow> ps_refs svc \<noteq> 0 \<Longrightarrow>
   for_each_partition unregister_partition ps m = None"
proof (induction ps arbitrary: m)
  case (Cons q ps)
  show ?case
  proof (cases "q = p")
    case True
    with Cons.prems show ?thesis by (simp add: unregister_partition_def)
  next
    case False
    show ?thesis
    proof (cases "unregister_partition q m")
      case (Some m')
      then have "mg_services m' p = Some svc"
        using Cons.prems(2) False by (auto simp: unregister_partition_def Let_def split: option.splits if_splits)
      with Cons.IH [of m'] Cons.prems False Some show ?thesis by simp
    qed simp
  qed
qed simp

lemma register_all:
  "distinct ps \<Longrightarrow> set ps \<inter> dom (mg_services m) = {} \<Longrightarrow>
   \<exists>svc. start_service lib (mg_config m) 0 = Some svc \<Longrightarrow>
   for_each_partition (register_partition lib) ps m
     = Some (m\<lparr>mg_services := mg_services m ++ (start_service lib (mg_config m) |` set ps)\<rparr>)"
proof (induction ps arbitrary: m)
  case Nil
  then show ?case by simp
next
  case (Cons p ps)
  then obtain svc where svc: "start_service lib (mg_config m) p = Some svc"
    using start_service_any by blast
  let ?m = "m\<lparr>mg_services := (mg_services m)(p \<mapsto> svc)\<rparr>"
  have none: "mg_services m p = None" using Cons.prems(2) by auto
  have reg: "register_partition lib p m = Some ?m" by (simp add: register_partition_def none svc)
  have "for_each_partition (register_partition lib) ps ?m
      = Some (?m\<lparr>mg_services := mg_services ?m ++ (start_service lib (mg_config ?m) |` set ps)\<rparr>)"
  proof (rule Cons.IH)
    show "set ps \<inter> dom (mg_services ?m) = {}" using Cons.prems(1,2) by auto
  qed (use Cons.prems in simp_all)
  moreover have "mg_services ?m ++ (start_service lib (mg_config ?m) |` set ps)
      = mg_services m ++ (start_service lib (mg_config m) |` set (p # ps))"
    using none svc Cons.prems(1) by (auto simp: map_add_def restrict_map_def fun_eq_iff split: option.splits)
  ultimately show ?case by (simp add: reg)
qed

lemma update_partitions_eq:
  assumes "iteration_order ord" "manager_ok lib m"
  shows "update_partitions lib ord new m
    = Some (m\<lparr>mg_services := (mg_services m |` new) ++ (start_service lib (mg_config m) |` (new - dom (mg_services m))),
               mg_shutdown := mg_shutdown m @
                 map (\<lambda>p. the (mg_services m p)) (ord (dom (mg_services m) - new))\<rparr>)"
proof -
  let ?old = "dom (mg_services m)"
  let ?m = "m\<lparr>mg_services := mg_services m |` (- (?old - new)),
              mg_shutdown := mg_shutdown m @ map (\<lambda>p. the (mg_services m p)) (ord (?old - new))\<rparr>"
  have ords: "set (ord A) = A" "distinct (ord A)" for A using iteration_orderD [OF assms(1)] by auto
  have "for_each_partition unregister_partition (ord (?old - new)) m
      = Some (m\<lparr>mg_services := mg_services m |` (- set (ord (?old - new))),
                mg_shutdown := mg_shutdown m @ map (\<lambda>p. the (mg_services m p)) (ord (?old - new))\<rparr>)"
  proof (rule unregister_all [OF ords(2)])
    show "\<forall>p\<in>set (ord (?old - new)). ps_refs (the (mg_services m p)) = 0"
      unfolding ords(1) using assms(2) by (auto simp: manager_ok_def)
  qed (use assms(2) in \<open>auto simp: ords(1) manager_ok_def\<close>)
  then have "for_each_partition unregister_partition (ord (?old - new)) m = Some ?m"
    by (simp only: ords(1))
  moreover have "for_each_partition (register_partition lib) (ord (new - ?old)) ?m
      = Some (?m\<lparr>mg_services := mg_services ?m ++ (start_service lib (mg_config ?m) |` set (ord (new - ?old)))\<rparr>)"
    using assms(2) by (intro register_all) (auto simp: ords manager_ok_def)
  moreover have "mg_services m |` (- (?old - new)) = mg_services m |` new"
    by (auto simp: restrict_map_def fun_eq_iff)
  ultimately show ?thesis by (simp add: update_partitions_def Let_def ords(1))
qed

lemma manager_ok_update:
  assumes "iteration_order ord" "manager_ok lib m" "update_partitions lib ord new m = Some m'"
  shows "manager_ok lib m' \<and> dom (mg_services m') = new"
proof -
  have m': "mg_services m' = (mg_services m |` new) ++ (start_service lib (mg_config m) |` (new - dom (mg_services m)))"
      "mg_config m' = mg_config m" "mg_shutdown_open m' = mg_shutdown_open m"
    using assms(3) unfolding update_partitions_eq [OF assms(1,2)] by auto
  have "ps_refs svc = 0" if "mg_services m' p = Some svc" for p svc
    using that assms(2) started_service [of lib "mg_config m" p]
    by (auto simp: m' manager_ok_def map_add_def restrict_map_def split: option.splits if_splits)
  moreover have "dom (mg_services m') = new"
  proof (rule set_eqI)
    fix p
    obtain svc where "start_service lib (mg_config m) p = Some svc" using manager_ok_start [OF assms(2)] by blast
    then show "p \<in> dom (mg_services m') \<longleftrightarrow> p \<in> new"
      by (cases "p \<in> new"; cases "mg_services m p") (simp_all add: m' domIff map_add_def restrict_map_def)
  qed
  ultimately show ?thesis using assms(2) by (simp add: manager_ok_def m')
qed

section \<open>The interface of the manager\<close>

text \<open>
  What the configuration provider relies on: it tells the manager its partitions, once or more often, and has a service for exactly
  the partitions it told last.
\<close>

locale partition_manager =
  fixes inv :: "'m \<Rightarrow> bool"
    and owned :: "'m \<Rightarrow> 'p set"
    and tell :: "'p set \<Rightarrow> 'm \<Rightarrow> 'm option"
  assumes tell_ok: "inv m \<Longrightarrow> \<exists>m'. tell P m = Some m' \<and> inv m' \<and> owned m' = P"
begin

fun tell_all :: "'p set list \<Rightarrow> 'm \<Rightarrow> 'm option" where
  "tell_all [] m = Some m"
| "tell_all (P # Ps) m = (case tell P m of None \<Rightarrow> None | Some m' \<Rightarrow> tell_all Ps m')"

lemma tell_all_ok:
  "inv m \<Longrightarrow> \<exists>m'. tell_all Ps m = Some m' \<and> inv m' \<and> owned m' = (if Ps = [] then owned m else last Ps)"
proof (induction Ps arbitrary: m)
  case (Cons P Ps)
  obtain m' where "tell P m = Some m'" "inv m'" "owned m' = P" using tell_ok [OF Cons.prems] by blast
  with Cons.IH [of m'] show ?case by auto
qed simp

end

lemma manager_interface:
  assumes "iteration_order ord"
  shows "partition_manager (manager_ok lib) (\<lambda>m. dom (mg_services m)) (update_partitions lib ord)"
  by unfold_locales (use update_partitions_eq [OF assms] manager_ok_update [OF assms] in blast)

interpretation mgr: partition_manager "manager_ok lib" "\<lambda>m. dom (mg_services m)"
    "update_partitions lib sorted_list_of_set" for lib
  by (rule manager_interface) (rule sorted_iteration_order)

lemma plain_manager_ok: "manager_ok plain_redis (new_manager conf)"
proof -
  have "\<exists>c. build_redis_client plain_redis url cluster ms ro = Inr c" for url cluster ms ro
    by (cases cluster) (simp_all add: build_redis_client_def plain_redis_def)
  then obtain c where "build_redis_client plain_redis (cf_redis_host conf) (cf_redis_enable_cluster conf)
      (cf_redis_timeouts_ms conf) (cf_redis_readonly conf) = Inr c" by blast
  then have "\<exists>svc. start_service plain_redis conf 0 = Some svc"
    by (simp only: start_service_def sum.case) blast
  then show ?thesis unfolding manager_ok_def by (simp add: new_manager_def)
qed

section \<open>Properties\<close>

text \<open>
  C34: Told its partitions, the manager ends with a service for exactly these: the services it already had are untouched,
  a new partition gets a running service of its own with an empty store and its own progress key, and
  the services of the partitions it lost are sent to be stopped, each once and unchanged.
\<close>

theorem update_partitions_exact:
  assumes "iteration_order ord" and "manager_ok lib m"
  shows "\<exists>m'. update_partitions lib ord new m = Some m' \<and> dom (mg_services m') = new \<and>
    (\<forall>p \<in> new. \<forall>svc. mg_services m p = Some svc \<longrightarrow> mg_services m' p = Some svc) \<and>
    (\<forall>p \<in> new - dom (mg_services m). \<exists>svc. mg_services m' p = Some svc \<and> ps_partition svc = p \<and>
       ps_config_store svc = new_store \<and> ps_progress_key svc = build_progress_key p \<and> \<not> ps_cancelled svc) \<and>
    (\<exists>gone. mg_shutdown m' = mg_shutdown m @ map (\<lambda>p. the (mg_services m p)) gone \<and>
       set gone = dom (mg_services m) - new \<and> distinct gone)"
proof -
  let ?m' = "m\<lparr>mg_services := (mg_services m |` new) ++ (start_service lib (mg_config m) |` (new - dom (mg_services m))),
               mg_shutdown := mg_shutdown m @ map (\<lambda>p. the (mg_services m p)) (ord (dom (mg_services m) - new))\<rparr>"
  have eq: "update_partitions lib ord new m = Some ?m'" by (rule update_partitions_eq [OF assms])
  have old: "mg_services ?m' p = Some svc" if "p \<in> new" "mg_services m p = Some svc" for p svc
    using that by (auto simp: map_add_def restrict_map_def dom_def)
  have fresh: "\<exists>svc. mg_services ?m' p = Some svc \<and> ps_partition svc = p \<and> ps_config_store svc = new_store \<and>
      ps_progress_key svc = build_progress_key p \<and> \<not> ps_cancelled svc" if "p \<in> new - dom (mg_services m)" for p
  proof -
    obtain svc where svc: "start_service lib (mg_config m) p = Some svc"
      using manager_ok_start [OF assms(2)] by blast
    with that have "mg_services ?m' p = Some svc" by (simp add: map_add_def restrict_map_def)
    with started_service [OF svc] show ?thesis by blast
  qed
  show ?thesis
  proof (intro exI [of _ ?m'] conjI eq)
    show "dom (mg_services ?m') = new" using manager_ok_update [OF assms eq] by blast
    show "\<exists>gone. mg_shutdown ?m' = mg_shutdown m @ map (\<lambda>p. the (mg_services m p)) gone \<and>
        set gone = dom (mg_services m) - new \<and> distinct gone"
      using iteration_orderD [OF assms(1)] by (intro exI [of _ "ord (dom (mg_services m) - new)"]) auto
  qed (use old fresh in blast)+
qed

theorem update_partitions_exact_witness:
  "\<exists>m'. update_partitions plain_redis sorted_list_of_set {3, 5} (new_manager default_config) = Some m' \<and>
     dom (mg_services m') = {3, 5}"
proof -
  have "manager_ok plain_redis (new_manager default_config)"
    by (rule plain_manager_ok)
  from update_partitions_exact [OF sorted_iteration_order this, of "{3, 5}"] show ?thesis
    by (elim exE conjE) (intro exI conjI, assumption+)
qed

text \<open>
  The manager panics, instead of stopping a service, when at the moment it loses the partition anyone still holds a
  reference to its service, as the task that applies configuration updates does while it runs.
\<close>

theorem lost_partition_in_use_panics:
  assumes "iteration_order ord" and "get_service p m = Some (svc, m')" and "p \<notin> new"
  shows "update_partitions lib ord new m' = None"
proof -
  have s: "mg_services m' p = Some svc" "ps_refs svc \<noteq> 0"
    using assms(2) by (auto simp: get_service_def Let_def split: option.splits)
  then have "p \<in> set (ord (dom (mg_services m') - new))"
    using iteration_orderD [OF assms(1)] assms(3) by blast
  from unregister_stuck [OF this s] show ?thesis by (simp add: update_partitions_def Let_def)
qed

theorem lost_partition_in_use_panics_witness:
  "\<exists>m svc m'. update_partitions plain_redis sorted_list_of_set {3} (new_manager default_config) = Some m \<and>
     get_service 3 m = Some (svc, m') \<and> update_partitions plain_redis sorted_list_of_set {} m' = None"
proof -
  have ok: "manager_ok plain_redis (new_manager default_config)"
    by (rule plain_manager_ok)
  obtain m where m: "update_partitions plain_redis sorted_list_of_set {3} (new_manager default_config) = Some m"
      "dom (mg_services m) = {3}"
    using mgr.tell_ok [OF ok] by blast
  then obtain svc0 where "mg_services m 3 = Some svc0" by blast
  from get_service_known [OF this] obtain svc m' where g: "get_service 3 m = Some (svc, m')" by blast
  from lost_partition_in_use_panics [OF sorted_iteration_order g, of "{}"] m(1) g show ?thesis by blast
qed

text \<open>A checker refuses internal addresses unless the configuration allows them.\<close>

lemma internal_addresses_filtered:
  "\<exists>c. checker_of_config conf cache = HReqwest c \<and> cl_ip_filter (rc_client c) = (\<not> cf_allow_internal_ips conf)"
  by (cases "cf_checker_mode conf")
    (simp add: checker_of_config_def new_reqwest_checker_def new_internal_def Let_def split: option.splits)

text \<open>The stop reports the first task that failed, and then waits for no other.\<close>

lemma stop_manager_ok: "stop_manager h = Inr () \<longleftrightarrow>
    list_all (\<lambda>t. t = Inr ()) [mh_endpoint h, mh_consumer h, mh_results_worker h, mh_services h, mh_executor h]"
  by (auto simp: stop_manager_def split: sum.splits)

end
