(* ===== verification/ConfigProvider.thy ===== *)
theory ConfigProvider
  imports Manager
begin

text \<open>
  The configuration provider (\<open>src/src/check_config_provider/redis_config_provider.rs\<close>): which partitions a
  checker owns, the initial load of their configurations, and the loop that applies the updates.

  The decoders of MessagePack payloads and the text of a subscription identifier are arguments.  \<open>now\<close> gives
  the instant of the k-th store operation of a pass.
\<close>

section \<open>Partitions\<close>

record RedisPartition =
  rp_number :: u16
  rp_config_key :: string
  rp_update_key :: string

definition new_partition :: "u16 \<Rightarrow> RedisPartition" where
  "new_partition number =
     \<lparr>rp_number = number, rp_config_key = ''uptime:configs:'' @ show_nat (unat number),
      rp_update_key = ''uptime:updates:'' @ show_nat (unat number)\<rparr>"

text \<open>The elements of a range taken in steps; a step is positive.\<close>

function range_step_by :: "nat \<Rightarrow> nat \<Rightarrow> nat \<Rightarrow> nat list" where
  "range_step_by a b n = (if a < b \<and> 0 < n then a # range_step_by (a + n) b n else [])"
  by pat_completeness auto
termination by (relation "measure (\<lambda>(a, b, n). b - a)") auto

declare range_step_by.simps [simp del]

text \<open>\<open>None\<close> is the panic of a checker number that is too high.\<close>

definition determine_owned_partitions :: "Config \<Rightarrow> u16 set option" where
  "determine_owned_partitions conf =
     (if cf_total_checkers conf \<le> cf_checker_number conf then None
      else Some (set (map of_nat (range_step_by (unat (cf_checker_number conf))
             (unat (cf_config_provider_redis_total_partitions conf)) (unat (cf_total_checkers conf))))))"

section \<open>The provider\<close>

record 'cl RedisConfigProvider =
  pv_redis :: "'cl RedisClient"
  pv_partitions :: "u16 set"
  pv_check_interval :: time_delta

definition new_config_provider ::
  "('cl, 'cn, 'db) redis_lib \<Rightarrow> string \<Rightarrow> u16 set \<Rightarrow> time_delta \<Rightarrow> bool \<Rightarrow> u64 \<Rightarrow> bool
     \<Rightarrow> RedisError + 'cl RedisConfigProvider" where
  "new_config_provider lib redis_url parts check_interval enable_cluster timeouts_ms readonly =
     (case build_redis_client lib redis_url enable_cluster timeouts_ms readonly of
        Inl e \<Rightarrow> Inl e
      | Inr client \<Rightarrow>
          Inr \<lparr>pv_redis = client, pv_partitions = parts, pv_check_interval = check_interval\<rparr>)"

definition update_redis_key :: "(u128 \<Rightarrow> string) \<Rightarrow> ConfigUpdate \<Rightarrow> string" where
  "update_redis_key simple_text u = simple_text (cu_subscription_id u)"

definition deserialize_rmp :: "(bytes \<Rightarrow> string + check_config) \<Rightarrow> bytes \<Rightarrow> check_config option" where
  "deserialize_rmp from_slice raw =
     (case from_slice raw of Inr config \<Rightarrow> Some config | Inl _ \<Rightarrow> None)"

definition get_partition_keys :: "(u16 set \<Rightarrow> u16 list) \<Rightarrow> 'cl RedisConfigProvider \<Rightarrow> RedisPartition list" where
  "get_partition_keys ord pv = map new_partition (ord (pv_partitions pv))"

text \<open>
  One statement of the source: clone the reference to the service, change its store under the lock, and drop the
  clone at the end of the statement.
\<close>

definition set_store :: "u16 \<Rightarrow> ConfigStore \<Rightarrow> 'cl Manager \<Rightarrow> 'cl Manager" where
  "set_store p st m =
     (case mg_services m p of
        None \<Rightarrow> m
      | Some svc \<Rightarrow> m\<lparr>mg_services := (mg_services m)(p \<mapsto> svc\<lparr>ps_config_store := st\<rparr>)\<rparr>)"

definition with_store ::
  "u16 \<Rightarrow> (ConfigStore \<Rightarrow> ConfigStore option) \<Rightarrow> 'cl Manager \<Rightarrow> 'cl Manager option" where
  "with_store p f m =
     (case get_service p m of
        None \<Rightarrow> None
      | Some (svc, m) \<Rightarrow>
          (case f (ps_config_store svc) of
             None \<Rightarrow> None
           | Some st \<Rightarrow> Some (drop_service p (set_store p st m))))"

fun add_payloads ::
  "uuid_v5 \<Rightarrow> (bytes \<Rightarrow> string + check_config) \<Rightarrow> (nat \<Rightarrow> instant) \<Rightarrow> u16 \<Rightarrow> nat \<Rightarrow> bytes list
     \<Rightarrow> 'cl Manager \<Rightarrow> (nat \<times> 'cl Manager) option" where
  "add_payloads v5 from_slice now p k [] m = Some (k, m)"
| "add_payloads v5 from_slice now p k (raw # ps) m =
     (case deserialize_rmp from_slice raw of
        None \<Rightarrow> add_payloads v5 from_slice now p k ps m
      | Some config \<Rightarrow>
          (case with_store p (add_config v5 (now k) config) m of
             None \<Rightarrow> None
           | Some m \<Rightarrow> add_payloads v5 from_slice now p (Suc k) ps m))"

fun remove_all ::
  "uuid_v5 \<Rightarrow> (nat \<Rightarrow> instant) \<Rightarrow> u16 \<Rightarrow> nat \<Rightarrow> ConfigUpdate list \<Rightarrow> 'cl Manager \<Rightarrow> (nat \<times> 'cl Manager) option" where
  "remove_all v5 now p k [] m = Some (k, m)"
| "remove_all v5 now p k (u # us) m =
     (case with_store p (remove_config v5 (now k) (cu_subscription_id u)) m of
        None \<Rightarrow> None
      | Some m \<Rightarrow> remove_all v5 now p (Suc k) us m)"

section \<open>The initial load\<close>

fun load_partitions ::
  "('cl, 'cn, 'db) redis_lib \<Rightarrow> uuid_v5 \<Rightarrow> (bytes \<Rightarrow> string + check_config) \<Rightarrow> (nat \<Rightarrow> instant)
     \<Rightarrow> 'cn RedisOperations \<Rightarrow> nat \<Rightarrow> RedisPartition list \<Rightarrow> 'cl Manager \<Rightarrow> 'db \<Rightarrow> ('cl Manager \<times> 'db) option" where
  "load_partitions lib v5 from_slice now ops k [] m db = Some (m, db)"
| "load_partitions lib v5 from_slice now ops k (part # parts) m db =
     (case read_configs lib ops (rp_config_key part) db of
        (Inl _, _) \<Rightarrow> None
      | (Inr payloads, db) \<Rightarrow>
          (case add_payloads v5 from_slice now (rp_number part) k payloads m of
             None \<Rightarrow> None
           | Some (k, m) \<Rightarrow> load_partitions lib v5 from_slice now ops k parts m db))"

definition load_initial_configs ::
  "('cl, 'cn, 'db) redis_lib \<Rightarrow> uuid_v5 \<Rightarrow> (bytes \<Rightarrow> string + check_config) \<Rightarrow> (u16 set \<Rightarrow> u16 list)
     \<Rightarrow> (nat \<Rightarrow> instant) \<Rightarrow> 'cl RedisConfigProvider \<Rightarrow> RedisPartition list \<Rightarrow> 'cl Manager \<Rightarrow> 'db
     \<Rightarrow> ('cl Manager \<times> 'db) option" where
  "load_initial_configs lib v5 from_slice ord now pv parts m db =
     (case update_partitions lib ord (pv_partitions pv) m of
        None \<Rightarrow> None
      | Some m \<Rightarrow>
          (case get_async_connection lib (pv_redis pv) db of
             (Inl _, _) \<Rightarrow> None
           | (Inr ops, db) \<Rightarrow> load_partitions lib v5 from_slice now ops 0 parts m db))"

section \<open>Updates\<close>

text \<open>The decoders and formats that applying an update needs.\<close>

record update_codec =
  uc_update :: "bytes \<Rightarrow> ConfigUpdate option"
  uc_config :: "bytes \<Rightarrow> string + check_config"
  uc_simple :: "u128 \<Rightarrow> string"

text \<open>The second half of an update: fetching and adding the configurations that were upserted.\<close>

definition fetch_upserts ::
  "('cl, 'cn, 'db) redis_lib \<Rightarrow> uuid_v5 \<Rightarrow> update_codec \<Rightarrow> (nat \<Rightarrow> instant) \<Rightarrow> 'cn RedisOperations \<Rightarrow> nat
     \<Rightarrow> RedisPartition \<Rightarrow> ConfigUpdate list \<Rightarrow> 'cl Manager \<Rightarrow> 'db \<Rightarrow> ((RedisError + nat) \<times> 'cl Manager \<times> 'db) option" where
  "fetch_upserts lib v5 U now ops k part config_upserts m db =
     (if config_upserts = [] then Some (Inr k, m, db)
      else
        (case get_config_key_payloads lib ops (rp_config_key part)
                (map (update_redis_key (uc_simple U)) config_upserts) db of
           (Inl e, db) \<Rightarrow> Some (Inl e, m, db)
         | (Inr payloads, db) \<Rightarrow>
             (case add_payloads v5 (uc_config U) now (rp_number part) k payloads m of
                None \<Rightarrow> None
              | Some (k, m) \<Rightarrow> Some (Inr k, m, db))))"

definition update_partition ::
  "('cl, 'cn, 'db) redis_lib \<Rightarrow> uuid_v5 \<Rightarrow> update_codec \<Rightarrow> (nat \<Rightarrow> instant) \<Rightarrow> 'cn RedisOperations \<Rightarrow> nat
     \<Rightarrow> RedisPartition \<Rightarrow> 'cl Manager \<Rightarrow> 'db \<Rightarrow> ((RedisError + nat) \<times> 'cl Manager \<times> 'db) option" where
  "update_partition lib v5 U now ops k part m db =
     (case consume_config_updates lib (uc_update U) ops (rp_update_key part) db of
        None \<Rightarrow> None
      | Some (Inl e, db) \<Rightarrow> Some (Inl e, m, db)
      | Some (Inr (config_upserts, config_deletes), db) \<Rightarrow>
          (case remove_all v5 now (rp_number part) k config_deletes m of
             None \<Rightarrow> None
           | Some (k, m) \<Rightarrow> fetch_upserts lib v5 U now ops k part config_upserts m db))"

fun update_pass ::
  "('cl, 'cn, 'db) redis_lib \<Rightarrow> uuid_v5 \<Rightarrow> update_codec \<Rightarrow> (nat \<Rightarrow> instant) \<Rightarrow> 'cn RedisOperations \<Rightarrow> nat
     \<Rightarrow> RedisPartition list \<Rightarrow> 'cl Manager \<Rightarrow> 'db \<Rightarrow> ((RedisError + unit) \<times> 'cl Manager \<times> 'db) option" where
  "update_pass lib v5 U now ops k [] m db = Some (Inr (), m, db)"
| "update_pass lib v5 U now ops k (part # parts) m db =
     (case update_partition lib v5 U now ops k part m db of
        None \<Rightarrow> None
      | Some (Inl e, m, db) \<Rightarrow> Some (Inl e, m, db)
      | Some (Inr k, m, db) \<Rightarrow> update_pass lib v5 U now ops k parts m db)"

text \<open>A pass sees whether the shutdown was requested, and the instants of its operations.\<close>

type_synonym pass = "bool \<times> (nat \<Rightarrow> instant)"

fun update_passes ::
  "('cl, 'cn, 'db) redis_lib \<Rightarrow> uuid_v5 \<Rightarrow> update_codec \<Rightarrow> 'cn RedisOperations \<Rightarrow> RedisPartition list \<Rightarrow> pass list
     \<Rightarrow> 'cl Manager \<Rightarrow> 'db \<Rightarrow> ((RedisError + unit) \<times> 'cl Manager \<times> 'db) option" where
  "update_passes lib v5 U ops parts [] m db = Some (Inr (), m, db)"
| "update_passes lib v5 U ops parts ((cancelled, now) # its) m db =
     (if cancelled then Some (Inr (), m, db)
      else case update_pass lib v5 U now ops 0 parts m db of
             None \<Rightarrow> None
           | Some (Inl e, m, db) \<Rightarrow> Some (Inl e, m, db)
           | Some (Inr _, m, db) \<Rightarrow> update_passes lib v5 U ops parts its m db)"

definition monitor_updates ::
  "('cl, 'cn, 'db) redis_lib \<Rightarrow> uuid_v5 \<Rightarrow> update_codec \<Rightarrow> 'cl RedisConfigProvider \<Rightarrow> RedisPartition list \<Rightarrow> pass list
     \<Rightarrow> 'cl Manager \<Rightarrow> 'db \<Rightarrow> ((RedisError + unit) \<times> 'cl Manager \<times> 'db) option" where
  "monitor_updates lib v5 U pv parts its m db =
     (case get_async_connection lib (pv_redis pv) db of
        (Inl e, db) \<Rightarrow> Some (Inl e, m, db)
      | (Inr ops, db) \<Rightarrow> update_passes lib v5 U ops parts its m db)"

text \<open>After an error the monitor waits five seconds and connects again: a round for every connection.\<close>

fun monitor_rounds ::
  "('cl, 'cn, 'db) redis_lib \<Rightarrow> uuid_v5 \<Rightarrow> update_codec \<Rightarrow> 'cl RedisConfigProvider \<Rightarrow> RedisPartition list
     \<Rightarrow> (bool \<times> pass list) list \<Rightarrow> 'cl Manager \<Rightarrow> 'db \<Rightarrow> ('cl Manager \<times> 'db) option" where
  "monitor_rounds lib v5 U pv parts [] m db = Some (m, db)"
| "monitor_rounds lib v5 U pv parts ((cancelled, its) # rounds) m db =
     (if cancelled then Some (m, db)
      else case monitor_updates lib v5 U pv parts its m db of
             None \<Rightarrow> None
           | Some (_, m, db) \<Rightarrow> monitor_rounds lib v5 U pv parts rounds m db)"

definition monitor_configs ::
  "('cl, 'cn, 'db) redis_lib \<Rightarrow> uuid_v5 \<Rightarrow> update_codec \<Rightarrow> (u16 set \<Rightarrow> u16 list) \<Rightarrow> (nat \<Rightarrow> instant)
     \<Rightarrow> 'cl RedisConfigProvider \<Rightarrow> (bool \<times> pass list) list \<Rightarrow> 'cl Manager \<Rightarrow> 'db \<Rightarrow> ('cl Manager \<times> 'db) option" where
  "monitor_configs lib v5 U ord now pv rounds m db =
     (let parts = get_partition_keys ord pv
      in case load_initial_configs lib v5 (uc_config U) ord now pv parts m db of
           None \<Rightarrow> None
         | Some (m, db) \<Rightarrow>
             if \<not> rcl_readonly (pv_redis pv) then monitor_rounds lib v5 U pv parts rounds m db
             else Some (m, db))"

definition provider_of_config ::
  "('cl, 'cn, 'db) redis_lib \<Rightarrow> Config \<Rightarrow> 'cl RedisConfigProvider option" where
  "provider_of_config lib conf =
     (case determine_owned_partitions conf of
        None \<Rightarrow> None
      | Some parts \<Rightarrow>
          (case new_config_provider lib (cf_redis_host conf) parts
                  (uint (cf_config_provider_redis_update_ms conf) * 1000000) (cf_redis_enable_cluster conf)
                  (cf_redis_timeouts_ms conf) (cf_redis_readonly conf) of
             Inl _ \<Rightarrow> None
           | Inr pv \<Rightarrow> Some pv))"

text \<open>Which of the two branches of the provider's task ended first.\<close>

datatype provider_end = ShutdownRequested | MonitorEnded

definition run_config_provider ::
  "('cl, 'cn, 'db) redis_lib \<Rightarrow> uuid_v5 \<Rightarrow> update_codec \<Rightarrow> (u16 set \<Rightarrow> u16 list) \<Rightarrow> (nat \<Rightarrow> instant)
     \<Rightarrow> Config \<Rightarrow> (bool \<times> pass list) list \<Rightarrow> provider_end \<Rightarrow> 'cl Manager \<Rightarrow> 'db \<Rightarrow> ('cl Manager \<times> 'db) option" where
  "run_config_provider lib v5 U ord now conf rounds e m db =
     (case provider_of_config lib conf of
        None \<Rightarrow> None
      | Some pv \<Rightarrow>
          (case monitor_configs lib v5 U ord now pv rounds m db of
             None \<Rightarrow> None
           | Some (m, db) \<Rightarrow>
               (case e of
                  ShutdownRequested \<Rightarrow> map_option (\<lambda>m. (m, db)) (update_partitions lib ord {} m)
                | MonitorEnded \<Rightarrow> Some (m, db))))"

section \<open>Changing the store of a service\<close>

text \<open>The service of a partition with another store.\<close>

definition put_store :: "u16 \<Rightarrow> 'cl PartitionedService \<Rightarrow> ConfigStore \<Rightarrow> 'cl Manager \<Rightarrow> 'cl Manager" where
  "put_store p svc st m = m\<lparr>mg_services := (mg_services m)(p \<mapsto> svc\<lparr>ps_config_store := st\<rparr>)\<rparr>"

lemma with_store_eq:
  assumes "mg_services m p = Some svc"
  shows "with_store p f m = map_option (\<lambda>st. put_store p svc st m) (f (ps_config_store svc))"
proof -
  have "svc\<lparr>ps_refs := Suc (ps_refs svc), ps_config_store := st, ps_refs := ps_refs svc\<rparr>
      = svc\<lparr>ps_config_store := st\<rparr>" for st by simp
  then show ?thesis
    using assms by (cases "f (ps_config_store svc)")
      (simp_all add: with_store_def get_service_known set_store_def drop_service_def put_store_def)
qed

lemma with_store_unknown: "mg_services m p = None \<Longrightarrow> with_store p f m = None"
  by (simp add: with_store_def get_service_def)

lemma put_store_simps [simp]:
  "mg_services (put_store p svc st m) q = (if q = p then Some (svc\<lparr>ps_config_store := st\<rparr>) else mg_services m q)"
  "mg_config (put_store p svc st m) = mg_config m"
  "mg_shutdown (put_store p svc st m) = mg_shutdown m"
  "mg_shutdown_open (put_store p svc st m) = mg_shutdown_open m"
  "put_store p (svc\<lparr>ps_config_store := st\<rparr>) st' (put_store p svc st m) = put_store p svc st' m"
  by (simp_all add: put_store_def)

lemma put_store_self: "mg_services m p = Some svc \<Longrightarrow> put_store p svc (ps_config_store svc) m = m"
  by (simp add: put_store_def fun_upd_idem)

text \<open>What a list of configurations, or of deletions, makes of a map.\<close>

definition upsert_all :: "check_config list \<Rightarrow> (u128 \<Rightarrow> check_config option) \<Rightarrow> (u128 \<Rightarrow> check_config option)" where
  "upsert_all cs m = fold (\<lambda>c m. m(cc_subscription_id c \<mapsto> c)) cs m"

definition delete_all :: "u128 list \<Rightarrow> (u128 \<Rightarrow> check_config option) \<Rightarrow> (u128 \<Rightarrow> check_config option)" where
  "delete_all ks m = m |` (- set ks)"

definition decoded :: "(bytes \<Rightarrow> string + check_config) \<Rightarrow> bytes list \<Rightarrow> check_config list" where
  "decoded from_slice ps = List.map_filter (deserialize_rmp from_slice) ps"

lemma decoded_simps [simp]:
  "decoded d [] = []"
  "decoded d (raw # ps) = (case deserialize_rmp d raw of None \<Rightarrow> decoded d ps | Some c \<Rightarrow> c # decoded d ps)"
  by (simp_all add: decoded_def map_filter_simps split: option.splits)

lemma upsert_all_simps [simp]:
  "upsert_all [] m = m"
  "upsert_all (c # cs) m = upsert_all cs (m(cc_subscription_id c \<mapsto> c))"
  by (simp_all add: upsert_all_def)

lemma delete_all_simps [simp]:
  "delete_all [] m = m"
  "delete_all (k # ks) m = delete_all ks (m(k := None))"
  by (auto simp: delete_all_def restrict_map_def fun_eq_iff)

lemma add_payloads_ok:
  "mg_services m p = Some svc \<Longrightarrow> store_inv v5 (ps_config_store svc) \<Longrightarrow>
   \<exists>k' st. add_payloads v5 d now p k ps m = Some (k', put_store p svc st m) \<and> store_inv v5 st \<and>
     configs st = upsert_all (decoded d ps) (configs (ps_config_store svc))"
proof (induction ps arbitrary: k m svc)
  case Nil
  then show ?case by (auto intro: exI [of _ "ps_config_store svc"] simp: put_store_self)
next
  case (Cons raw ps)
  show ?case
  proof (cases "deserialize_rmp d raw")
    case None
    then show ?thesis using Cons by simp
  next
    case (Some c)
    obtain st where st: "add_config v5 (now k) c (ps_config_store svc) = Some st" "store_inv v5 st"
        "configs st = (configs (ps_config_store svc))(cc_subscription_id c \<mapsto> c)"
      using store.add_ok [OF Cons.prems(2)] by blast
    let ?m = "put_store p svc st m" and ?svc = "svc\<lparr>ps_config_store := st\<rparr>"
    have w: "with_store p (add_config v5 (now k) c) m = Some ?m"
      by (simp add: with_store_eq [OF Cons.prems(1)] st(1))
    obtain k' st' where "add_payloads v5 d now p (Suc k) ps ?m = Some (k', put_store p ?svc st' ?m)"
        "store_inv v5 st'" "configs st' = upsert_all (decoded d ps) (configs st)"
      using Cons.IH [of ?m ?svc "Suc k"] st(2) by auto
    then show ?thesis by (intro exI [of _ k'] exI [of _ st']) (simp add: Some w st(3))
  qed
qed

lemma remove_all_ok:
  "mg_services m p = Some svc \<Longrightarrow> store_inv v5 (ps_config_store svc) \<Longrightarrow>
   \<exists>k' st. remove_all v5 now p k us m = Some (k', put_store p svc st m) \<and> store_inv v5 st \<and>
     configs st = delete_all (map cu_subscription_id us) (configs (ps_config_store svc))"
proof (induction us arbitrary: k m svc)
  case Nil
  then show ?case by (auto intro: exI [of _ "ps_config_store svc"] simp: put_store_self)
next
  case (Cons u us)
  obtain st where st: "remove_config v5 (now k) (cu_subscription_id u) (ps_config_store svc) = Some st"
      "store_inv v5 st" "configs st = (configs (ps_config_store svc))(cu_subscription_id u := None)"
    using store.remove_ok [OF Cons.prems(2)] by blast
  let ?m = "put_store p svc st m" and ?svc = "svc\<lparr>ps_config_store := st\<rparr>"
  have w: "with_store p (remove_config v5 (now k) (cu_subscription_id u)) m = Some ?m"
    by (simp add: with_store_eq [OF Cons.prems(1)] st(1))
  obtain k' st' where "remove_all v5 now p (Suc k) us ?m = Some (k', put_store p ?svc st' ?m)"
      "store_inv v5 st'" "configs st' = delete_all (map cu_subscription_id us) (configs st)"
    using Cons.IH [of ?m ?svc "Suc k"] st(2) by auto
  then show ?case by (intro exI [of _ k'] exI [of _ st']) (simp add: w st(3))
qed

section \<open>Owned partitions\<close>

lemma range_step_by_set:
  "0 < n \<Longrightarrow> set (range_step_by a b n) = {x. a \<le> x \<and> x < b \<and> n dvd (x - a)}"
proof (induction a b n rule: range_step_by.induct)
  case (1 a b n)
  show ?case
  proof (cases "a < b")
    case False
    then show ?thesis by (auto simp: range_step_by.simps [of a])
  next
    case True
    have step: "(a \<le> x \<and> n dvd (x - a)) \<longleftrightarrow> x = a \<or> (a + n \<le> x \<and> n dvd (x - (a + n)))" for x
    proof (cases "a + n \<le> x")
      case True
      then have "x - a = (x - (a + n)) + n" by simp
      then have "n dvd (x - a) \<longleftrightarrow> n dvd (x - (a + n))" by (metis dvd_add_triv_right_iff)
      with True show ?thesis by auto
    next
      case False
      then have "x - a < n" if "a \<le> x" using that by simp
      then show ?thesis using False by (cases "a \<le> x") (auto dest: nat_dvd_not_less)
    qed
    have "set (range_step_by a b n) = insert a {x. a + n \<le> x \<and> x < b \<and> n dvd (x - (a + n))}"
      using "1.IH" "1.prems" True by (subst range_step_by.simps) simp
    also have "\<dots> = {x. a \<le> x \<and> x < b \<and> n dvd (x - a)}"
    proof (rule set_eqI)
      fix x
      show "x \<in> insert a {x. a + n \<le> x \<and> x < b \<and> n dvd (x - (a + n))} \<longleftrightarrow> x \<in> {x. a \<le> x \<and> x < b \<and> n dvd (x - a)}"
        using step [of x] True unfolding insert_iff mem_Collect_eq by blast
    qed
    finally show ?thesis .
  qed
qed

lemma owned_iff:
  assumes "determine_owned_partitions conf = Some ps"
  shows "p \<in> ps \<longleftrightarrow> p < cf_config_provider_redis_total_partitions conf \<and>
    unat p mod unat (cf_total_checkers conf) = unat (cf_checker_number conf)"
proof -
  let ?a = "unat (cf_checker_number conf)" and ?b = "unat (cf_config_provider_redis_total_partitions conf)"
    and ?n = "unat (cf_total_checkers conf)"
  from assms have an: "?a < ?n" and ps: "ps = of_nat ` set (range_step_by ?a ?b ?n)"
    by (auto simp: determine_owned_partitions_def word_le_nat_alt not_le split: if_splits)
  have "?b < 65536" using unsigned_less [of "cf_config_provider_redis_total_partitions conf"] by simp
  then have small: "unat (of_nat x :: u16) = x" if "x < ?b" for x
    using that by (simp add: unat_of_nat)
  have "p \<in> ps \<longleftrightarrow> unat p \<in> set (range_step_by ?a ?b ?n)"
  proof
    assume "p \<in> ps"
    then obtain x where x: "x \<in> set (range_step_by ?a ?b ?n)" "p = of_nat x" by (auto simp: ps)
    with an have "x < ?b" by (simp add: range_step_by_set)
    with x small show "unat p \<in> set (range_step_by ?a ?b ?n)" by simp
  next
    assume "unat p \<in> set (range_step_by ?a ?b ?n)"
    then show "p \<in> ps" unfolding ps by (intro image_eqI [of _ _ "unat p"]) simp_all
  qed
  also have "\<dots> \<longleftrightarrow> ?a \<le> unat p \<and> unat p < ?b \<and> ?n dvd (unat p - ?a)"
    using an by (simp add: range_step_by_set)
  also have "\<dots> \<longleftrightarrow> unat p < ?b \<and> unat p mod ?n = ?a"
  proof -
    have "?a \<le> unat p \<and> ?n dvd (unat p - ?a) \<longleftrightarrow> unat p mod ?n = ?a"
    proof
      assume "?a \<le> unat p \<and> ?n dvd (unat p - ?a)"
      then obtain k where "unat p = ?a + ?n * k" by (metis dvd_def le_add_diff_inverse)
      with an show "unat p mod ?n = ?a" by simp
    next
      assume "unat p mod ?n = ?a"
      then show "?a \<le> unat p \<and> ?n dvd (unat p - ?a)" by (metis dvd_minus_mod mod_less_eq_dividend)
    qed
    then show ?thesis by blast
  qed
  finally show ?thesis by (simp add: word_less_nat_alt)
qed

text \<open>
  C14: With any positive number of checkers that agree on the number of partitions, every partition is owned by exactly one of them, and
  a number that is no partition by none; a checker whose number is too high panics.
\<close>

theorem partitions_partitioned:
  assumes "0 < n"
  shows "(\<exists>!i. i < n \<and>
      (\<exists>ps. determine_owned_partitions (conf\<lparr>cf_checker_number := i, cf_total_checkers := n\<rparr>) = Some ps \<and> p \<in> ps))
      = (p < cf_config_provider_redis_total_partitions conf) \<and>
    (\<forall>i. (determine_owned_partitions (conf\<lparr>cf_checker_number := i, cf_total_checkers := n\<rparr>) = None) = (n \<le> i))"
proof -
  let ?conf = "\<lambda>i. conf\<lparr>cf_checker_number := i, cf_total_checkers := n\<rparr>"
  have panics: "(determine_owned_partitions (?conf i) = None) = (n \<le> i)" for i
    by (simp add: determine_owned_partitions_def)
  have owns: "(i < n \<and> (\<exists>ps. determine_owned_partitions (?conf i) = Some ps \<and> p \<in> ps)) \<longleftrightarrow>
      p < cf_config_provider_redis_total_partitions conf \<and> i = p mod n" for i
  proof -
    have "unat p mod unat n = unat (p mod n)" by (simp add: unat_mod)
    moreover have "p mod n < n" using assms by (rule word_mod_less_divisor)
    moreover have "unat (p mod n) = unat i \<longleftrightarrow> i = p mod n" by (metis unsigned_word_eqI)
    moreover obtain ps where "determine_owned_partitions (?conf i) = Some ps" if "i < n"
      using panics [of i] by (cases "determine_owned_partitions (?conf i)") auto
    ultimately show ?thesis using owned_iff [of "?conf i"] by auto
  qed
  show ?thesis unfolding owns using panics by auto
qed

theorem partitions_partitioned_witness:
  "\<exists>!i. i < (3 :: u16) \<and> (\<exists>ps. determine_owned_partitions
      (default_config\<lparr>cf_checker_number := i, cf_total_checkers := 3\<rparr>) = Some ps \<and> 127 \<in> ps)"
proof -
  have "cf_config_provider_redis_total_partitions default_config = 128" by (simp add: default_config_def)
  with partitions_partitioned [of 3 default_config 127] show ?thesis by simp
qed

section \<open>Applying updates\<close>

text \<open>Every service has a well-formed store.\<close>

definition stores_ok :: "uuid_v5 \<Rightarrow> 'cl Manager \<Rightarrow> bool" where
  "stores_ok v5 m \<longleftrightarrow> (\<forall>p svc. mg_services m p = Some svc \<longrightarrow> store_inv v5 (ps_config_store svc))"

definition configs_of :: "'cl Manager \<Rightarrow> u16 \<Rightarrow> (u128 \<Rightarrow> check_config option)" where
  "configs_of m p = (case mg_services m p of None \<Rightarrow> Map.empty | Some svc \<Rightarrow> configs (ps_config_store svc))"

lemma stores_okD: "stores_ok v5 m \<Longrightarrow> mg_services m p = Some svc \<Longrightarrow> store_inv v5 (ps_config_store svc)"
  unfolding stores_ok_def by blast

lemma stores_ok_put:
  "stores_ok v5 m \<Longrightarrow> store_inv v5 st \<Longrightarrow> stores_ok v5 (put_store p svc st m)"
  unfolding stores_ok_def by simp

lemma configs_of_put [simp]:
  "configs_of (put_store p svc st m) = (configs_of m)(p := configs st)"
  by (simp add: configs_of_def fun_eq_iff)

lemma dom_put: "mg_services m p = Some svc \<Longrightarrow> dom (mg_services (put_store p svc st m)) = dom (mg_services m)"
  by (auto simp: dom_def)

text \<open>The updates of a kind, in the order in which they were read.\<close>

definition updates_of :: "ConfigUpdateAction \<Rightarrow> (bytes \<Rightarrow> ConfigUpdate option) \<Rightarrow> bytes list \<Rightarrow> ConfigUpdate list" where
  "updates_of a f raws = filter (\<lambda>u. cu_action u = a) (List.map_filter f raws)"

lemma consume_readwrite:
  "\<not> ops_is_readonly ops \<Longrightarrow> rd_take lib (get_conn ops) key db = (Inr raws, db') \<Longrightarrow>
     consume_config_updates lib f ops key db
       = Some (Inr (updates_of ActionUpsert f raws, updates_of ActionDelete f raws), db')"
  by (simp add: consume_config_updates_def readwrite_conn split_updates_filter updates_of_def)

lemma new_partition_number [simp]: "rp_number (new_partition p) = p"
  by (simp add: new_partition_def)

definition deleted_ids :: "update_codec \<Rightarrow> bytes list \<Rightarrow> u128 list" where
  "deleted_ids U raws = map cu_subscription_id (updates_of ActionDelete (uc_update U) raws)"

lemma update_partition_deletes:
  assumes "mg_services m p = Some svc" "stores_ok v5 m" "\<not> ops_is_readonly ops"
    and "rd_take lib (get_conn ops) (rp_update_key (new_partition p)) db = (Inr raws, db1)"
  obtains k1 st where
    "update_partition lib v5 U now ops k (new_partition p) m db
       = fetch_upserts lib v5 U now ops k1 (new_partition p) (updates_of ActionUpsert (uc_update U) raws)
           (put_store p svc st m) db1"
    "store_inv v5 st" "configs st = delete_all (deleted_ids U raws) (configs_of m p)"
proof -
  have "configs_of m p = configs (ps_config_store svc)" by (simp add: configs_of_def assms(1))
  with remove_all_ok [OF assms(1) stores_okD [OF assms(2,1)], of now k "updates_of ActionDelete (uc_update U) raws"] that
  show thesis
    by (auto simp: update_partition_def consume_readwrite [OF assms(3,4)] deleted_ids_def)
qed

text \<open>What was asked for, and what came back.\<close>

definition fetched ::
  "('cl, 'cn, 'db) redis_lib \<Rightarrow> update_codec \<Rightarrow> 'cn RedisOperations \<Rightarrow> u16 \<Rightarrow> bytes list \<Rightarrow> 'db
     \<Rightarrow> (RedisError + bytes list) \<times> 'db" where
  "fetched lib U ops p raws db =
     rd_hget lib (get_conn ops) (rp_config_key (new_partition p))
       (map (\<lambda>u. uc_simple U (cu_subscription_id u)) (updates_of ActionUpsert (uc_update U) raws)) db"

lemma fetch_upserts_fetched:
  "updates_of ActionUpsert (uc_update U) raws \<noteq> [] \<Longrightarrow>
   fetch_upserts lib v5 U now ops k (new_partition p) (updates_of ActionUpsert (uc_update U) raws) m db
     = (case fetched lib U ops p raws db of
          (Inl e, db) \<Rightarrow> Some (Inl e, m, db)
        | (Inr payloads, db) \<Rightarrow>
            (case add_payloads v5 (uc_config U) now p k payloads m of
               None \<Rightarrow> None
             | Some (k, m) \<Rightarrow> Some (Inr k, m, db)))"
  unfolding fetch_upserts_def get_config_key_payloads_def fetched_def update_redis_key_def new_partition_number
  by simp

text \<open>
  C13: When the updates of a partition are read and the configurations they name are fetched, the step does not panic: the store
  of the partition becomes the one of the same sequence on a plain map, all deletions before all upserts, payloads
  that do not decode being skipped; every other partition keeps its store, and all stores stay well-formed.
\<close>

theorem update_applies:
  assumes "p \<in> dom (mg_services m)" "stores_ok v5 m" "\<not> ops_is_readonly ops"
    and "rd_take lib (get_conn ops) (rp_update_key (new_partition p)) db = (Inr raws, db1)"
    and "updates_of ActionUpsert (uc_update U) raws \<noteq> []" "fetched lib U ops p raws db1 = (Inr payloads, db2)"
  shows "\<exists>k' m'. update_partition lib v5 U now ops k (new_partition p) m db = Some (Inr k', m', db2) \<and>
    stores_ok v5 m' \<and> dom (mg_services m') = dom (mg_services m) \<and>
    configs_of m' = (configs_of m)(p := upsert_all (decoded (uc_config U) payloads)
      (delete_all (deleted_ids U raws) (configs_of m p)))"
proof -
  obtain svc where svc: "mg_services m p = Some svc" using assms(1) by blast
  obtain k1 st where u: "update_partition lib v5 U now ops k (new_partition p) m db
       = fetch_upserts lib v5 U now ops k1 (new_partition p) (updates_of ActionUpsert (uc_update U) raws)
           (put_store p svc st m) db1"
    "store_inv v5 st" "configs st = delete_all (deleted_ids U raws) (configs_of m p)"
    by (rule update_partition_deletes [OF svc assms(2-4)])
  let ?svc = "svc\<lparr>ps_config_store := st\<rparr>" and ?m1 = "put_store p svc st m"
  have "mg_services ?m1 p = Some ?svc" "store_inv v5 (ps_config_store ?svc)" using u(2) by simp_all
  from add_payloads_ok [OF this] obtain k2 st2 where
      a: "add_payloads v5 (uc_config U) now p k1 payloads ?m1 = Some (k2, put_store p ?svc st2 ?m1)"
      "store_inv v5 st2" "configs st2 = upsert_all (decoded (uc_config U) payloads) (configs (ps_config_store ?svc))"
    by blast
  have "update_partition lib v5 U now ops k (new_partition p) m db = Some (Inr k2, put_store p svc st2 m, db2)"
    using assms(6) by (simp add: u(1) fetch_upserts_fetched [OF assms(5)] a(1))
  then show ?thesis
    using a(3) u(3) stores_ok_put [OF assms(2) a(2)] dom_put [OF svc]
    by (intro exI [of _ k2] exI [of _ "put_store p svc st2 m"]) simp
qed

text \<open>
  C40: The updates of a partition are taken from the server before the configurations they name are fetched: when the fetch
  fails, the step ends with the error after applying the deletions only, although the server has
  already forgotten the upserts.
\<close>

theorem failed_fetch_loses_upserts:
  assumes "p \<in> dom (mg_services m)" "stores_ok v5 m" "\<not> ops_is_readonly ops"
    and "rd_take lib (get_conn ops) (rp_update_key (new_partition p)) db = (Inr raws, db1)"
    and "updates_of ActionUpsert (uc_update U) raws \<noteq> []" "fetched lib U ops p raws db1 = (Inl e, db2)"
  shows "\<exists>m'. update_partition lib v5 U now ops k (new_partition p) m db = Some (Inl e, m', db2) \<and>
    configs_of m' = (configs_of m)(p := delete_all (deleted_ids U raws) (configs_of m p))"
proof -
  obtain svc where svc: "mg_services m p = Some svc" using assms(1) by blast
  obtain k1 st where "update_partition lib v5 U now ops k (new_partition p) m db
       = fetch_upserts lib v5 U now ops k1 (new_partition p) (updates_of ActionUpsert (uc_update U) raws)
           (put_store p svc st m) db1"
    "configs st = delete_all (deleted_ids U raws) (configs_of m p)"
    by (rule update_partition_deletes [OF svc assms(2-4)])
  then show ?thesis
    using assms(6) by (intro exI [of _ "put_store p svc st m"]) (simp add: fetch_upserts_fetched [OF assms(5)])
qed

text \<open>After the partitions were given up, an update that is still under way panics.\<close>

lemma update_after_shutdown_panics:
  assumes "update_partitions lib ord {} m = Some m'" "iteration_order ord" "manager_ok lib m"
    and "\<not> ops_is_readonly ops" "rd_take lib (get_conn ops) (rp_update_key (new_partition p)) db = (Inr raws, db1)"
    and "updates_of ActionDelete (uc_update U) raws = u # us"
  shows "update_partition lib v5 U now ops k (new_partition p) m' db = None"
proof -
  have "mg_services m' p = None" using manager_ok_update [OF assms(2,3,1)] by auto
  then show ?thesis
    by (simp add: update_partition_def consume_readwrite [OF assms(4,5)] with_store_unknown assms(6))
qed

section \<open>The initial load\<close>

lemma load_partitions_ok:
  "\<forall>p \<in> set ps. rd_hvals lib (get_conn ops) (rp_config_key (new_partition p)) db = (Inr (pl p), db) \<Longrightarrow>
   stores_ok v5 m \<Longrightarrow> set ps \<subseteq> dom (mg_services m) \<Longrightarrow> distinct ps \<Longrightarrow>
   \<exists>m'. load_partitions lib v5 d now ops k (map new_partition ps) m db = Some (m', db) \<and> stores_ok v5 m' \<and>
     dom (mg_services m') = dom (mg_services m) \<and>
     configs_of m' = (\<lambda>q. if q \<in> set ps then upsert_all (decoded d (pl q)) (configs_of m q) else configs_of m q)"
proof (induction ps arbitrary: k m)
  case (Cons p ps)
  obtain svc where svc: "mg_services m p = Some svc" using Cons.prems(3) by auto
  obtain k1 st where a: "add_payloads v5 d now p k (pl p) m = Some (k1, put_store p svc st m)" "store_inv v5 st"
      "configs st = upsert_all (decoded d (pl p)) (configs (ps_config_store svc))"
    using add_payloads_ok [OF svc stores_okD [OF Cons.prems(2) svc]] by blast
  let ?m = "put_store p svc st m"
  have c: "configs_of m p = configs (ps_config_store svc)" by (simp add: configs_of_def svc)
  obtain m' where m': "load_partitions lib v5 d now ops k1 (map new_partition ps) ?m db = Some (m', db)"
      "stores_ok v5 m'" "dom (mg_services m') = dom (mg_services ?m)"
      "configs_of m' = (\<lambda>q. if q \<in> set ps then upsert_all (decoded d (pl q)) (configs_of ?m q) else configs_of ?m q)"
  proof (rule exE [OF Cons.IH [of ?m k1]])
    show "stores_ok v5 ?m" by (rule stores_ok_put [OF Cons.prems(2) a(2)])
    show "set ps \<subseteq> dom (mg_services ?m)" unfolding dom_put [OF svc] using Cons.prems(3) by simp
  qed (use Cons.prems in \<open>auto simp del: put_store_simps(1)\<close>)
  have "load_partitions lib v5 d now ops k (map new_partition (p # ps)) m db = Some (m', db)"
    using Cons.prems(1) m'(1) a(1) by (simp add: read_configs_def)
  moreover have "configs_of m' = (\<lambda>q. if q \<in> set (p # ps) then upsert_all (decoded d (pl q)) (configs_of m q) else configs_of m q)"
    using Cons.prems(4) unfolding m'(4) configs_of_put a(3) by (intro ext) (simp add: c)
  ultimately show ?case using m'(2,3) dom_put [OF svc] by (intro exI [of _ m']) simp
qed simp

lemma stores_ok_fresh:
  assumes "iteration_order ord" "manager_ok lib m" "mg_services m = Map.empty" "update_partitions lib ord new m = Some m'"
  shows "stores_ok v5 m' \<and> configs_of m' = (\<lambda>_. Map.empty)"
proof -
  have m': "mg_services m' p = Some svc \<Longrightarrow> ps_config_store svc = new_store" for p svc
    using assms(3,4) started_service [of lib "mg_config m" p svc] unfolding update_partitions_eq [OF assms(1,2)]
    by (auto simp: restrict_map_def split: if_splits)
  then have "stores_ok v5 m'" unfolding stores_ok_def by (metis store_inv_new)
  moreover have "configs_of m' p = Map.empty" for p
    using m' [of p] by (cases "mg_services m' p") (simp_all add: configs_of_def new_store_def)
  ultimately show ?thesis by blast
qed

lemma load_initial_ok:
  assumes "iteration_order ord" "manager_ok lib m" "mg_services m = Map.empty"
    and "get_async_connection lib (pv_redis pv) db = (Inr ops, db1)"
    and "\<forall>p \<in> pv_partitions pv. rd_hvals lib (get_conn ops) (rp_config_key (new_partition p)) db1 = (Inr (pl p), db1)"
  shows "\<exists>m'. load_initial_configs lib v5 d ord now pv (get_partition_keys ord pv) m db = Some (m', db1) \<and>
    dom (mg_services m') = pv_partitions pv \<and> stores_ok v5 m' \<and>
    (\<forall>p \<in> pv_partitions pv. configs_of m' p = upsert_all (decoded d (pl p)) Map.empty)"
proof -
  obtain m1 where m1: "update_partitions lib ord (pv_partitions pv) m = Some m1"
    using update_partitions_eq [OF assms(1,2)] by blast
  have own: "dom (mg_services m1) = pv_partitions pv" using manager_ok_update [OF assms(1,2) m1] by blast
  have fresh: "stores_ok v5 m1" "configs_of m1 = (\<lambda>_. Map.empty)"
    using stores_ok_fresh [OF assms(1-3) m1] by blast+
  have ord: "set (ord (pv_partitions pv)) = pv_partitions pv" "distinct (ord (pv_partitions pv))"
    using iteration_orderD [OF assms(1)] by blast+
  obtain m' where "load_partitions lib v5 d now ops 0 (map new_partition (ord (pv_partitions pv))) m1 db1 = Some (m', db1)"
      "stores_ok v5 m'" "dom (mg_services m') = dom (mg_services m1)"
      "configs_of m' = (\<lambda>q. if q \<in> pv_partitions pv then upsert_all (decoded d (pl q)) (configs_of m1 q) else configs_of m1 q)"
    using load_partitions_ok [of "ord (pv_partitions pv)" lib ops db1 pl v5 m1 d now 0] assms(5) fresh(1) own ord by auto
  then show ?thesis
    by (intro exI [of _ m']) (simp add: load_initial_configs_def get_partition_keys_def m1 assms(4) own fresh(2))
qed

text \<open>
  Started without services, the provider's initial load ends with a service for exactly the owned partitions, each with a
  well-formed store that holds the last decodable configuration of every subscription that the partition's hash holds, and
  nothing else.
\<close>

theorem initial_load:
  assumes "iteration_order ord" "manager_ok lib m" "mg_services m = Map.empty"
    and "get_async_connection lib (pv_redis pv) db = (Inr ops, db1)"
    and "\<forall>p \<in> pv_partitions pv. rd_hvals lib (get_conn ops) (rp_config_key (new_partition p)) db1 = (Inr (pl p), db1)"
  shows "\<exists>m'. load_initial_configs lib v5 d ord now pv (get_partition_keys ord pv) m db = Some (m', db1) \<and>
    dom (mg_services m') = pv_partitions pv \<and> stores_ok v5 m' \<and>
    (\<forall>p \<in> pv_partitions pv. configs_of m' p = upsert_all (decoded d (pl p)) Map.empty)"
  using assms by (rule load_initial_ok)

section \<open>Witnesses\<close>

text \<open>
  A codec that reads an empty payload as an upsert and any other as a deletion of the default configuration's
  subscription, and every payload as the default configuration; a manager with the service of partition 3.
\<close>

definition plain_codec :: update_codec where
  "plain_codec =
     \<lparr>uc_update = \<lambda>raw. Some \<lparr>cu_action = (if raw = [] then ActionUpsert else ActionDelete), cu_subscription_id = 0\<rparr>,
      uc_config = \<lambda>_. Inr default_check_config, uc_simple = \<lambda>_. ''k''\<rparr>"

definition plain_manager :: "unit Manager" where
  "plain_manager = the (update_partitions plain_redis sorted_list_of_set {3} (new_manager default_config))"

definition plain_ops :: "unit RedisOperations" where
  "plain_ops = ReadWriteOps (SingleConnection ())"

definition one_update :: plain_db where
  "one_update = empty_db\<lparr>pd_hashes := \<lambda>_. [(''k'', [])]\<rparr>"

lemma plain_manager_facts:
  "dom (mg_services plain_manager) = {3}" "stores_ok v5 plain_manager" "configs_of plain_manager = (\<lambda>_. Map.empty)"
proof -
  note ok = plain_manager_ok [of default_config]
  have empty: "mg_services (new_manager default_config) = Map.empty" by (simp add: new_manager_def)
  obtain m where m: "update_partitions plain_redis sorted_list_of_set {3} (new_manager default_config) = Some m"
      "dom (mg_services m) = {3}"
    using mgr.tell_ok [OF ok] by blast
  then have "plain_manager = m" by (simp add: plain_manager_def)
  with m stores_ok_fresh [OF sorted_iteration_order ok empty m(1)]
  show "dom (mg_services plain_manager) = {3}" "stores_ok v5 plain_manager" "configs_of plain_manager = (\<lambda>_. Map.empty)"
    by auto
qed

theorem update_applies_witness:
  "\<exists>k' m' db'. update_partition plain_redis (\<lambda>_ _. 7) plain_codec (\<lambda>_. 5) plain_ops 0 (new_partition 3)
      plain_manager one_update = Some (Inr k', m', db') \<and>
    configs_of m' 3 = [0 \<mapsto> default_check_config]"
proof -
  let ?db = "one_update\<lparr>pd_hashes := (pd_hashes one_update)(rp_update_key (new_partition 3) := [])\<rparr>"
  have mem: "3 \<in> dom (mg_services plain_manager)" by (simp add: plain_manager_facts(1))
  have rw: "\<not> ops_is_readonly plain_ops" by (simp add: plain_ops_def)
  have take: "rd_take plain_redis (get_conn plain_ops) (rp_update_key (new_partition 3)) one_update = (Inr [[]], ?db)"
    by (simp add: plain_redis_def one_update_def)
  have ups: "updates_of ActionUpsert (uc_update plain_codec) [[]] = [\<lparr>cu_action = ActionUpsert, cu_subscription_id = 0\<rparr>]"
    and dels: "deleted_ids plain_codec [[]] = []"
    by (simp_all add: updates_of_def deleted_ids_def plain_codec_def map_filter_simps)
  have f: "fetched plain_redis plain_codec plain_ops 3 [[]] ?db = (Inr [[]], ?db)"
    unfolding fetched_def ups by (simp add: plain_redis_def plain_codec_def one_update_def new_partition_def)
  have ne: "updates_of ActionUpsert (uc_update plain_codec) [[]] \<noteq> []" by (simp add: ups)
  have "decoded (uc_config plain_codec) [[]] = [default_check_config]"
    by (simp add: plain_codec_def deserialize_rmp_def)
  then have "upsert_all (decoded (uc_config plain_codec) [[]]) (delete_all [] Map.empty) = [0 \<mapsto> default_check_config]"
    by (simp add: default_check_config_def)
  with update_applies [OF mem plain_manager_facts(2) rw take ne f, of "\<lambda>_ _. 7" "\<lambda>_. 5" 0]
  show ?thesis unfolding plain_manager_facts(3) dels by (elim exE conjE) (intro exI conjI, assumption, simp)
qed

text \<open>The same server whose second command fails.\<close>

definition failing_redis :: "(unit, unit, plain_db) redis_lib" where
  "failing_redis = plain_redis\<lparr>rd_hget := \<lambda>_ _ _ db. (Inl ''timeout'', db)\<rparr>"

theorem failed_fetch_loses_upserts_witness:
  "\<exists>m' db'. update_partition failing_redis (\<lambda>_ _. 7) plain_codec (\<lambda>_. 5) plain_ops 0 (new_partition 3)
      plain_manager one_update = Some (Inl ''timeout'', m', db') \<and>
    configs_of m' 3 = Map.empty \<and> pd_hashes db' (rp_update_key (new_partition 3)) = []"
proof -
  let ?db = "one_update\<lparr>pd_hashes := (pd_hashes one_update)(rp_update_key (new_partition 3) := [])\<rparr>"
  have mem: "3 \<in> dom (mg_services plain_manager)" by (simp add: plain_manager_facts(1))
  have rw: "\<not> ops_is_readonly plain_ops" by (simp add: plain_ops_def)
  have take: "rd_take failing_redis (get_conn plain_ops) (rp_update_key (new_partition 3)) one_update = (Inr [[]], ?db)"
    by (simp add: failing_redis_def plain_redis_def one_update_def)
  have ups: "updates_of ActionUpsert (uc_update plain_codec) [[]] = [\<lparr>cu_action = ActionUpsert, cu_subscription_id = 0\<rparr>]"
    and dels: "deleted_ids plain_codec [[]] = []"
    by (simp_all add: updates_of_def deleted_ids_def plain_codec_def map_filter_simps)
  have f: "fetched failing_redis plain_codec plain_ops 3 [[]] ?db = (Inl ''timeout'', ?db)"
    by (simp add: fetched_def failing_redis_def)
  have ne: "updates_of ActionUpsert (uc_update plain_codec) [[]] \<noteq> []" by (simp add: ups)
  from failed_fetch_loses_upserts [OF mem plain_manager_facts(2) rw take ne f, of "\<lambda>_ _. 7" "\<lambda>_. 5" 0]
  show ?thesis unfolding plain_manager_facts(3) dels by (elim exE conjE) (intro exI conjI, assumption, simp_all)
qed

definition plain_provider :: "unit RedisConfigProvider" where
  "plain_provider =
     \<lparr>pv_redis = \<lparr>rcl_client = SingleClient (), rcl_timeout_ms = 0, rcl_readonly = False\<rparr>, pv_partitions = {3},
      pv_check_interval = 0\<rparr>"

lemma plain_provider_connects: "get_async_connection plain_redis (pv_redis plain_provider) db = (Inr plain_ops, db)"
  by (simp add: get_async_connection_def plain_redis_def to_ops_def plain_provider_def plain_ops_def)

lemma plain_provider_reads:
  "\<forall>p \<in> pv_partitions plain_provider. rd_hvals plain_redis (get_conn plain_ops) (rp_config_key (new_partition p)) one_update
     = (Inr [[]], one_update)"
  by (simp add: plain_redis_def one_update_def)

lemma plain_provider_keys: "get_partition_keys sorted_list_of_set plain_provider = map new_partition [3]"
  by (simp add: get_partition_keys_def plain_provider_def)

lemma plain_provider_partitions: "pv_partitions plain_provider = {3}"
  by (simp add: plain_provider_def)

lemma new_manager_empty: "mg_services (new_manager conf) = Map.empty"
  by (simp add: new_manager_def)

theorem initial_load_witness:
  "\<exists>m'. load_initial_configs plain_redis (\<lambda>_ _. 7) (\<lambda>_. Inr default_check_config) sorted_list_of_set (\<lambda>_. 5)
      plain_provider (map new_partition [3]) (new_manager default_config) one_update = Some (m', one_update) \<and>
    dom (mg_services m') = {3} \<and> configs_of m' 3 = [0 \<mapsto> default_check_config]"
proof -
  have "upsert_all (decoded (\<lambda>_. Inr default_check_config) [[]]) Map.empty = [0 \<mapsto> default_check_config]"
    by (simp add: deserialize_rmp_def default_check_config_def)
  with initial_load [OF sorted_iteration_order plain_manager_ok new_manager_empty [of default_config] plain_provider_connects
      plain_provider_reads, of "\<lambda>_ _. 7" "\<lambda>_. Inr default_check_config" "\<lambda>_. 5"]
  show ?thesis unfolding plain_provider_keys plain_provider_partitions
    by (elim exE conjE) (intro exI conjI, assumption, simp_all)
qed

end
