(* ===== verification/ConfigWaiter.thy ===== *)
theory ConfigWaiter
  imports ConfigStore CheckResults
begin

text \<open>
  Waiting for the backlog of configurations to be read (\<open>src/src/config_waiter.rs\<close>).  Every poll sees the
  cancellation token, the instant of the poll, the last update of the store (\<open>get_last_update\<close>), and,
  should the loop end with it, the token once more.
\<close>

definition BOOT_IDLE_TIMEOUT :: time_delta where
  "BOOT_IDLE_TIMEOUT = 500 * 1000000"

definition BOOT_MAX_IDLE :: time_delta where
  "BOOT_MAX_IDLE = seconds 10"

datatype BootResult = Started | Cancelled

record boot_poll =
  bp_cancelled :: bool
  bp_tick :: instant
  bp_store :: ConfigStore
  bp_cancelled_after :: bool

text \<open>Does this poll end the loop?\<close>

definition boot_ready :: "instant \<Rightarrow> instant \<Rightarrow> instant option \<Rightarrow> bool" where
  "boot_ready start tick updated =
     (let elapsed = duration_since tick start
      in if updated = None \<and> BOOT_MAX_IDLE \<le> elapsed then True
         else case updated of None \<Rightarrow> False | Some t \<Rightarrow> BOOT_IDLE_TIMEOUT \<le> duration_since tick t)"

text \<open>The result sent, or \<open>None\<close> while it still waits when the polls given end.\<close>

fun wait_for_partition_boot :: "instant \<Rightarrow> boot_poll list \<Rightarrow> BootResult option" where
  "wait_for_partition_boot start [] = None"
| "wait_for_partition_boot start (p # ps) =
     (if bp_cancelled p then Some Cancelled
      else if boot_ready start (bp_tick p) (get_last_update (bp_store p))
      then Some (if bp_cancelled_after p then Cancelled else Started)
      else wait_for_partition_boot start ps)"

text \<open>The store has been idle for half a second, or was never updated in the first ten seconds.\<close>

definition backlog_read :: "instant \<Rightarrow> boot_poll \<Rightarrow> bool" where
  "backlog_read start p =
     (case get_last_update (bp_store p) of
        None \<Rightarrow> start + BOOT_MAX_IDLE \<le> bp_tick p
      | Some t \<Rightarrow> t + BOOT_IDLE_TIMEOUT \<le> bp_tick p)"

lemma boot_ready_iff: "boot_ready start (bp_tick p) (get_last_update (bp_store p)) = backlog_read start p"
  by (cases "get_last_update (bp_store p)")
    (auto simp: boot_ready_def backlog_read_def duration_since_def BOOT_MAX_IDLE_def
      BOOT_IDLE_TIMEOUT_def seconds_def Let_def max_def)

text \<open>
  A partition counts as booted at the first poll, before any cancellation, at which the store has been idle
  for half a second, or has never been updated and ten seconds have passed since the start; only the cancellation of the token
  at that very poll can still turn the result into a cancelled boot.
\<close>

theorem boot_started_iff:
  "wait_for_partition_boot start ps = Some Started \<longleftrightarrow>
     (\<exists>k < length ps. \<not> bp_cancelled (ps ! k) \<and> \<not> bp_cancelled_after (ps ! k) \<and>
        backlog_read start (ps ! k) \<and>
        list_all (\<lambda>p. \<not> bp_cancelled p \<and> \<not> backlog_read start p) (take k ps))"
proof (induction ps)
  case (Cons p ps)
  then show ?case by (auto simp: Ex_less_Suc2 boot_ready_iff)
qed simp

text \<open>
  The wait ends: when no update of the store is later than some instant, the first poll that is half a second after this instant
  and ten seconds after the start finds the loop ended with a result.
\<close>

theorem boot_wait_ends:
  assumes "p \<in> set ps" and "u + BOOT_IDLE_TIMEOUT \<le> bp_tick p" "start + BOOT_MAX_IDLE \<le> bp_tick p"
    and "\<forall>q \<in> set ps. \<forall>t. get_last_update (bp_store q) = Some t \<longrightarrow> t \<le> u"
  shows "wait_for_partition_boot start ps \<noteq> None"
  using assms(1,4)
proof (induction ps)
  case (Cons q ps)
  show ?case
  proof (cases "q = p")
    case True
    have "backlog_read start p"
      using Cons.prems(2) True assms(2,3) by (auto simp: backlog_read_def split: option.split)
    then show ?thesis by (simp add: True boot_ready_iff)
  next
    case False
    then show ?thesis using Cons by simp
  qed
qed simp

theorem boot_wait_ends_witness:
  "wait_for_partition_boot 0
     (map (\<lambda>k. \<lparr>bp_cancelled = False, bp_tick = int k * 100000000, bp_store = new_store, bp_cancelled_after = False\<rparr>)
       [0..<102]) \<noteq> None"
  by (rule boot_wait_ends [where u = 0 and p = "\<lparr>bp_cancelled = False, bp_tick = 10100000000,
        bp_store = new_store, bp_cancelled_after = False\<rparr>"])
    (auto simp: BOOT_IDLE_TIMEOUT_def BOOT_MAX_IDLE_def seconds_def get_last_update_def new_store_def
      image_iff intro: bexI [of _ 101])

end
