(* ===== verification/SchedulerRun.thy ===== *)
theory SchedulerRun
  imports Scheduler ConfigProvider ConfigWaiter
begin

text \<open>
  The scheduler as a whole (\<open>src/src/scheduler.rs\<close>): its start from the watermark in Redis, its ticks, and its tick
  processor writing the watermark back through the Redis client.  The tick processor of \<open>Scheduler\<close>, a function of the
  outcomes of the writes, is what this one does with the outcomes of the server.
\<close>

section \<open>The checks of a tick\<close>

text \<open>
  The whole of \<open>schedule_checks\<close>: the bucket of the tick is read from the store, in the order \<open>ord\<close> of the hash set, and
  every configuration would get the next fresh channel from \<open>tx\<close> on.
\<close>

definition schedule_tick ::
  "uuid_v5 \<Rightarrow> (check_config set \<Rightarrow> check_config list) \<Rightarrow> string \<Rightarrow> Tick \<Rightarrow> bool \<Rightarrow> bool \<Rightarrow> nat \<Rightarrow> ConfigStore
     \<Rightarrow> ('st, 'pst) executor \<Rightarrow> (string + ExecutionBundle \<times> ('st, 'pst) executor) option" where
  "schedule_tick v5 ord region tick executor_open processor_open tx st s =
     (case get_configs tick st of
        None \<Rightarrow> None
      | Some bucket \<Rightarrow>
          schedule_checks v5 region tick executor_open processor_open
            (zip (ord bucket) [tx..<tx + length (ord bucket)]) s)"

section \<open>The loop\<close>

text \<open>The clocks read at the start, in the order of the source.\<close>

record start_clock =
  sk_trunc_now :: datetime
  sk_now :: datetime
  sk_instant_now :: instant

text \<open>A run of the loop, when it gets as far as the ticks: the connection, and the bundles of its ticks.\<close>

record 'cn scheduler_run =
  sr_ops :: "'cn RedisOperations"
  sr_bundles :: "ExecutionBundle list"

definition scheduler_loop ::
  "('cl, 'cn, 'db) redis_lib \<Rightarrow> uuid_v5 \<Rightarrow> string \<Rightarrow> 'cl RedisClient \<Rightarrow> string \<Rightarrow> start_clock \<Rightarrow> tick_iteration list
     \<Rightarrow> 'db \<Rightarrow> ('st, 'pst) executor \<Rightarrow> ((string + 'cn scheduler_run \<times> ('st, 'pst) executor) \<times> 'db) option" where
  "scheduler_loop lib v5 region client progress_key clk its db s =
     (case get_async_connection lib client db of
        (Inl e, db) \<Rightarrow> Some (Inl ''failure getting async redis connection'', db)
      | (Inr ops, db) \<Rightarrow>
          (case read_watermark lib ops progress_key db of
             (Inl e, db) \<Rightarrow> Some (Inl ''failure getting progress key'', db)
           | (Inr last_progress, db) \<Rightarrow>
               (case scheduler_start last_progress (sk_trunc_now clk) of
                  Inl e \<Rightarrow> Some (Inl e, db)
                | Inr start \<Rightarrow>
                    (case scheduler_start_at start (sk_now clk) (sk_instant_now clk) of
                       Inl e \<Rightarrow> Some (Inl e, db)
                     | Inr start_at \<Rightarrow>
                         (case scheduler_ticks v5 region start start_at 0 its s of
                            None \<Rightarrow> None
                          | Some (Inl e) \<Rightarrow> Some (Inl e, db)
                          | Some (Inr (bundles, s)) \<Rightarrow>
                              Some (Inr (\<lparr>sr_ops = ops, sr_bundles = bundles\<rparr>, s), db))))))"

text \<open>
  The task: it waits for the boot of the partition, whatever its result, then runs the loop and reports its result.
\<close>

definition run_scheduler ::
  "('cl, 'cn, 'db) redis_lib \<Rightarrow> uuid_v5 \<Rightarrow> 'cl PartitionedService \<Rightarrow> BootResult option \<Rightarrow> start_clock \<Rightarrow> tick_iteration list
     \<Rightarrow> 'db \<Rightarrow> ('st, 'pst) executor \<Rightarrow> ((string + 'cn scheduler_run \<times> ('st, 'pst) executor) \<times> 'db) option" where
  "run_scheduler lib v5 svc booted clk its db s =
     (case booted of
        None \<Rightarrow> None
      | Some _ \<Rightarrow>
          scheduler_loop lib v5 (cf_region (ps_config svc)) (ps_client svc) (ps_progress_key svc) clk its db s)"

section \<open>The tick processor on a server\<close>

text \<open>How the client library classifies the errors of a write.\<close>

record write_errors =
  we_is_timeout :: "RedisError \<Rightarrow> bool"
  we_is_connection_dropped :: "RedisError \<Rightarrow> bool"

fun tick_processor ::
  "('cl, 'cn, 'db) redis_lib \<Rightarrow> write_errors \<Rightarrow> 'cl RedisClient \<Rightarrow> string \<Rightarrow> (nat \<Rightarrow> receipt)
     \<Rightarrow> ExecutionBundle list list \<Rightarrow> 'cn RedisOperations \<Rightarrow> 'db \<Rightarrow> (string + unit) \<times> 'db" where
  "tick_processor lib W client progress_key r [] ops db = (Inr (), db)"
| "tick_processor lib W client progress_key r (batch # bs) ops db =
     (case last_completed r batch None of
        None \<Rightarrow> (Inl ''Didn't process any checks; executor must be down'', db)
      | Some tick \<Rightarrow>
          (case timestamp_nanos_opt (tick_time tick) of
             None \<Rightarrow> tick_processor lib W client progress_key r bs ops db
           | Some progress \<Rightarrow>
               (case write_watermark lib ops progress_key progress db of
                  (Inr _, db) \<Rightarrow> tick_processor lib W client progress_key r bs ops db
                | (Inl e, db) \<Rightarrow>
                    (if we_is_timeout W e then tick_processor lib W client progress_key r bs ops db
                     else if we_is_connection_dropped W e then
                       (case get_async_connection lib client db of
                          (Inr new_ops, db) \<Rightarrow> tick_processor lib W client progress_key r bs new_ops db
                        | (Inl _, db) \<Rightarrow> tick_processor lib W client progress_key r bs ops db)
                     else (Inl ''Fatal error trying to set redis progress key'', db)))))"


section \<open>Across a restart\<close>

text \<open>A server whose writes of the watermark succeed.\<close>

definition writes_ok :: "('cl, 'cn, 'db) redis_lib \<Rightarrow> bool" where
  "writes_ok lib \<longleftrightarrow> (\<forall>conn k v n db. fst (rd_set_ex lib conn k v n db) = Inr ())"

lemma processor_last_write:
  "writes_ok lib \<Longrightarrow> list_all (\<lambda>b. b \<noteq> []) bs \<Longrightarrow> bs \<noteq> [] \<Longrightarrow>
   list_all (\<lambda>x. bundle_ok r x \<and> in_i64 (tick_time (eb_tick x))) (concat bs) \<Longrightarrow>
     \<exists>db0. write_watermark lib ops key (tick_time (eb_tick (last (concat bs)))) db0
       = (Inr (), snd (tick_processor lib W client key r bs ops db))"
proof (induction bs arbitrary: db)
  case (Cons batch bs)
  let ?t = "tick_time (eb_tick (last batch))"
  have b: "batch \<noteq> []" using Cons.prems(2) by simp
  then have ok: "list_all (bundle_ok r) batch" "in_i64 ?t" using Cons.prems(4) by (auto simp: list_all_iff)
  obtain db1 where w: "write_watermark lib ops key ?t db = (Inr (), db1)"
  proof -
    have "fst (write_watermark lib ops key ?t db) = Inr ()"
      using Cons.prems(1) unfolding writes_ok_def write_watermark_def by blast
    with that show ?thesis by (cases "write_watermark lib ops key ?t db") simp
  qed
  have step: "tick_processor lib W client key r (batch # bs) ops db = tick_processor lib W client key r bs ops db1"
    using ok b by (simp add: last_completed_ok timestamp_nanos_opt_def in_i64_def w)
  show ?case
  proof (cases "bs = []")
    case True
    then show ?thesis using w step by auto
  next
    case False
    then have "concat bs \<noteq> []" using Cons.prems(2) by (cases bs) auto
    with Cons.IH [of db1] Cons.prems False step show ?thesis by simp
  qed
qed simp

text \<open>
  C4: No second is skipped or repeated across a restart: when a run has had the checks of its first n ticks resolved and written its progress
  to Redis, the ticks of the next run, which reads the progress back from the same server at most an outage later, continue
  with the second after the last one, and go on second by second.
\<close>

theorem no_gap_across_restart:
  assumes "set_get_law lib" "writes_ok lib"
    and "concat bs = map (\<lambda>k. \<lparr>eb_tick = nth_tick start start_at k, eb_checks = chks k\<rparr>) [0..<n]" "0 < n"
    and "list_all (\<lambda>b. b \<noteq> []) bs" "list_all (bundle_ok r) (concat bs)"
    and "i64_min \<le> start" "start + seconds (int n) \<le> i64_max"
    and "get_async_connection lib client (snd (tick_processor lib W client0 key r bs ops db))
           = (Inr ops2, snd (tick_processor lib W client0 key r bs ops db))"
    and "trunc_to_second (sk_trunc_now clk) = Inr t" "start + seconds (int n) \<le> t"
    and "scheduler_loop lib v5 region client key clk its (snd (tick_processor lib W client0 key r bs ops db)) s
           = Some (Inr (run, s'), db')"
  shows "map (\<lambda>b. tick_time (eb_tick b)) (concat bs @ sr_bundles run)
    = map (\<lambda>k. start + seconds (int k)) [0..<n + length (sr_bundles run)]"
proof -
  let ?db = "snd (tick_processor lib W client0 key r bs ops db)"
  have first: "map (\<lambda>b. tick_time (eb_tick b)) (concat bs) = map (\<lambda>k. start + seconds (int k)) [0..<n]"
    unfolding assms(3) by (simp add: nth_tick_time)
  have times: "tick_time (eb_tick x) \<in> (\<lambda>k. start + seconds (int k)) ` {0..<n}" if "x \<in> set (concat bs)" for x
  proof -
    have "tick_time (eb_tick x) \<in> set (map (\<lambda>b. tick_time (eb_tick b)) (concat bs))" using that by auto
    then show ?thesis unfolding first by auto
  qed
  have range: "list_all (\<lambda>x. bundle_ok r x \<and> in_i64 (tick_time (eb_tick x))) (concat bs)"
    unfolding list_all_iff
  proof
    fix x assume x: "x \<in> set (concat bs)"
    from times [OF x] have "in_i64 (tick_time (eb_tick x))"
      using assms(7,8) by (auto simp: in_i64_def seconds_def)
    with assms(6) x show "bundle_ok r x \<and> in_i64 (tick_time (eb_tick x))" unfolding list_all_iff by blast
  qed
  let ?p = "start + seconds (int (n - 1))"
  have "bs \<noteq> []" using assms(3,4) by auto
  moreover have "tick_time (eb_tick (last (concat bs))) = ?p"
    using assms(4) by (simp add: assms(3) last_map nth_tick_time)
  ultimately obtain db0 where w: "write_watermark lib ops key ?p db0 = (Inr (), ?db)"
    using processor_last_write [OF assms(2,5) _ range] by fastforce
  obtain x db2 where get: "read_watermark lib ops2 key ?db = (Inr x, db2)"
    using assms(12) by (auto simp: scheduler_loop_def assms(9) split: prod.splits sum.splits)
  have "i64_min \<le> ?p" "?p \<le> i64_max" using assms(4,7,8) by (simp_all add: seconds_def)
  with w get have x: "x = Some ?p" by (intro watermark_read_back [OF assms(1)])
  have "?p + tick_frequency = start + seconds (int n)"
    using assms(4) by (simp add: tick_frequency_def seconds_def algebra_simps of_nat_diff)
  then have st: "scheduler_start x (sk_trunc_now clk) = Inr (start + seconds (int n))"
    using assms(10,11) by (simp add: x scheduler_start_def min_def)
  obtain start_at2 where "scheduler_ticks v5 region (start + seconds (int n)) start_at2 0 its s
      = Some (Inr (sr_bundles run, s'))"
    using assms(12) by (auto simp: scheduler_loop_def assms(9) get st split: prod.splits sum.splits option.splits)
  from ticks_without_gap [OF this]
  have "map (\<lambda>b. tick_time (eb_tick b)) (sr_bundles run)
      = map (\<lambda>k. start + seconds (int (n + k))) [0..<length (sr_bundles run)]"
    by (simp add: seconds_def algebra_simps)
  also have "\<dots> = map (\<lambda>k. start + seconds (int k)) [n..<n + length (sr_bundles run)]"
    by (intro nth_equalityI) simp_all
  finally show ?thesis using first upt_add_eq_append [of 0 n "length (sr_bundles run)"] by simp
qed

lemma plain_writes_ok: "writes_ok plain_redis"
  by (simp add: writes_ok_def plain_redis_def)

text \<open>Two ticks, a restart five seconds after the epoch, and one tick of the next run.\<close>

theorem no_gap_across_restart_witness:
  "\<exists>db1 run s' db'.
     snd (tick_processor plain_redis \<lparr>we_is_timeout = \<lambda>_. False, we_is_connection_dropped = \<lambda>_. False\<rparr>
       \<lparr>rcl_client = SingleClient (), rcl_timeout_ms = 0, rcl_readonly = False\<rparr> ''k'' (\<lambda>_. Received)
       [map (\<lambda>k. \<lparr>eb_tick = nth_tick 0 7 k, eb_checks = [k]\<rparr>) [0..<2]] plain_ops empty_db) = db1 \<and>
     scheduler_loop plain_redis (\<lambda>_ _. 7) ''us'' \<lparr>rcl_client = SingleClient (), rcl_timeout_ms = 0, rcl_readonly = False\<rparr>
       ''k'' \<lparr>sk_trunc_now = seconds 5, sk_now = seconds 5, sk_instant_now = seconds 9\<rparr>
       [\<lparr>ti_shutdown = False, ti_bucket = [], ti_executor_open = True, ti_processor_open = True\<rparr>] db1
       (new_executor () ()) = Some (Inr (run, s'), db') \<and>
     map (\<lambda>b. tick_time (eb_tick b)) (sr_bundles run) = [seconds 2]"
proof -
  let ?W = "\<lparr>we_is_timeout = \<lambda>_. False, we_is_connection_dropped = \<lambda>_. False\<rparr>"
    and ?cl = "\<lparr>rcl_client = SingleClient (), rcl_timeout_ms = 0, rcl_readonly = False\<rparr>"
    and ?clk = "\<lparr>sk_trunc_now = seconds 5, sk_now = seconds 5, sk_instant_now = seconds 9\<rparr>"
    and ?its = "[\<lparr>ti_shutdown = False, ti_bucket = [], ti_executor_open = True, ti_processor_open = True\<rparr>]"
  let ?bs = "[map (\<lambda>k. \<lparr>eb_tick = nth_tick 0 7 k, eb_checks = [k]\<rparr>) [0..<2]]"
  let ?db1 = "empty_db\<lparr>pd_strings := [''k'' \<mapsto> show_int (seconds 1)]\<rparr>"
  let ?ops2 = "ReadWriteOps (SingleConnection ())"
  have db1: "snd (tick_processor plain_redis ?W ?cl ''k'' (\<lambda>_. Received) ?bs plain_ops empty_db) = ?db1"
    by (simp add: upt_rec nth_tick_time timestamp_nanos_opt_def i64_min_def i64_max_def write_watermark_def
        plain_redis_def empty_db_def seconds_def)
  have conn: "get_async_connection plain_redis ?cl db = (Inr ?ops2, db)" for db
    by (simp add: get_async_connection_def plain_redis_def to_ops_def)
  have "parse_i64 (show_int (seconds 1)) = Inr (seconds 1)"
    by (rule parse_i64_show_int) (simp_all add: seconds_def i64_min_def i64_max_def)
  then have read: "read_watermark plain_redis ?ops2 ''k'' ?db1 = (Inr (Some (seconds 1)), ?db1)"
    by (simp add: read_watermark_def plain_redis_def)
  have trunc: "trunc_to_second (seconds 5) = Inr (seconds 5)"
    by (simp add: trunc_to_second_def seconds_def i64_min_def i64_max_def)
  have first: "scheduler_start (Some (seconds 1)) (seconds 5) = Inr (seconds 2)"
    by (simp add: scheduler_start_def trunc tick_frequency_def) (simp add: seconds_def)
  have at: "scheduler_start_at (seconds 2) (seconds 5) (seconds 9) = Inr (seconds 6)"
    by (simp add: scheduler_start_at_def seconds_def)
  have run: "\<exists>run s' db'. scheduler_loop plain_redis (\<lambda>_ _. 7) ''us'' ?cl ''k'' ?clk ?its ?db1 (new_executor () ())
      = Some (Inr (run, s'), db') \<and> length (sr_bundles run) = 1"
    by (simp add: scheduler_loop_def conn read first at schedule_checks_def)
  then obtain run s' db' where run: "scheduler_loop plain_redis (\<lambda>_ _. 7) ''us'' ?cl ''k'' ?clk ?its ?db1 (new_executor () ())
      = Some (Inr (run, s'), db')" "length (sr_bundles run) = 1" by blast
  have "map (\<lambda>b. tick_time (eb_tick b)) (concat ?bs @ sr_bundles run)
      = map (\<lambda>k. 0 + seconds (int k)) [0..<2 + length (sr_bundles run)]"
  proof (rule no_gap_across_restart [OF plain_set_get_law plain_writes_ok])
    show "get_async_connection plain_redis ?cl
        (snd (tick_processor plain_redis ?W ?cl ''k'' (\<lambda>_. Received) ?bs plain_ops empty_db))
      = (Inr ?ops2, snd (tick_processor plain_redis ?W ?cl ''k'' (\<lambda>_. Received) ?bs plain_ops empty_db))"
      by (rule conn)
    show "concat ?bs = map (\<lambda>k. \<lparr>eb_tick = nth_tick 0 7 k, eb_checks = (\<lambda>k. [k]) k\<rparr>) [0..<2]" by simp
    show "trunc_to_second (sk_trunc_now ?clk) = Inr (seconds 5)" using trunc by simp
    show "scheduler_loop plain_redis (\<lambda>_ _. 7) ''us'' ?cl ''k'' ?clk ?its
        (snd (tick_processor plain_redis ?W ?cl ''k'' (\<lambda>_. Received) ?bs plain_ops empty_db)) (new_executor () ())
      = Some (Inr (run, s'), db')"
      unfolding db1 by (rule run(1))
  qed (simp_all add: upt_rec bundle_ok_def seconds_def i64_min_def i64_max_def)
  then have ticks: "map (\<lambda>b. tick_time (eb_tick b)) (sr_bundles run) = [seconds 2]"
    using run(2) by (simp add: upt_rec nth_tick_time)
  show ?thesis by (intro exI conjI, rule db1, rule run(1), rule ticks)
qed

end
