(* ===== verification/Endpoint.thy ===== *)
theory Endpoint
  imports Manager
begin

text \<open>
  The web endpoint (\<open>src/src/endpoint/\<close>): validating a configuration, and executing one at once with the executor's
  own routine.  Also here, because both depend on it: what every reported result looks like.

  The decoding of a request body is an argument, with the text of its rejection.
\<close>

section \<open>State\<close>

record 'st EndpointState =
  es_checker :: 'st
  es_region :: string
  es_max_assertion_ops :: u32

definition new_endpoint_state :: "Config \<Rightarrow> 'st \<Rightarrow> 'st EndpointState" where
  "new_endpoint_state conf checker_state =
     \<lparr>es_checker = checker_state, es_region = cf_region conf, es_max_assertion_ops = cf_max_assertion_ops conf\<rparr>"

section \<open>Validating a configuration\<close>

datatype ValidateError =
    VSerializationError string
  | VCompilationError CompilationError

fun validate_status :: "ValidateError \<Rightarrow> nat" where
  "validate_status (VSerializationError _) = 400"
| "validate_status (VCompilationError _) = 400"

definition validate_check ::
  "('p, 'q, 'j) externals \<Rightarrow> 'st EndpointState \<Rightarrow> check_config \<Rightarrow> ValidateError + unit" where
  "validate_check E state config =
     (case cc_assertion config of
        Some a \<Rightarrow>
          (case compile E a (es_max_assertion_ops state) of
             Inl err \<Rightarrow> Inl (VCompilationError err)
           | Inr _ \<Rightarrow> Inr ())
      | None \<Rightarrow> Inr ())"

definition post_validate_check ::
  "('p, 'q, 'j) externals \<Rightarrow> (bytes \<Rightarrow> string + check_config) \<Rightarrow> 'st EndpointState \<Rightarrow> bytes
     \<Rightarrow> ValidateError + unit" where
  "post_validate_check E json state body =
     (case json body of Inl body_text \<Rightarrow> Inl (VSerializationError body_text) | Inr c \<Rightarrow> validate_check E state c)"

section \<open>Executing a configuration\<close>

datatype ExecuteError = XSerializationError string | CheckerShutdown

fun execute_status :: "ExecuteError \<Rightarrow> nat" where
  "execute_status (XSerializationError _) = 400"
| "execute_status CheckerShutdown = 500"

record ResultWrapper =
  rw_check_result :: "CheckResult option"

text \<open>
  The receiving end of the channel for retries is dropped at once, so the queue is closed; the receiver of the result
  waits for it.  An execution that ends without resolving the check drops its sender.
\<close>

definition execute_input :: "datetime \<Rightarrow> u128 \<Rightarrow> exec_input" where
  "execute_input now guid =
     \<lparr>xi_now = now, xi_missed_guid = guid, xi_rx_open = (\<lambda>_. True), xi_queue_open = False\<rparr>"

definition execute_config ::
  "('w \<Rightarrow> ScheduledCheck \<Rightarrow> string \<Rightarrow> 'st \<Rightarrow> (CheckResult \<times> 'st) option)
     \<Rightarrow> ('w \<Rightarrow> ScheduledCheck \<Rightarrow> string \<Rightarrow> 'st \<Rightarrow> (CheckResult option \<times> 'st) option)
     \<Rightarrow> datetime \<Rightarrow> exec_input \<Rightarrow> 'w \<Rightarrow> 'st EndpointState \<Rightarrow> check_config
     \<Rightarrow> ((ExecuteError + ResultWrapper) \<times> 'st) option" where
  "execute_config check_url check_robots now x w state check_config =
     (let sc = new_scheduled_check Uptime (from_time now) check_config True 0
      in case do_check check_url check_robots noop_produce 0 (es_region state) x w sc (es_checker state) () of
           None \<Rightarrow> None
         | Some (Resolved _ check_result, st, _) \<Rightarrow> Some (Inr \<lparr>rw_check_result = check_result\<rparr>, st)
         | Some (_, st, _) \<Rightarrow> Some (Inl CheckerShutdown, st))"

definition post_execute_config ::
  "('w \<Rightarrow> ScheduledCheck \<Rightarrow> string \<Rightarrow> 'st \<Rightarrow> (CheckResult \<times> 'st) option)
     \<Rightarrow> ('w \<Rightarrow> ScheduledCheck \<Rightarrow> string \<Rightarrow> 'st \<Rightarrow> (CheckResult option \<times> 'st) option)
     \<Rightarrow> (bytes \<Rightarrow> string + check_config) \<Rightarrow> datetime \<Rightarrow> exec_input \<Rightarrow> 'w \<Rightarrow> 'st EndpointState \<Rightarrow> bytes
     \<Rightarrow> ((ExecuteError + ResultWrapper) \<times> 'st) option" where
  "post_execute_config check_url check_robots json now x w state body =
     (case json body of
        Inl body_text \<Rightarrow> Some (Inl (XSerializationError body_text), es_checker state)
      | Inr c \<Rightarrow> execute_config check_url check_robots now x w state c)"

section \<open>The shape of a result\<close>

text \<open>
  A reason carries the details of an assertion error exactly when it is one, with the error's own text.  A result has a
  reason exactly when it is a failure or a missed window; a part of the assertion is reported only for a false
  assertion; the deprecated single request is the last of the list, and the deprecated times and durations are the new ones.
\<close>

definition reason_wf :: "CheckStatusReason \<Rightarrow> bool" where
  "reason_wf r =
     (case details r of
        None \<Rightarrow> status_type r \<noteq> RAssertionCompilationError \<and> status_type r \<noteq> RAssertionEvaluationError
      | Some (DCompilation e) \<Rightarrow>
          status_type r = RAssertionCompilationError \<and> description r = compilation_error_to_string e
      | Some (DEvaluation e) \<Rightarrow>
          status_type r = RAssertionEvaluationError \<and> description r = runtime_error_to_string e)"

definition result_wf :: "CheckResult \<Rightarrow> bool" where
  "result_wf r =
     ((case cr_status_reason r of
         None \<Rightarrow> (cr_status r = Success \<or> cr_status r = DisallowedByRobots) \<and> cr_assertion_failure_data r = None
       | Some reason \<Rightarrow>
           reason_wf reason \<and>
           (cr_status r = Failure \<or> (cr_status r = MissedWindow \<and> status_type reason = RMissProduced)) \<and>
           (cr_assertion_failure_data r \<noteq> None \<longrightarrow> status_type reason = RFailure)) \<and>
      cr_request_info r = (if cr_request_info_list r = [] then None else Some (last (cr_request_info_list r))) \<and>
      cr_scheduled_check_time_us r = cr_scheduled_check_time r \<and>
      cr_actual_check_time_us r = cr_actual_check_time r \<and>
      cr_duration_us r = cr_duration r)"

definition check_wf :: "Check \<Rightarrow> bool" where
  "check_wf c =
     (case ck_reason c of
        None \<Rightarrow> ck_result c = Success \<and> ck_assert_path c = None
      | Some reason \<Rightarrow>
          reason_wf reason \<and> ck_result c = Failure \<and>
          (ck_assert_path c \<noteq> None \<longrightarrow> status_type reason = RFailure))"

lemma check_wf_body [simp]:
  "check_wf (c\<lparr>ck_body_bytes := b\<rparr>) = check_wf c" "check_wf (c\<lparr>ck_request_infos := i\<rparr>) = check_wf c"
  by (simp_all add: check_wf_def split: option.split)

lemma check_wf_outcomes [simp]:
  "check_wf check_success" "check_wf (code_failure f s)" "check_wf (assert_compile_failure e)"
  "check_wf (assert_evaluation_failure re)" "check_wf (assert_failure p)"
  by (simp_all add: check_wf_def check_constructors reason_wf_def)

lemma hyper_types:
  "hyper_error err = Some (t, m) \<Longrightarrow> t \<noteq> RAssertionCompilationError \<and> t \<noteq> RAssertionEvaluationError"
  "hyper_util_error err = Some (t, m) \<Longrightarrow> t \<noteq> RAssertionCompilationError \<and> t \<noteq> RAssertionEvaluationError"
proof -
  have "hyper_error_in ss = Some (t, m) \<Longrightarrow> t \<noteq> RAssertionCompilationError \<and> t \<noteq> RAssertionEvaluationError" for ss
    by (induction ss rule: hyper_error_in.induct) (auto split: if_splits)
  then show "hyper_error err = Some (t, m) \<Longrightarrow> t \<noteq> RAssertionCompilationError \<and> t \<noteq> RAssertionEvaluationError"
    by (simp add: hyper_error_def)
  have "hyper_util_error_in ss = Some (t, m) \<Longrightarrow> t \<noteq> RAssertionCompilationError \<and> t \<noteq> RAssertionEvaluationError" for ss
    by (induction ss rule: hyper_util_error_in.induct) (auto split: if_splits)
  then show "hyper_util_error err = Some (t, m) \<Longrightarrow> t \<noteq> RAssertionCompilationError \<and> t \<noteq> RAssertionEvaluationError"
    by (simp add: hyper_util_error_def)
qed

lemma reason_of_error_wf: "reason_wf (reason_of_error err)"
  by (auto simp: reason_wf_def reason_of_error_def split: option.splits dest: hyper_types)

lemma reason_of_error_type: "status_type (reason_of_error err) \<noteq> RAssertionCompilationError"
  by (auto simp: reason_of_error_def split: option.splits dest: hyper_types)

lemma check_wf_other: "reason_wf r \<Longrightarrow> check_wf (other_failure r i)"
  by (simp add: check_wf_def other_failure_def)

lemma to_check_result_wf: "check_wf (fst (to_check_result E C H w sc self r))"
  by (simp add: to_check_result_def outcome_of_status_def outcome_of_eval_def Let_def
      split: option.splits prod.splits sum.splits)

lemma checked_response_wf: "check_wf (fst (checked_response E C H S w sc self r stats))"
proof -
  obtain k c r' where k: "to_check_result E C H w sc self r = (k, c, r')"
    by (cases "to_check_result E C H w sc self r")
  then have "check_wf k" using to_check_result_wf [of E C H w sc self r] by simp
  then show ?thesis by (simp add: checked_response_def k Let_def split: prod.splits)
qed

lemma reqwest_result_wf:
  assumes "reqwest_check_url E C H S X v5 w sc region self = Some (res, self')"
  shows "result_wf res"
proof -
  let ?ans = "wi_answer w (do_request H (sc_config sc)
    (make_trace_header X (sc_config sc) (make_trace_id X v5 (sc_config sc) (sc_tick sc) (sc_retry_count sc))
      (wi_span_id w)))"
  define ck where "ck = (case ?ans of
      Inr (r, stats) \<Rightarrow> checked_response E C H S w sc self r stats
    | Inl err \<Rightarrow> (other_failure (reason_of_error err)
        (to_errored_request_infos (wi_utc_now w) (wi_elapsed w) err sc), rc_assert_cache self))"
  have wf: "check_wf (fst ck)"
    unfolding ck_def by (simp add: checked_response_wf check_wf_other reason_of_error_wf split: sum.splits prod.splits)
  obtain k cache where k: "ck = (k, cache)" by (cases ck)
  from wf show ?thesis
    using assms unfolding reqwest_check_url_def Let_def ck_def [symmetric] k
    by (auto simp: result_wf_def check_wf_def failure_data_of_def split: option.splits)
qed

section \<open>Properties\<close>


lemma plain_outcome:
  "\<exists>r st'. check_outcome (http_check_url plain_externals plain_cache plain_http plain_stats plain_fmt (\<lambda>_ _. 7))
     (http_check_robots plain_http plain_fmt (\<lambda>_ _. 7)) (plain_exec_input 0)
     \<lparr>hi_reqwest = plain_input 500 [65],
      hi_dummy = \<lparr>in_now = 0, in_trace_id = 0, in_guid = 0, in_span_id = 0\<rparr>\<rparr>
     (plain_check True None) ''us'' (HReqwest plain_checker) = Some (Some r, st') \<and> cr_status r = Failure"
  by (simp add: check_outcome_def plain_exec_input_def plain_check_def new_scheduled_check_def
      default_check_config_def from_time_def seconds_def http_check_url_def reqwest_check_url_def
      checked_response_def to_check_result_def plain_input_def read_body_bounded_def
      outcome_of_status_def is_success_def code_failure_def failure_data_of_def Let_def split: prod.splits)


text \<open>
  C21: What the endpoint validates, the checker of the same configuration never rejects: a check whose configuration was
  accepted does not fail with an assertion compilation error, whatever the server answers and whatever the cache of compiled
  assertions holds.
\<close>

theorem validated_check_compiles:
  assumes "validate_check E (new_endpoint_state conf st) (sc_config sc) = Inr ()"
    and "checker_of_config conf cache = HReqwest self" "cache_law C"
    and "cache_coherent C E (cf_max_assertion_ops conf) c"
    and "reqwest_check_url E C H S X v5 w sc region (self\<lparr>rc_assert_cache := c\<rparr>) = Some (res, self')"
    and "cr_status_reason res = Some reason"
  shows "status_type reason \<noteq> RAssertionCompilationError"
proof -
  let ?self = "self\<lparr>rc_assert_cache := c\<rparr>"
  have ops: "rc_max_assertion_ops ?self = cf_max_assertion_ops conf"
    using assms(2) by (cases "cf_checker_mode conf")
      (auto simp: checker_of_config_def new_reqwest_checker_def new_internal_def Let_def)
  have comp: "\<exists>k. compile E a (cf_max_assertion_ops conf) = Inr k" if "cc_assertion (sc_config sc) = Some a" for a
    using assms(1) that by (auto simp: validate_check_def new_endpoint_state_def split: sum.splits)
  have plain: "ck_reason (outcome_of_status H s) = Some q \<Longrightarrow> status_type q \<noteq> RAssertionCompilationError"
    and eval: "ck_reason (outcome_of_eval ev) = Some q \<Longrightarrow> status_type q \<noteq> RAssertionCompilationError" for s q ev
    by (auto simp: outcome_of_status_def outcome_of_eval_def check_constructors split: if_splits sum.splits)
  have check: "ck_reason (fst (to_check_result E C H w sc ?self r)) = Some q
      \<Longrightarrow> status_type q \<noteq> RAssertionCompilationError" for r q
  proof (cases "cc_assertion (sc_config sc)")
    case None
    then show "ck_reason (fst (to_check_result E C H w sc ?self r)) = Some q \<Longrightarrow> ?thesis"
      using plain to_check_result_plain [of ?self sc E C H w r] by simp
  next
    case (Some a)
    obtain k where k: "compile E a (cf_max_assertion_ops conf) = Inr k" using comp [OF Some] by blast
    obtain c' where g: "get_or_compile C E (wi_instant_now w) a (cf_max_assertion_ops conf) c = (Inr k, c')"
      using get_or_compile_coherent(1) [OF assms(3,4), of "wi_instant_now w" a] k
      by (cases "get_or_compile C E (wi_instant_now w) a (cf_max_assertion_ops conf) c") simp
    show "ck_reason (fst (to_check_result E C H w sc ?self r)) = Some q \<Longrightarrow> ?thesis"
      using plain eval to_check_result_plain [of ?self sc E C H w r] ops g Some
      by (cases "rc_disable_assertions ?self") (auto simp: to_check_result_def split: prod.splits if_splits)
  qed
  have checked: "status_type q \<noteq> RAssertionCompilationError"
    if "checked_response E C H S w sc ?self r stats = (k, c')" "ck_reason k = Some q" for r stats k c' q
  proof (rule check)
    have "ck_reason (fst (checked_response E C H S w sc ?self r stats))
        = ck_reason (fst (to_check_result E C H w sc ?self r))"
      by (simp add: checked_response_def Let_def split: prod.splits)
    with that show "ck_reason (fst (to_check_result E C H w sc ?self r)) = Some q" by simp
  qed
  show ?thesis
    using assms(5,6) reason_of_error_type
    by (auto simp: reqwest_check_url_def Let_def other_failure_def dest: checked
        split: sum.splits prod.splits option.splits)
qed

theorem validated_check_compiles_witness:
  "\<exists>self res self' reason. checker_of_config default_config (\<lambda>_. None) = HReqwest self \<and>
     reqwest_check_url plain_externals plain_cache plain_http plain_stats plain_fmt (\<lambda>_ _. 7)
       (plain_input 500 []) (plain_check False (Some \<lparr>root = OpStatusCodeCheck 200 Equals\<rparr>)) ''us''
       (self\<lparr>rc_assert_cache := \<lambda>_. None\<rparr>) = Some (res, self') \<and>
     cr_status_reason res = Some reason \<and> status_type reason \<noteq> RAssertionCompilationError"
proof -
  let ?sc = "plain_check False (Some \<lparr>root = OpStatusCodeCheck 200 Equals\<rparr>)"
  obtain self :: "(Assertion \<Rightarrow> (string, string) CacheEntry option) ReqwestChecker"
    where self: "checker_of_config default_config (\<lambda>_. None) = HReqwest self"
    by (cases "cf_checker_mode default_config") (simp add: checker_of_config_def)
  then have opts: "rc_max_assertion_ops self = 16" "\<not> rc_disable_assertions self" "rc_assertion_complexity self = 100"
    "\<not> rc_response_capture_enabled self"
    by (auto simp: checker_of_config_def default_config_def new_reqwest_checker_def new_internal_def Let_def)
  have comp: "compile plain_externals \<lparr>root = OpStatusCodeCheck 200 Equals\<rparr> 16
      = Inr \<lparr>c_root = CStatusCodeCheck 200 CEqual\<rparr>"
    by (simp add: compile_def compile_op.simps dec_ops_def)
  have ev: "eval plain_externals \<lparr>c_root = CStatusCodeCheck 200 CEqual\<rparr>
      (response_data_of \<lparr>rs_status = 500, rs_headers = [], rs_stream = [(0, Chunk [])]\<rparr> []) 100 = Inr (leaf_node False)"
    by (simp add: eval_def eval_op.simps consume_def status_check_def response_data_of_def)
  obtain res self' reason where run: "reqwest_check_url plain_externals plain_cache plain_http plain_stats plain_fmt (\<lambda>_ _. 7)
      (plain_input 500 []) ?sc ''us'' (self\<lparr>rc_assert_cache := \<lambda>_. None\<rparr>) = Some (res, self')"
      "cr_status_reason res = Some reason"
    using opts
    by (simp add: reqwest_check_url_def checked_response_def to_check_result_def plain_input_def
        requires_body_def get_or_compile_def plain_cache_def comp outcome_of_eval_def ev
        leaf_node_def assert_failure_def failure_data_of_def Let_def split: prod.splits)
  have "validate_check plain_externals (new_endpoint_state default_config ()) (sc_config ?sc) = Inr ()"
    by (simp add: validate_check_def new_endpoint_state_def default_config_def comp)
  from validated_check_compiles [OF this self plain_cache_law plain_cache_coherent run] self run show ?thesis by blast
qed

lemma execute_config_keeps:
  assumes "js_gas_law E" "cache_law C"
    and "es_checker state = HReqwest self"
    and "cache_coherent C E (rc_max_assertion_ops self) (rc_assert_cache self)"
  shows "\<exists>r self'. execute_config (http_check_url E C H S X v5) (http_check_robots H X v5) now (execute_input now' guid) w
      state config = Some (Inr \<lparr>rw_check_result = Some r\<rparr>, HReqwest self') \<and>
    cache_coherent C E (rc_max_assertion_ops self') (rc_assert_cache self') \<and>
    reports_on (new_scheduled_check Uptime (from_time now) config True 0) (es_region state) r"
proof -
  let ?sc = "new_scheduled_check Uptime (from_time now) config True 0" and ?x = "execute_input now' guid"
  let ?url = "http_check_url E C H S X v5" and ?robots = "http_check_robots H X v5"
  obtain r0 self0 where url: "?url w ?sc (es_region state) (HReqwest self) = Some (r0, HReqwest self0)"
      "cache_coherent C E (rc_max_assertion_ops self0) (rc_assert_cache self0)"
    using reqwest_url_total [OF assms(1,2,4), of H S X v5 "hi_reqwest w" ?sc "es_region state"]
    by (auto simp: http_check_url_def)
  have kind: "sc_kind ?sc = Uptime" by (simp add: new_scheduled_check_def)
  have "\<exists>r self'. check_outcome ?url ?robots ?x w ?sc (es_region state) (HReqwest self) = Some (Some r, HReqwest self') \<and>
      cache_coherent C E (rc_max_assertion_ops self') (rc_assert_cache self')"
    unfolding check_outcome_def Let_def kind using url assms(4) by simp
  then obtain r self' where
    r: "check_outcome ?url ?robots ?x w ?sc (es_region state) (HReqwest self) = Some (Some r, HReqwest self')"
      "cache_coherent C E (rc_max_assertion_ops self') (rc_assert_cache self')"
    by blast
  have "do_check ?url ?robots noop_produce 0 (es_region state) ?x w ?sc (es_checker state) ()
      = Some (Resolved 0 (Some r), HReqwest self', ())"
  proof -
    have "sc_retry_count ?sc = 0" "sc_resolve_tx ?sc = 0" "xi_rx_open ?x 0"
      by (simp_all add: new_scheduled_check_def execute_input_def)
    with r show ?thesis by (simp add: do_check_def assms(3) noop_produce_def record_result_def)
  qed
  then show ?thesis using http.outcome_reports [OF r(1)] r(2) by (simp add: execute_config_def)
qed

text \<open>
  An execution through the endpoint always answers, with a result about the given configuration, for this region, and at the
  current tick: it never panics, is never retried, and never ends with the error of a checker that shut down.
\<close>

theorem execute_config_answers:
  assumes "js_gas_law E" "cache_law C"
    and "es_checker state = HReqwest self"
    and "cache_coherent C E (rc_max_assertion_ops self) (rc_assert_cache self)"
  shows "\<exists>r st'. execute_config (http_check_url E C H S X v5) (http_check_robots H X v5) now (execute_input now' guid) w
      state config = Some (Inr \<lparr>rw_check_result = Some r\<rparr>, st') \<and>
    reports_on (new_scheduled_check Uptime (from_time now) config True 0) (es_region state) r"
  using execute_config_keeps [OF assms] by blast

theorem execute_config_answers_witness:
  "\<exists>r st'. execute_config (http_check_url plain_externals plain_cache plain_http plain_stats plain_fmt (\<lambda>_ _. 7))
     (http_check_robots plain_http plain_fmt (\<lambda>_ _. 7)) 0 (execute_input 1 2)
     \<lparr>hi_reqwest = plain_input 500 [],
      hi_dummy = \<lparr>in_now = 0, in_trace_id = 0, in_guid = 0, in_span_id = 0\<rparr>\<rparr>
     (new_endpoint_state default_config (HReqwest plain_checker)) default_check_config
   = Some (Inr \<lparr>rw_check_result = Some r\<rparr>, st')"
proof -
  have "es_checker (new_endpoint_state default_config (HReqwest plain_checker)) = HReqwest plain_checker"
    by (simp add: new_endpoint_state_def)
  from execute_config_answers [OF plain_js_gas_law plain_cache_law this plain_checker_coherent] show ?thesis by blast
qed

end
