(* ===== verification/WireFormat.thy ===== *)
theory WireFormat
  imports CheckExecutor "HOL-Library.Monad_Syntax"
begin

text \<open>
  What the types look like on the wire: the trees that the \<open>serde\<close> attributes of \<open>assertions/mod.rs\<close>, \<open>assertions/compiled.rs\<close>, \<open>types/result.rs\<close>,
  \<open>types/shared.rs\<close> and \<open>types/check_config.rs\<close> describe.  A tree is what JSON and MessagePack have in common; the bytes are the libraries'.

  A decoder reads the form that is written, with the fields in any order, ignores fields it does not know, and fails on a
  field that occurs twice; the abbreviated forms that \<open>serde\<close> also reads (a sequence for a record) are not modelled.
\<close>

section \<open>Trees\<close>

datatype wire =
    WNull
  | WBool bool
  | WNum int
  | WText string
  | WArr "wire list"
  | WObj "(string \<times> wire) list"

text \<open>\<open>None\<close>: the field occurs twice; \<open>Some None\<close>: it is missing.\<close>

definition get_field :: "string \<Rightarrow> (string \<times> wire) list \<Rightarrow> wire option option" where
  "get_field k fs =
     (case filter (\<lambda>f. fst f = k) fs of [] \<Rightarrow> Some None | [f] \<Rightarrow> Some (Some (snd f)) | _ \<Rightarrow> None)"

definition required :: "string \<Rightarrow> (wire \<Rightarrow> 'a option) \<Rightarrow> (string \<times> wire) list \<Rightarrow> 'a option" where
  "required k dec fs = (case get_field k fs of Some (Some v) \<Rightarrow> dec v | _ \<Rightarrow> None)"

definition defaulted :: "string \<Rightarrow> 'a \<Rightarrow> (wire \<Rightarrow> 'a option) \<Rightarrow> (string \<times> wire) list \<Rightarrow> 'a option" where
  "defaulted k d dec fs =
     (case get_field k fs of None \<Rightarrow> None | Some None \<Rightarrow> Some d | Some (Some v) \<Rightarrow> dec v)"

fun of_object :: "((string \<times> wire) list \<Rightarrow> 'a option) \<Rightarrow> wire \<Rightarrow> 'a option" where
  "of_object dec (WObj fs) = dec fs"
| "of_object dec _ = None"

fun dec_list :: "(wire \<Rightarrow> 'a option) \<Rightarrow> wire \<Rightarrow> 'a list option" where
  "dec_list dec (WArr vs) = those (map dec vs)"
| "dec_list dec _ = None"

definition enc_option :: "('a \<Rightarrow> wire) \<Rightarrow> 'a option \<Rightarrow> wire" where
  "enc_option enc x = (case x of None \<Rightarrow> WNull | Some y \<Rightarrow> enc y)"

definition dec_option :: "(wire \<Rightarrow> 'a option) \<Rightarrow> wire \<Rightarrow> 'a option option" where
  "dec_option dec v = (if v = WNull then Some None else map_option Some (dec v))"

fun dec_text :: "wire \<Rightarrow> string option" where
  "dec_text (WText s) = Some s"
| "dec_text _ = None"

fun dec_bool :: "wire \<Rightarrow> bool option" where
  "dec_bool (WBool b) = Some b"
| "dec_bool _ = None"

definition enc_word :: "'a::len word \<Rightarrow> wire" where
  "enc_word w = WNum (uint w)"

fun dec_word :: "wire \<Rightarrow> 'a::len word option" where
  "dec_word (WNum n) = (if 0 \<le> n \<and> n < 2 ^ LENGTH('a) then Some (word_of_int n) else None)"
| "dec_word _ = None"

text \<open>A pair is a sequence of two.\<close>

fun dec_pair :: "wire \<Rightarrow> (string \<times> string) option" where
  "dec_pair (WArr [WText a, WText b]) = Some (a, b)"
| "dec_pair _ = None"

definition enc_pair :: "string \<times> string \<Rightarrow> wire" where
  "enc_pair p = WArr [WText (fst p), WText (snd p)]"

text \<open>A type whose values are names.\<close>

definition dec_name :: "('a \<Rightarrow> string) \<Rightarrow> 'a list \<Rightarrow> wire \<Rightarrow> 'a option" where
  "dec_name name all v = Option.bind (dec_text v) (\<lambda>s. find (\<lambda>x. name x = s) all)"

section \<open>Formats\<close>

text \<open>What is written can be read; what is not \<open>null\<close> can also be left out.\<close>

locale wire_format =
  fixes enc :: "'a \<Rightarrow> wire"
    and dec :: "wire \<Rightarrow> 'a option"
  assumes dec_enc: "dec (enc x) = Some x"
begin

lemma enc_inject: "enc x = enc y \<longleftrightarrow> x = y"
  by (metis dec_enc option.inject)

lemma list_dec_enc: "dec_list dec (WArr (map enc xs)) = Some xs"
  by (induction xs) (simp_all add: dec_enc)

text \<open>A field that occurs once is read whatever surrounds it.\<close>

lemma required_dec_enc:
  "get_field k fs = Some (Some (enc x)) \<Longrightarrow> required k dec fs = Some x"
  "get_field k fs = Some (Some (enc x)) \<Longrightarrow> defaulted k d dec fs = Some x"
  by (simp_all add: required_def defaulted_def dec_enc)

end

locale wire_value = wire_format +
  assumes enc_not_null: "enc x \<noteq> WNull"
begin

lemma option_dec_enc: "dec_option dec (enc_option enc x) = Some x"
  by (cases x) (simp_all add: dec_option_def enc_option_def dec_enc enc_not_null)

end

text \<open>The sequences of a format are a format too.\<close>

context wire_format
begin

lemma lists_value: "wire_value (\<lambda>xs. WArr (map enc xs)) (dec_list dec)"
  by unfold_locales (rule list_dec_enc, simp)

end

interpretation texts: wire_value WText dec_text
  by unfold_locales simp_all

interpretation words: wire_value enc_word dec_word
  by unfold_locales (simp_all add: enc_word_def)

interpretation pairs: wire_value enc_pair dec_pair
  by unfold_locales (simp_all add: enc_pair_def)

lemma get_field_simps [simp]:
  "get_field k [] = Some None"
  "get_field k (f # fs) = (if fst f = k then (if get_field k fs = Some None then Some (Some (snd f)) else None) else get_field k fs)"
  by (auto simp: get_field_def split: list.split)

lemma get_field_smaller:
  "get_field k fs = Some (Some v) \<Longrightarrow> size v < Suc (size_list (size_prod (\<lambda>_. 0) size) fs)"
proof (induction fs)
  case (Cons f fs)
  then show ?case by (cases f) (auto split: if_splits)
qed simp

lemma required_cong [fundef_cong]:
  "k = k' \<Longrightarrow> fs = fs' \<Longrightarrow> (\<And>v. get_field k fs = Some (Some v) \<Longrightarrow> dec v = dec' v) \<Longrightarrow> required k dec fs = required k' dec' fs'"
  by (auto simp: required_def split: option.split)

lemma dec_list_cong [fundef_cong]:
  "v = v' \<Longrightarrow> (\<And>vs w. v = WArr vs \<Longrightarrow> w \<in> set vs \<Longrightarrow> dec w = dec' w) \<Longrightarrow> dec_list dec v = dec_list dec' v'"
  by (cases v) (auto cong: map_cong)

section \<open>Assertions\<close>

fun comparison_name :: "Comparison \<Rightarrow> string" where
  "comparison_name Always = ''always''"
| "comparison_name Never = ''never''"
| "comparison_name LessThan = ''less_than''"
| "comparison_name GreaterThan = ''greater_than''"
| "comparison_name Equals = ''equals''"
| "comparison_name NotEqual = ''not_equal''"

definition enc_comparison :: "Comparison \<Rightarrow> wire" where
  "enc_comparison c = WObj [(''cmp'', WText (comparison_name c))]"

definition dec_comparison :: "wire \<Rightarrow> Comparison option" where
  "dec_comparison =
     of_object (required ''cmp'' (dec_name comparison_name [Always, Never, LessThan, GreaterThan, Equals, NotEqual]))"

definition enc_glob_pattern :: "GlobPattern \<Rightarrow> wire" where
  "enc_glob_pattern g = WObj [(''value'', WText (glob_value g))]"

definition dec_glob_pattern :: "wire \<Rightarrow> GlobPattern option" where
  "dec_glob_pattern = of_object (\<lambda>fs. map_option (\<lambda>v. \<lparr>glob_value = v\<rparr>) (required ''value'' dec_text fs))"

fun enc_header_operand :: "HeaderOperand \<Rightarrow> wire" where
  "enc_header_operand HONone = WObj [(''header_op'', WText ''none'')]"
| "enc_header_operand (HOLiteral v) = WObj [(''header_op'', WText ''literal''), (''value'', WText v)]"
| "enc_header_operand (HOGlob g) = WObj [(''header_op'', WText ''glob''), (''pattern'', enc_glob_pattern g)]"

definition dec_header_operand :: "wire \<Rightarrow> HeaderOperand option" where
  "dec_header_operand = of_object (\<lambda>fs. do {
     tag \<leftarrow> required ''header_op'' dec_text fs;
     if tag = ''none'' then Some HONone
     else if tag = ''literal'' then map_option HOLiteral (required ''value'' dec_text fs)
     else if tag = ''glob'' then map_option HOGlob (required ''pattern'' dec_glob_pattern fs)
     else None })"

fun enc_jsonpath_operand :: "JSONPathOperand \<Rightarrow> wire" where
  "enc_jsonpath_operand JONone = WObj [(''jsonpath_op'', WText ''none'')]"
| "enc_jsonpath_operand (JOLiteral v) = WObj [(''jsonpath_op'', WText ''literal''), (''value'', WText v)]"
| "enc_jsonpath_operand (JOGlob g) = WObj [(''jsonpath_op'', WText ''glob''), (''pattern'', enc_glob_pattern g)]"

definition dec_jsonpath_operand :: "wire \<Rightarrow> JSONPathOperand option" where
  "dec_jsonpath_operand = of_object (\<lambda>fs. do {
     tag \<leftarrow> required ''jsonpath_op'' dec_text fs;
     if tag = ''none'' then Some JONone
     else if tag = ''literal'' then map_option JOLiteral (required ''value'' dec_text fs)
     else if tag = ''glob'' then map_option JOGlob (required ''pattern'' dec_glob_pattern fs)
     else None })"

fun enc_op :: "Op \<Rightarrow> wire" where
  "enc_op (OpAnd children) = WObj [(''op'', WText ''and''), (''children'', WArr (map enc_op children))]"
| "enc_op (OpOr children) = WObj [(''op'', WText ''or''), (''children'', WArr (map enc_op children))]"
| "enc_op (OpNot operand) = WObj [(''op'', WText ''not''), (''operand'', enc_op operand)]"
| "enc_op (OpStatusCodeCheck v operator) =
     WObj [(''op'', WText ''status_code_check''), (''value'', enc_word v), (''operator'', enc_comparison operator)]"
| "enc_op (OpJsonPath v operator operand) =
     WObj [(''op'', WText ''json_path''), (''value'', WText v), (''operator'', enc_comparison operator),
       (''operand'', enc_jsonpath_operand operand)]"
| "enc_op (OpHeaderCheck key_op key_operand value_op value_operand) =
     WObj [(''op'', WText ''header_check''), (''key_op'', enc_comparison key_op), (''key_operand'', enc_header_operand key_operand),
       (''value_op'', enc_comparison value_op), (''value_operand'', enc_header_operand value_operand)]"

text \<open>The operator and the operand of a JSONPath were added later and have defaults.\<close>

definition dec_leaf_op :: "string \<Rightarrow> (string \<times> wire) list \<Rightarrow> Op option" where
  "dec_leaf_op tag fs =
     (if tag = ''status_code_check'' then do {
        v \<leftarrow> required ''value'' dec_word fs;
        operator \<leftarrow> required ''operator'' dec_comparison fs;
        Some (OpStatusCodeCheck v operator) }
      else if tag = ''json_path'' then do {
        v \<leftarrow> required ''value'' dec_text fs;
        operator \<leftarrow> defaulted ''operator'' Always dec_comparison fs;
        operand \<leftarrow> defaulted ''operand'' JONone dec_jsonpath_operand fs;
        Some (OpJsonPath v operator operand) }
      else if tag = ''header_check'' then do {
        key_op \<leftarrow> required ''key_op'' dec_comparison fs;
        key_operand \<leftarrow> required ''key_operand'' dec_header_operand fs;
        value_op \<leftarrow> required ''value_op'' dec_comparison fs;
        value_operand \<leftarrow> required ''value_operand'' dec_header_operand fs;
        Some (OpHeaderCheck key_op key_operand value_op value_operand) }
      else None)"

function dec_op :: "wire \<Rightarrow> Op option" where
  "dec_op (WObj fs) =
     (case required ''op'' dec_text fs of
        None \<Rightarrow> None
      | Some tag \<Rightarrow>
          (if tag = ''and'' then map_option OpAnd (required ''children'' (dec_list dec_op) fs)
           else if tag = ''or'' then map_option OpOr (required ''children'' (dec_list dec_op) fs)
           else if tag = ''not'' then map_option OpNot (required ''operand'' dec_op fs)
           else dec_leaf_op tag fs))"
| "dec_op WNull = None"
| "dec_op (WBool _) = None"
| "dec_op (WNum _) = None"
| "dec_op (WText _) = None"
| "dec_op (WArr _) = None"
  by pat_completeness auto
termination
  by (relation "measure size")
    (auto dest!: get_field_smaller size_list_estimation' [where f = size, OF _ order_refl])

definition enc_assertion :: "Assertion \<Rightarrow> wire" where
  "enc_assertion a = WObj [(''root'', enc_op (root a))]"

definition dec_assertion :: "wire \<Rightarrow> Assertion option" where
  "dec_assertion = of_object (\<lambda>fs. map_option (\<lambda>t. \<lparr>root = t\<rparr>) (required ''root'' dec_op fs))"

lemmas read_simps = required_def defaulted_def dec_name_def

interpretation comparisons: wire_value enc_comparison dec_comparison
proof unfold_locales
  show "dec_comparison (enc_comparison x) = Some x" for x
    by (cases x) (simp_all add: enc_comparison_def dec_comparison_def read_simps)
qed (simp add: enc_comparison_def)

interpretation glob_patterns: wire_value enc_glob_pattern dec_glob_pattern
  by unfold_locales (simp_all add: enc_glob_pattern_def dec_glob_pattern_def read_simps)

interpretation header_operands: wire_value enc_header_operand dec_header_operand
proof unfold_locales
  show "dec_header_operand (enc_header_operand x) = Some x" "enc_header_operand x \<noteq> WNull" for x
    by (cases x; simp add: dec_header_operand_def read_simps glob_patterns.dec_enc)+
qed

interpretation jsonpath_operands: wire_value enc_jsonpath_operand dec_jsonpath_operand
proof unfold_locales
  show "dec_jsonpath_operand (enc_jsonpath_operand x) = Some x" "enc_jsonpath_operand x \<noteq> WNull" for x
    by (cases x; simp add: dec_jsonpath_operand_def read_simps glob_patterns.dec_enc)+
qed

lemma those_map_inverse: "(\<And>x. x \<in> set xs \<Longrightarrow> f (g x) = Some x) \<Longrightarrow> those (map (f \<circ> g) xs) = Some xs"
  by (induction xs) auto

interpretation ops: wire_value enc_op dec_op
proof unfold_locales
  show "dec_op (enc_op x) = Some x" for x
    by (induction x)
      (simp_all add: read_simps dec_leaf_op_def those_map_inverse comparisons.dec_enc header_operands.dec_enc
        jsonpath_operands.dec_enc words.dec_enc)
  show "enc_op x \<noteq> WNull" for x by (cases x) simp_all
qed

interpretation assertions: wire_value enc_assertion dec_assertion
  by unfold_locales (simp_all add: enc_assertion_def dec_assertion_def read_simps ops.dec_enc)

section \<open>Errors of assertions\<close>

definition enc_path :: "u32 list \<Rightarrow> wire" where
  "enc_path p = WArr (map enc_word p)"

fun enc_compilation_error :: "CompilationError \<Rightarrow> wire" where
  "enc_compilation_error (InvalidGlob p glob msg) =
     WObj [(''type'', WText ''invalid_glob''), (''assert_path'', enc_path p), (''glob'', WText glob), (''msg'', WText msg)]"
| "enc_compilation_error (JsonPathParser p msg txt pos) =
     WObj [(''type'', WText ''json_path_parser''), (''assert_path'', enc_path p), (''msg'', WText msg), (''path'', WText txt),
       (''pos'', enc_word pos)]"
| "enc_compilation_error (InvalidJsonPath p msg) =
     WObj [(''type'', WText ''invalid_json_path''), (''assert_path'', enc_path p), (''msg'', WText msg)]"
| "enc_compilation_error (TooManyOperations p) =
     WObj [(''type'', WText ''too_many_operations''), (''assert_path'', enc_path p)]"

definition dec_compilation_error :: "wire \<Rightarrow> CompilationError option" where
  "dec_compilation_error = of_object (\<lambda>fs. do {
     tag \<leftarrow> required ''type'' dec_text fs;
     if tag = ''invalid_glob'' then do {
       p \<leftarrow> required ''assert_path'' (dec_list dec_word) fs;
       glob \<leftarrow> required ''glob'' dec_text fs;
       msg \<leftarrow> required ''msg'' dec_text fs;
       Some (InvalidGlob p glob msg) }
     else if tag = ''json_path_parser'' then do {
       p \<leftarrow> required ''assert_path'' (dec_list dec_word) fs;
       msg \<leftarrow> required ''msg'' dec_text fs;
       txt \<leftarrow> required ''path'' dec_text fs;
       pos \<leftarrow> required ''pos'' dec_word fs;
       Some (JsonPathParser p msg txt pos) }
     else if tag = ''invalid_json_path'' then do {
       p \<leftarrow> required ''assert_path'' (dec_list dec_word) fs;
       msg \<leftarrow> required ''msg'' dec_text fs;
       Some (InvalidJsonPath p msg) }
     else if tag = ''too_many_operations'' then map_option TooManyOperations (required ''assert_path'' (dec_list dec_word) fs)
     else None })"

fun enc_runtime_error :: "RuntimeError \<Rightarrow> wire" where
  "enc_runtime_error (RInvalidJsonPath p msg) =
     WObj [(''type'', WText ''invalid_json_path''), (''assert_path'', enc_path p), (''msg'', WText msg)]"
| "enc_runtime_error (TookTooLong p) = WObj [(''type'', WText ''took_too_long''), (''assert_path'', enc_path p)]"
| "enc_runtime_error (InvalidJsonBody body) = WObj [(''type'', WText ''invalid_json_body''), (''body'', WText body)]"
| "enc_runtime_error (InvalidTypeComparison p msg) =
     WObj [(''type'', WText ''invalid_type_comparison''), (''assert_path'', enc_path p), (''msg'', WText msg)]"

definition dec_runtime_error :: "wire \<Rightarrow> RuntimeError option" where
  "dec_runtime_error = of_object (\<lambda>fs. do {
     tag \<leftarrow> required ''type'' dec_text fs;
     if tag = ''invalid_json_path'' then do {
       p \<leftarrow> required ''assert_path'' (dec_list dec_word) fs;
       msg \<leftarrow> required ''msg'' dec_text fs;
       Some (RInvalidJsonPath p msg) }
     else if tag = ''took_too_long'' then map_option TookTooLong (required ''assert_path'' (dec_list dec_word) fs)
     else if tag = ''invalid_json_body'' then map_option InvalidJsonBody (required ''body'' dec_text fs)
     else if tag = ''invalid_type_comparison'' then do {
       p \<leftarrow> required ''assert_path'' (dec_list dec_word) fs;
       msg \<leftarrow> required ''msg'' dec_text fs;
       Some (InvalidTypeComparison p msg) }
     else None })"

text \<open>The two kinds of errors are not tagged: a reader takes the first that fits.\<close>

fun enc_details :: "CheckFailureDetails \<Rightarrow> wire" where
  "enc_details (DCompilation e) = enc_compilation_error e"
| "enc_details (DEvaluation e) = enc_runtime_error e"

definition dec_details :: "wire \<Rightarrow> CheckFailureDetails option" where
  "dec_details v =
     (case dec_compilation_error v of
        Some e \<Rightarrow> Some (DCompilation e)
      | None \<Rightarrow> map_option DEvaluation (dec_runtime_error v))"

lemma dec_path [simp]: "dec_list dec_word (enc_path p) = Some p"
  unfolding enc_path_def by (rule words.list_dec_enc)

interpretation compilation_errors: wire_value enc_compilation_error dec_compilation_error
proof unfold_locales
  show "dec_compilation_error (enc_compilation_error x) = Some x" "enc_compilation_error x \<noteq> WNull" for x
    by (cases x; simp add: dec_compilation_error_def read_simps words.dec_enc)+
qed

interpretation runtime_errors: wire_value enc_runtime_error dec_runtime_error
proof unfold_locales
  show "dec_runtime_error (enc_runtime_error x) = Some x" "enc_runtime_error x \<noteq> WNull" for x
    by (cases x; simp add: dec_runtime_error_def read_simps words.dec_enc)+
qed

text \<open>
  Which failure details survive being written and read: all but one, the evaluation error of an invalid JSONPath.  It is written exactly like the
  compilation error of the same name, and read as that.
\<close>

theorem details_roundtrip_iff:
  "(dec_details (enc_details d) = Some d \<longleftrightarrow> (\<nexists>p msg. d = DEvaluation (RInvalidJsonPath p msg))) \<and>
   dec_details (enc_details (DEvaluation (RInvalidJsonPath p msg))) = Some (DCompilation (InvalidJsonPath p msg))"
proof -
  have same: "enc_runtime_error (RInvalidJsonPath p msg) = enc_compilation_error (InvalidJsonPath p msg)" for p msg by simp
  have other: "dec_compilation_error (enc_runtime_error e) = None" if "\<nexists>p msg. e = RInvalidJsonPath p msg" for e
    using that by (cases e) (simp_all add: dec_compilation_error_def read_simps)
  show ?thesis
  proof (cases d)
    case (DCompilation e)
    then show ?thesis by (simp add: dec_details_def compilation_errors.dec_enc del: enc_compilation_error.simps enc_runtime_error.simps add: same)
  next
    case (DEvaluation e)
    then show ?thesis
      using other [of e] by (cases "\<exists>p msg. e = RInvalidJsonPath p msg")
        (auto simp: dec_details_def compilation_errors.dec_enc runtime_errors.dec_enc same
          simp del: enc_compilation_error.simps enc_runtime_error.simps)
  qed
qed

section \<open>Results\<close>

fun status_name :: "CheckStatus \<Rightarrow> string" where
  "status_name Success = ''success''"
| "status_name Failure = ''failure''"
| "status_name MissedWindow = ''missed_window''"
| "status_name DisallowedByRobots = ''disallowed_by_robots''"

definition dec_status :: "wire \<Rightarrow> CheckStatus option" where
  "dec_status = dec_name status_name [Success, Failure, MissedWindow, DisallowedByRobots]"

text \<open>The name of a reason type on the wire is its \<open>as_str\<close>.\<close>

definition dec_reason_type :: "wire \<Rightarrow> CheckStatusReasonType option" where
  "dec_reason_type = dec_name reason_as_str
     [RTimeout, RDnsError, RTlsError, RConnectionError, RRedirectError, RFailure, RMissProduced, RMissBackfill,
      RAssertionCompilationError, RAssertionEvaluationError]"

definition dec_method :: "wire \<Rightarrow> RequestMethod option" where
  "dec_method = dec_name http_method [Get, Post, Head, Put, Delete, Patch, Options]"

definition enc_reason :: "CheckStatusReason \<Rightarrow> wire" where
  "enc_reason r = WObj
     [(''type'', WText (reason_as_str (status_type r))), (''description'', WText (description r)),
      (''details'', enc_option enc_details (details r))]"

text \<open>An optional field may be missing.\<close>

definition dec_reason :: "wire \<Rightarrow> CheckStatusReason option" where
  "dec_reason = of_object (\<lambda>fs. do {
     ty \<leftarrow> required ''type'' dec_reason_type fs;
     descr \<leftarrow> required ''description'' dec_text fs;
     det \<leftarrow> defaulted ''details'' None (dec_option dec_details) fs;
     Some \<lparr>status_type = ty, description = descr, details = det\<rparr> })"

definition enc_timing :: "Timing \<Rightarrow> wire" where
  "enc_timing t = WObj [(''start_us'', enc_word (start_us t)), (''duration_us'', enc_word (duration_us t))]"

definition dec_timing :: "wire \<Rightarrow> Timing option" where
  "dec_timing = of_object (\<lambda>fs. do {
     s \<leftarrow> required ''start_us'' dec_word fs;
     d \<leftarrow> required ''duration_us'' dec_word fs;
     Some \<lparr>start_us = s, duration_us = d\<rparr> })"

definition enc_durations :: "RequestDurations \<Rightarrow> wire" where
  "enc_durations d = WObj
     [(''dns_lookup'', enc_timing (dns_lookup d)), (''tcp_connection'', enc_timing (tcp_connection d)),
      (''tls_handshake'', enc_timing (tls_handshake d)), (''time_to_first_byte'', enc_timing (time_to_first_byte d)),
      (''send_request'', enc_timing (send_request d)), (''receive_response'', enc_timing (receive_response d))]"

definition dec_durations :: "wire \<Rightarrow> RequestDurations option" where
  "dec_durations = of_object (\<lambda>fs. do {
     a \<leftarrow> required ''dns_lookup'' dec_timing fs;
     b \<leftarrow> required ''tcp_connection'' dec_timing fs;
     c \<leftarrow> required ''tls_handshake'' dec_timing fs;
     d \<leftarrow> required ''time_to_first_byte'' dec_timing fs;
     e \<leftarrow> required ''send_request'' dec_timing fs;
     f \<leftarrow> required ''receive_response'' dec_timing fs;
     Some \<lparr>dns_lookup = a, tcp_connection = b, tls_handshake = c, time_to_first_byte = d, send_request = e,
           receive_response = f\<rparr> })"

definition enc_certificate :: "CertificateInfo \<Rightarrow> wire" where
  "enc_certificate c = WObj
     [(''not_before_timestamp_s'', enc_word (not_before_timestamp_s c)),
      (''not_after_timestamp_s'', enc_word (not_after_timestamp_s c))]"

definition dec_certificate :: "wire \<Rightarrow> CertificateInfo option" where
  "dec_certificate = of_object (\<lambda>fs. do {
     b \<leftarrow> required ''not_before_timestamp_s'' dec_word fs;
     a \<leftarrow> required ''not_after_timestamp_s'' dec_word fs;
     Some \<lparr>not_before_timestamp_s = b, not_after_timestamp_s = a\<rparr> })"

text \<open>A field that is skipped when there is nothing in it.\<close>

definition skipped_if_none :: "string \<Rightarrow> ('a \<Rightarrow> wire) \<Rightarrow> 'a option \<Rightarrow> (string \<times> wire) list" where
  "skipped_if_none k enc x = (case x of None \<Rightarrow> [] | Some y \<Rightarrow> [(k, enc y)])"

definition enc_request_info :: "RequestInfo \<Rightarrow> wire" where
  "enc_request_info i = WObj
     ([(''request_type'', WText (http_method (request_type i))),
       (''http_status_code'', enc_option enc_word (http_status_code i)),
       (''url'', WText (ri_url i)),
       (''request_body_size_bytes'', enc_word (request_body_size_bytes i)),
       (''response_body_size_bytes'', enc_word (response_body_size_bytes i)),
       (''request_duration_us'', enc_word (request_duration_us i)),
       (''durations'', enc_durations (durations i)),
       (''certificate_info'', enc_option enc_certificate (certificate_info i))] @
      skipped_if_none ''response_body'' WText (response_body i) @
      skipped_if_none ''response_headers'' (\<lambda>hs. WArr (map enc_pair hs)) (response_headers i))"

definition dec_request_info :: "wire \<Rightarrow> RequestInfo option" where
  "dec_request_info = of_object (\<lambda>fs. do {
     m \<leftarrow> required ''request_type'' dec_method fs;
     code \<leftarrow> defaulted ''http_status_code'' None (dec_option dec_word) fs;
     url \<leftarrow> required ''url'' dec_text fs;
     sent \<leftarrow> required ''request_body_size_bytes'' dec_word fs;
     received \<leftarrow> required ''response_body_size_bytes'' dec_word fs;
     us \<leftarrow> required ''request_duration_us'' dec_word fs;
     ds \<leftarrow> required ''durations'' dec_durations fs;
     cert \<leftarrow> defaulted ''certificate_info'' None (dec_option dec_certificate) fs;
     body \<leftarrow> defaulted ''response_body'' None (dec_option dec_text) fs;
     headers \<leftarrow> defaulted ''response_headers'' None (dec_option (dec_list dec_pair)) fs;
     Some \<lparr>request_type = m, http_status_code = code, ri_url = url, request_body_size_bytes = sent,
           response_body_size_bytes = received, request_duration_us = us, durations = ds, certificate_info = cert,
           response_body = body, response_headers = headers\<rparr> })"

text \<open>
  The whole result.  How identifiers, instants and durations are written is the libraries' business.
\<close>

record time_formats =
  tf_timestamp_ms :: "datetime \<Rightarrow> int"
  tf_timestamp_us :: "datetime \<Rightarrow> int"
  tf_duration_ms :: "time_delta \<Rightarrow> int"
  tf_duration_us :: "time_delta \<Rightarrow> int"

definition enc_result :: "fmt_externals \<Rightarrow> time_formats \<Rightarrow> CheckResult \<Rightarrow> wire" where
  "enc_result X F r = WObj
     [(''guid'', WText (show_uuid_simple X (cr_guid r))),
      (''subscription_id'', WText (show_uuid_simple X (cr_subscription_id r))),
      (''status'', WText (status_name (cr_status r))),
      (''status_reason'', enc_option enc_reason (cr_status_reason r)),
      (''trace_id'', WText (show_uuid_simple X (cr_trace_id r))),
      (''span_id'', WText (show_span_id X (cr_span_id r))),
      (''scheduled_check_time_ms'', WNum (tf_timestamp_ms F (cr_scheduled_check_time r))),
      (''scheduled_check_time_us'', WNum (tf_timestamp_us F (cr_scheduled_check_time_us r))),
      (''actual_check_time_ms'', WNum (tf_timestamp_ms F (cr_actual_check_time r))),
      (''actual_check_time_us'', WNum (tf_timestamp_us F (cr_actual_check_time_us r))),
      (''duration_ms'', enc_option (\<lambda>d. WNum (tf_duration_ms F d)) (cr_duration r)),
      (''duration_us'', enc_option (\<lambda>d. WNum (tf_duration_us F d)) (cr_duration_us r)),
      (''request_info'', enc_option enc_request_info (cr_request_info r)),
      (''request_info_list'', WArr (map enc_request_info (cr_request_info_list r))),
      (''region'', WText (cr_region r)),
      (''assertion_failure_data'', enc_option enc_assertion (cr_assertion_failure_data r))]"

lemma dec_status_name [simp]: "dec_status (WText (status_name st)) = Some st"
  by (cases st) (simp_all add: dec_status_def read_simps)

lemma dec_reason_name [simp]: "dec_reason_type (WText (reason_as_str ty)) = Some ty"
  by (cases ty) (simp_all add: dec_reason_type_def read_simps)

lemma dec_method_name [simp]: "dec_method (WText (http_method m)) = Some m"
  by (cases m) (simp_all add: dec_method_def read_simps)

interpretation timings: wire_value enc_timing dec_timing
  by unfold_locales (simp_all add: enc_timing_def dec_timing_def read_simps words.dec_enc)

interpretation request_durations: wire_value enc_durations dec_durations
  by unfold_locales (simp_all add: enc_durations_def dec_durations_def read_simps timings.dec_enc)

interpretation certificates: wire_value enc_certificate dec_certificate
  by unfold_locales (simp_all add: enc_certificate_def dec_certificate_def read_simps words.dec_enc)

interpretation headers: wire_value "\<lambda>hs. WArr (map enc_pair hs)" "dec_list dec_pair"
  by (rule pairs.lists_value)

lemmas options_dec_enc = words.option_dec_enc texts.option_dec_enc certificates.option_dec_enc headers.option_dec_enc

lemma get_field_append [simp]:
  "get_field k (fs @ gs) =
     (case get_field k fs of
        None \<Rightarrow> None
      | Some None \<Rightarrow> get_field k gs
      | Some (Some v) \<Rightarrow> if get_field k gs = Some None then Some (Some v) else None)"
  by (induction fs) (auto split: option.splits)

lemma get_field_skipped [simp]:
  "get_field k (skipped_if_none k' enc x) = Some (if k = k' then map_option enc x else None)"
  by (simp add: skipped_if_none_def split: option.split)

context wire_value
begin

lemma skipped_dec_enc:
  "get_field k fs = Some (map_option enc x) \<Longrightarrow> defaulted k None (dec_option dec) fs = Some x"
  by (cases x) (simp_all add: defaulted_def dec_option_def dec_enc enc_not_null)

end

interpretation request_infos: wire_value enc_request_info dec_request_info
proof unfold_locales
  fix i :: RequestInfo
  let ?fs = "[(''request_type'', WText (http_method (request_type i))),
       (''http_status_code'', enc_option enc_word (http_status_code i)),
       (''url'', WText (ri_url i)),
       (''request_body_size_bytes'', enc_word (request_body_size_bytes i)),
       (''response_body_size_bytes'', enc_word (response_body_size_bytes i)),
       (''request_duration_us'', enc_word (request_duration_us i)),
       (''durations'', enc_durations (durations i)),
       (''certificate_info'', enc_option enc_certificate (certificate_info i))] @
      skipped_if_none ''response_body'' WText (response_body i) @
      skipped_if_none ''response_headers'' (\<lambda>hs. WArr (map enc_pair hs)) (response_headers i)"
  have body: "defaulted ''response_body'' None (dec_option dec_text) ?fs = Some (response_body i)"
    by (rule texts.skipped_dec_enc) (cases "response_body i"; simp)
  have headers: "defaulted ''response_headers'' None (dec_option (dec_list dec_pair)) ?fs = Some (response_headers i)"
    by (rule headers.skipped_dec_enc) (cases "response_body i"; simp)
  have "required ''request_type'' dec_method ?fs = Some (request_type i)"
    "defaulted ''http_status_code'' None (dec_option dec_word) ?fs = Some (http_status_code i)"
    "required ''url'' dec_text ?fs = Some (ri_url i)"
    "required ''request_body_size_bytes'' dec_word ?fs = Some (request_body_size_bytes i)"
    "required ''response_body_size_bytes'' dec_word ?fs = Some (response_body_size_bytes i)"
    "required ''request_duration_us'' dec_word ?fs = Some (request_duration_us i)"
    "required ''durations'' dec_durations ?fs = Some (durations i)"
    "defaulted ''certificate_info'' None (dec_option dec_certificate) ?fs = Some (certificate_info i)"
    by (simp_all add: read_simps words.dec_enc request_durations.dec_enc options_dec_enc split: option.split)
  with body headers show "dec_request_info (enc_request_info i) = Some i"
    unfolding dec_request_info_def enc_request_info_def of_object.simps by simp
  show "enc_request_info i \<noteq> WNull" by (simp add: enc_request_info_def)
qed

definition readable_details :: "CheckFailureDetails option \<Rightarrow> bool" where
  "readable_details d \<longleftrightarrow> (\<nexists>p msg. d = Some (DEvaluation (RInvalidJsonPath p msg)))"

lemma details_dec_enc:
  assumes "readable_details (Some d)"
  shows "dec_details (enc_details d) = Some d"
proof (cases d)
  case (DCompilation e)
  then show ?thesis by (simp add: dec_details_def compilation_errors.dec_enc)
next
  case (DEvaluation e)
  have "dec_compilation_error (enc_runtime_error e) = None"
    using assms DEvaluation by (cases e) (simp_all add: readable_details_def dec_compilation_error_def read_simps)
  then show ?thesis by (simp add: dec_details_def DEvaluation runtime_errors.dec_enc)
qed

lemma enc_details_not_null: "enc_details d \<noteq> WNull"
  by (cases d) (simp_all add: compilation_errors.enc_not_null runtime_errors.enc_not_null)

lemma enc_reason_not_null: "enc_reason r \<noteq> WNull"
  by (simp add: enc_reason_def)

lemma reason_dec_enc:
  assumes "readable_details (details r)"
  shows "dec_reason (enc_reason r) = Some r"
proof -
  have "dec_option dec_details (enc_option enc_details (details r)) = Some (details r)"
    using assms by (cases "details r") (simp_all add: dec_option_def enc_option_def details_dec_enc enc_details_not_null)
  then show ?thesis by (simp add: dec_reason_def enc_reason_def read_simps)
qed

text \<open>
  C27: A consumer of the results reads what the checker meant: a written result has no field twice, and its status, its reason (unless
  that is the evaluation error of an invalid JSONPath), the requests, the region and the evidence of a failed assertion are read back as they were.
\<close>

theorem result_readable:
  assumes "\<forall>reason. cr_status_reason r = Some reason \<longrightarrow> readable_details (details reason)"
  shows "\<exists>fs. enc_result X F r = WObj fs \<and> distinct (map fst fs) \<and>
    required ''status'' dec_status fs = Some (cr_status r) \<and>
    required ''status_reason'' (dec_option dec_reason) fs = Some (cr_status_reason r) \<and>
    required ''request_info'' (dec_option dec_request_info) fs = Some (cr_request_info r) \<and>
    required ''request_info_list'' (dec_list dec_request_info) fs = Some (cr_request_info_list r) \<and>
    required ''region'' dec_text fs = Some (cr_region r) \<and>
    required ''assertion_failure_data'' (dec_option dec_assertion) fs = Some (cr_assertion_failure_data r)"
proof -
  have "dec_option dec_reason (enc_option enc_reason (cr_status_reason r)) = Some (cr_status_reason r)"
    using assms by (cases "cr_status_reason r") (simp_all add: dec_option_def enc_option_def reason_dec_enc enc_reason_not_null)
  then show ?thesis
    by (simp add: enc_result_def required_def request_infos.option_dec_enc assertions.option_dec_enc
        request_infos.list_dec_enc del: dec_list.simps)
qed

theorem result_readable_witness:
  "readable_details (Some (DEvaluation (TookTooLong [0]))) \<and>
   (\<exists>fs. enc_result plain_fmt \<lparr>tf_timestamp_ms = \<lambda>t. t div 1000000, tf_timestamp_us = \<lambda>t. t div 1000, tf_duration_ms = \<lambda>t. t div 1000000,
        tf_duration_us = \<lambda>t. t div 1000\<rparr> (missed_from 0 1 (plain_check False None) ''us'') = WObj fs \<and>
      required ''status'' dec_status fs = Some MissedWindow \<and> required ''region'' dec_text fs = Some ''us'')"
proof -
  have "\<forall>reason. cr_status_reason (missed_from 0 1 (plain_check False None) ''us'') = Some reason \<longrightarrow> readable_details (details reason)"
    by (simp add: missed_from_def readable_details_def)
  from result_readable [OF this] show ?thesis by (fastforce simp: readable_details_def missed_from_def)
qed


section \<open>Configurations\<close>

definition enc_mode :: "RegionScheduleMode \<Rightarrow> wire" where
  "enc_mode m = WText (case m of RoundRobin \<Rightarrow> ''round_robin'')"

definition dec_mode :: "wire \<Rightarrow> RegionScheduleMode option" where
  "dec_mode = dec_name (\<lambda>m. case m of RoundRobin \<Rightarrow> ''round_robin'') [RoundRobin]"

text \<open>An interval is its number of seconds, and no other number is one.\<close>

definition enc_interval :: "CheckInterval \<Rightarrow> wire" where
  "enc_interval i = WNum (int (interval_secs i))"

fun dec_interval :: "wire \<Rightarrow> CheckInterval option" where
  "dec_interval (WNum n) =
     find (\<lambda>i. int (interval_secs i) = n) [OneMinute, FiveMinutes, TenMinutes, TwentyMinutes, ThirtyMinutes, SixtyMinutes]"
| "dec_interval _ = None"

text \<open>How identifiers and durations are written and read.\<close>

record config_formats =
  cg_show_uuid :: "u128 \<Rightarrow> string"
  cg_parse_uuid :: "string \<Rightarrow> u128 option"
  cg_millis :: "time_delta \<Rightarrow> int"
  cg_of_millis :: "int \<Rightarrow> time_delta option"

definition enc_config :: "config_formats \<Rightarrow> check_config \<Rightarrow> wire" where
  "enc_config F c = WObj
     [(''subscription_id'', WText (cg_show_uuid F (cc_subscription_id c))),
      (''interval_seconds'', enc_interval (cc_interval c)),
      (''timeout_ms'', WNum (cg_millis F (cc_timeout c))),
      (''url'', WText (cc_url c)),
      (''request_method'', WText (http_method (cc_request_method c))),
      (''request_headers'', WArr (map enc_pair (cc_request_headers c))),
      (''request_body'', WText (cc_request_body c)),
      (''trace_sampling'', WBool (cc_trace_sampling c)),
      (''active_regions'', enc_option (\<lambda>rs. WArr (map WText rs)) (cc_active_regions c)),
      (''region_schedule_mode'', enc_option enc_mode (cc_region_schedule_mode c)),
      (''assertion'', enc_option enc_assertion (cc_assertion c)),
      (''capture_response_on_failure'', WBool (cc_capture_response_on_failure c))]"

fun dec_millis :: "config_formats \<Rightarrow> wire \<Rightarrow> time_delta option" where
  "dec_millis F (WNum n) = (if i64_min \<le> n \<and> n \<le> i64_max then cg_of_millis F n else None)"
| "dec_millis F _ = None"

definition dec_config :: "config_formats \<Rightarrow> wire \<Rightarrow> check_config option" where
  "dec_config F = of_object (\<lambda>fs. do {
     i \<leftarrow> required ''subscription_id'' (\<lambda>v. Option.bind (dec_text v) (cg_parse_uuid F)) fs;
     interval \<leftarrow> required ''interval_seconds'' dec_interval fs;
     timeout \<leftarrow> required ''timeout_ms'' (dec_millis F) fs;
     url \<leftarrow> required ''url'' dec_text fs;
     m \<leftarrow> defaulted ''request_method'' Get dec_method fs;
     headers \<leftarrow> defaulted ''request_headers'' [] (dec_list dec_pair) fs;
     body \<leftarrow> defaulted ''request_body'' [] dec_text fs;
     sampling \<leftarrow> defaulted ''trace_sampling'' False dec_bool fs;
     regions \<leftarrow> defaulted ''active_regions'' None (dec_option (dec_list dec_text)) fs;
     mode \<leftarrow> defaulted ''region_schedule_mode'' None (dec_option dec_mode) fs;
     assertion \<leftarrow> defaulted ''assertion'' None (dec_option dec_assertion) fs;
     capture \<leftarrow> defaulted ''capture_response_on_failure'' True dec_bool fs;
     Some \<lparr>cc_subscription_id = i, cc_interval = interval, cc_timeout = timeout, cc_url = url, cc_request_method = m,
           cc_request_headers = headers, cc_request_body = body, cc_trace_sampling = sampling, cc_active_regions = regions,
           cc_region_schedule_mode = mode, cc_assertion = assertion, cc_capture_response_on_failure = capture\<rparr> })"

interpretation modes: wire_value enc_mode dec_mode
proof unfold_locales
  show "dec_mode (enc_mode m) = Some m" "enc_mode m \<noteq> WNull" for m
    by (cases m; simp add: enc_mode_def dec_mode_def read_simps)+
qed

interpretation intervals: wire_value enc_interval dec_interval
proof unfold_locales
  show "dec_interval (enc_interval i) = Some i" "enc_interval i \<noteq> WNull" for i
    by (cases i; simp add: enc_interval_def)+
qed

interpretation region_lists: wire_value "\<lambda>rs. WArr (map WText rs)" "dec_list dec_text"
  by (rule texts.lists_value)

text \<open>What is relied on: a written identifier, and a timeout of whole milliseconds, can be read.\<close>

definition config_formats_law :: "config_formats \<Rightarrow> check_config \<Rightarrow> bool" where
  "config_formats_law F c \<longleftrightarrow>
     (\<forall>i. cg_parse_uuid F (cg_show_uuid F i) = Some i) \<and>
     cg_of_millis F (cg_millis F (cc_timeout c)) = Some (cc_timeout c) \<and>
     i64_min \<le> cg_millis F (cc_timeout c) \<and> cg_millis F (cc_timeout c) \<le> i64_max"

lemma configs_dec_enc:
  assumes "config_formats_law F c"
  shows "dec_config F (enc_config F c) = Some c"
  using assms unfolding config_formats_law_def
  by (simp add: dec_config_def enc_config_def required_def defaulted_def intervals.dec_enc region_lists.option_dec_enc
      modes.option_dec_enc assertions.option_dec_enc pairs.list_dec_enc del: dec_list.simps dec_interval.simps)

text \<open>
  C26: A configuration survives being written and read; and one with nothing but the four required fields is read with the defaults: a GET without headers and
  body, not sampled, in no particular region, without assertion, and with capturing of the response allowed.
\<close>

theorem config_roundtrip:
  assumes "config_formats_law F c"
  shows "dec_config F (enc_config F c) = Some c \<and>
    dec_config F (WObj
      [(''subscription_id'', WText (cg_show_uuid F (cc_subscription_id c))), (''interval_seconds'', enc_interval (cc_interval c)),
       (''timeout_ms'', WNum (cg_millis F (cc_timeout c))), (''url'', WText (cc_url c))])
    = Some \<lparr>cc_subscription_id = cc_subscription_id c, cc_interval = cc_interval c, cc_timeout = cc_timeout c, cc_url = cc_url c,
        cc_request_method = Get, cc_request_headers = [], cc_request_body = [], cc_trace_sampling = False,
        cc_active_regions = None, cc_region_schedule_mode = None, cc_assertion = None, cc_capture_response_on_failure = True\<rparr>"
proof -
  note law = assms [unfolded config_formats_law_def]
  have "dec_config F (enc_config F c) = Some c" by (rule configs_dec_enc [OF assms])
  moreover have "dec_config F (WObj
      [(''subscription_id'', WText (cg_show_uuid F (cc_subscription_id c))), (''interval_seconds'', enc_interval (cc_interval c)),
       (''timeout_ms'', WNum (cg_millis F (cc_timeout c))), (''url'', WText (cc_url c))])
    = Some \<lparr>cc_subscription_id = cc_subscription_id c, cc_interval = cc_interval c, cc_timeout = cc_timeout c, cc_url = cc_url c,
        cc_request_method = Get, cc_request_headers = [], cc_request_body = [], cc_trace_sampling = False,
        cc_active_regions = None, cc_region_schedule_mode = None, cc_assertion = None, cc_capture_response_on_failure = True\<rparr>"
    using law by (simp add: dec_config_def required_def defaulted_def intervals.dec_enc del: dec_interval.simps)
  ultimately show ?thesis ..
qed

text \<open>Identifiers in decimal.\<close>

definition plain_formats :: config_formats where
  "plain_formats =
     \<lparr>cg_show_uuid = \<lambda>i. show_nat (unat i), cg_parse_uuid = \<lambda>s. Some (of_nat (digits_value s)),
      cg_millis = \<lambda>d. d div 1000000, cg_of_millis = \<lambda>n. Some (n * 1000000)\<rparr>"

lemma digits_value_show_nat: "digits_value (show_nat n) = n"
proof (induction n rule: show_nat.induct)
  case (1 n)
  show ?case
  proof (cases "n < 10")
    case True
    then show ?thesis by (simp add: show_nat.simps [of n] digits_value_def)
  next
    case False
    with "1.IH" have "foldl (\<lambda>a c. a * 10 + (case digit_of c of None \<Rightarrow> 0 | Some d \<Rightarrow> d)) 0 (show_nat (n div 10)) = n div 10"
      by (simp add: digits_value_def)
    with False show ?thesis by (simp add: show_nat.simps [of n] digits_value_def)
  qed
qed

lemma plain_formats_law: "config_formats_law plain_formats default_check_config"
  by (simp add: config_formats_law_def plain_formats_def digits_value_show_nat default_check_config_def seconds_def
      i64_min_def i64_max_def)

theorem config_roundtrip_witness:
  "config_formats_law plain_formats default_check_config \<and>
   dec_config plain_formats (enc_config plain_formats default_check_config) = Some default_check_config"
  using config_roundtrip [OF plain_formats_law] plain_formats_law by blast

end
