(* ===== verification/Requests.thy ===== *)
theory Requests
  imports Endpoint WireFormat
begin

text \<open>
  A request to the web endpoint from its path to its reply (\<open>src/src/endpoint/\<close>): the routes, the extraction of the JSON body, the handlers of the
  theory \<open>Endpoint\<close>, and what their answers look like.

  The web framework is the record \<open>axum_lib\<close>: reading a body as a tree, the texts of its rejections, and its own replies.
\<close>

section \<open>Requests and replies\<close>

record web_request =
  wr_method :: string
  wr_path :: string
  wr_content_type :: "string option"
  wr_body :: bytes

record web_reply =
  hp_status :: nat
  hp_body :: "wire option"

text \<open>\<open>ax_read_json\<close>: the text of the rejection (of the content type, the body or its syntax), or the tree.\<close>

record axum_lib =
  ax_read_json :: "string option \<Rightarrow> bytes \<Rightarrow> string + wire"
  ax_data_error :: "wire \<Rightarrow> string"
  ax_not_found :: web_reply
  ax_not_allowed :: web_reply

text \<open>What is documented: the status codes for an unknown path and for a method without a handler.\<close>

definition axum_law :: "axum_lib \<Rightarrow> bool" where
  "axum_law A \<longleftrightarrow> hp_status (ax_not_found A) = 404 \<and> hp_status (ax_not_allowed A) = 405"

datatype route = ExecuteRoute | ValidateRoute

definition routes :: "(string \<times> route) list" where
  "routes = [(''/execute_config'', ExecuteRoute), (''/validate_check'', ValidateRoute)]"

definition new_router :: "axum_lib \<Rightarrow> web_request \<Rightarrow> web_reply + route" where
  "new_router A req =
     (case map_of routes (wr_path req) of
        None \<Rightarrow> Inl (ax_not_found A)
      | Some r \<Rightarrow> if wr_method req = ''POST'' then Inr r else Inl (ax_not_allowed A))"

section \<open>Bodies\<close>

text \<open>Any rejection of the body is turned into the handler's own error, with the text of the rejection.\<close>

definition app_json :: "axum_lib \<Rightarrow> config_formats \<Rightarrow> string option \<Rightarrow> bytes \<Rightarrow> string + check_config" where
  "app_json A F content_type body =
     (case ax_read_json A content_type body of
        Inl body_text \<Rightarrow> Inl body_text
      | Inr v \<Rightarrow> (case dec_config F v of None \<Rightarrow> Inl (ax_data_error A v) | Some c \<Rightarrow> Inr c))"

fun enc_validate_error :: "ValidateError \<Rightarrow> wire" where
  "enc_validate_error (VSerializationError d) = WObj [(''error'', WText ''serialization_error''), (''details'', WText d)]"
| "enc_validate_error (VCompilationError e) =
     WObj [(''error'', WText ''compilation_error''), (''compile_error'', enc_compilation_error e)]"

fun enc_execute_error :: "ExecuteError \<Rightarrow> wire" where
  "enc_execute_error (XSerializationError d) = WObj [(''error'', WText ''serialization_error''), (''details'', WText d)]"
| "enc_execute_error CheckerShutdown = WObj [(''error'', WText ''checker_shutdown'')]"

definition enc_wrapper :: "fmt_externals \<Rightarrow> time_formats \<Rightarrow> ResultWrapper \<Rightarrow> wire" where
  "enc_wrapper X T r = WObj [(''check_result'', enc_option (enc_result X T) (rw_check_result r))]"

definition validate_reply :: "ValidateError + unit \<Rightarrow> web_reply" where
  "validate_reply r =
     (case r of
        Inl err \<Rightarrow> \<lparr>hp_status = validate_status err, hp_body = Some (enc_validate_error err)\<rparr>
      | Inr _ \<Rightarrow> \<lparr>hp_status = 200, hp_body = None\<rparr>)"

definition execute_reply :: "fmt_externals \<Rightarrow> time_formats \<Rightarrow> ExecuteError + ResultWrapper \<Rightarrow> web_reply" where
  "execute_reply X T r =
     (case r of
        Inl err \<Rightarrow> \<lparr>hp_status = execute_status err, hp_body = Some (enc_execute_error err)\<rparr>
      | Inr rw \<Rightarrow> \<lparr>hp_status = 200, hp_body = Some (enc_wrapper X T rw)\<rparr>)"

section \<open>Handling\<close>

text \<open>What a request meets besides the state: two instants, an identifier, and what the checker's request meets.\<close>

record 'w request_input =
  rq_now :: datetime
  rq_later :: datetime
  rq_guid :: u128
  rq_world :: 'w

record ('p, 'q, 'j, 'w, 'st) web_env =
  we_axum :: axum_lib
  we_externals :: "('p, 'q, 'j) externals"
  we_check_url :: "'w \<Rightarrow> ScheduledCheck \<Rightarrow> string \<Rightarrow> 'st \<Rightarrow> (CheckResult \<times> 'st) option"
  we_check_robots :: "'w \<Rightarrow> ScheduledCheck \<Rightarrow> string \<Rightarrow> 'st \<Rightarrow> (CheckResult option \<times> 'st) option"
  we_formats :: config_formats
  we_fmt :: fmt_externals
  we_times :: time_formats

definition handle_request ::
  "('p, 'q, 'j, 'w, 'st) web_env \<Rightarrow> 'st EndpointState \<Rightarrow> 'w request_input \<Rightarrow> web_request \<Rightarrow> (web_reply \<times> 'st) option" where
  "handle_request W state i req =
     (let json = app_json (we_axum W) (we_formats W) (wr_content_type req)
      in case new_router (we_axum W) req of
           Inl reply \<Rightarrow> Some (reply, es_checker state)
         | Inr ValidateRoute \<Rightarrow>
             Some (validate_reply (post_validate_check (we_externals W) json state (wr_body req)), es_checker state)
         | Inr ExecuteRoute \<Rightarrow>
             map_option (map_prod (execute_reply (we_fmt W) (we_times W)) id)
               (post_execute_config (we_check_url W) (we_check_robots W) json (rq_now i)
                 (execute_input (rq_later i) (rq_guid i)) (rq_world i) state (wr_body req)))"

text \<open>Requests one after the other, as they complete; the checker, with its cache, is shared.\<close>

fun serve_requests ::
  "('p, 'q, 'j, 'w, 'st) web_env \<Rightarrow> 'st EndpointState \<Rightarrow> ('w request_input \<times> web_request) list \<Rightarrow> (web_reply list \<times> 'st) option" where
  "serve_requests W state [] = Some ([], es_checker state)"
| "serve_requests W state ((i, req) # rest) =
     (case handle_request W state i req of
        None \<Rightarrow> None
      | Some (reply, st) \<Rightarrow>
          (case serve_requests W (state\<lparr>es_checker := st\<rparr>) rest of
             None \<Rightarrow> None
           | Some (replies, st') \<Rightarrow> Some (reply # replies, st')))"

section \<open>The contract\<close>

text \<open>The status that a request deserves, whatever the checker's state and whatever the checked site does.\<close>

definition request_status :: "('p, 'q, 'j, 'w, 'st) web_env \<Rightarrow> u32 \<Rightarrow> web_request \<Rightarrow> nat" where
  "request_status W ops req =
     (if wr_path req \<noteq> ''/execute_config'' \<and> wr_path req \<noteq> ''/validate_check'' then 404
      else if wr_method req \<noteq> ''POST'' then 405
      else case app_json (we_axum W) (we_formats W) (wr_content_type req) (wr_body req) of
             Inl _ \<Rightarrow> 400
           | Inr c \<Rightarrow>
               if wr_path req = ''/validate_check'' \<and>
                  (\<exists>a e. cc_assertion c = Some a \<and> compile (we_externals W) a ops = Inl e)
               then 400 else 200)"

text \<open>An environment in which the HTTP checker runs, and a checker whose cache is right.\<close>

definition real_checker where
  "real_checker W C H S X v5 \<longleftrightarrow>
     we_check_url W = http_check_url (we_externals W) C H S X v5 \<and> we_check_robots W = http_check_robots H X v5 \<and>
     js_gas_law (we_externals W) \<and> cache_law C \<and> axum_law (we_axum W)"

definition checker_ready where
  "checker_ready W C st \<longleftrightarrow>
     (\<exists>self. st = HReqwest self \<and> cache_coherent C (we_externals W) (rc_max_assertion_ops self) (rc_assert_cache self))"

lemma validate_reply_status:
  "hp_status (validate_reply (validate_check E state c)) =
     (if \<exists>a e. cc_assertion c = Some a \<and> compile E a (es_max_assertion_ops state) = Inl e then 400 else 200)"
  by (simp add: validate_reply_def validate_check_def split: option.split sum.split)

lemma new_router_cases:
  "new_router A req =
     (if wr_path req \<noteq> ''/execute_config'' \<and> wr_path req \<noteq> ''/validate_check'' then Inl (ax_not_found A)
      else if wr_method req \<noteq> ''POST'' then Inl (ax_not_allowed A)
      else if wr_path req = ''/validate_check'' then Inr ValidateRoute else Inr ExecuteRoute)"
  by (simp add: new_router_def routes_def)

lemma handle_request_status:
  assumes "real_checker W C H S X v5" "checker_ready W C (es_checker state)"
  shows "\<exists>reply st. handle_request W state i req = Some (reply, st) \<and> checker_ready W C st \<and>
    hp_status reply = request_status W (es_max_assertion_ops state) req"
proof -
  have law: "hp_status (ax_not_found (we_axum W)) = 404" "hp_status (ax_not_allowed (we_axum W)) = 405"
    using assms(1) by (simp_all add: real_checker_def axum_law_def)
  let ?json = "app_json (we_axum W) (we_formats W) (wr_content_type req) (wr_body req)"
  consider (other) r where "new_router (we_axum W) req = Inl r" | (validate) "new_router (we_axum W) req = Inr ValidateRoute"
    | (exec) "new_router (we_axum W) req = Inr ExecuteRoute"
    by (cases "new_router (we_axum W) req") (auto intro: route.exhaust)
  then show ?thesis
  proof cases
    case other
    then show ?thesis
      using law assms(2) by (auto simp: handle_request_def new_router_cases request_status_def split: if_splits)
  next
    case validate
    then have p: "wr_path req = ''/validate_check''" "wr_method req = ''POST''" by (auto simp: new_router_cases split: if_splits)
    show ?thesis
    proof (cases ?json)
      case (Inl e)
      then show ?thesis
        using validate assms(2) p
        by (simp add: handle_request_def request_status_def post_validate_check_def validate_reply_def)
    next
      case (Inr c)
      then show ?thesis
        using validate assms(2) p validate_reply_status [of "we_externals W" state c]
        by (simp add: handle_request_def request_status_def post_validate_check_def)
    qed
  next
    case exec
    then have p: "wr_path req = ''/execute_config''" "wr_method req = ''POST''" by (auto simp: new_router_cases split: if_splits)
    show ?thesis
    proof (cases ?json)
      case (Inl e)
      then show ?thesis
        using exec assms(2) p
        by (simp add: handle_request_def request_status_def post_execute_config_def execute_reply_def)
    next
      case (Inr c)
      obtain self where self: "es_checker state = HReqwest self"
          "cache_coherent C (we_externals W) (rc_max_assertion_ops self) (rc_assert_cache self)"
        using assms(2) by (auto simp: checker_ready_def)
      from execute_config_keeps [OF _ _ self] assms(1) obtain r self' where
        run: "execute_config (we_check_url W) (we_check_robots W) (rq_now i) (execute_input (rq_later i) (rq_guid i)) (rq_world i) state c
            = Some (Inr \<lparr>rw_check_result = Some r\<rparr>, HReqwest self')"
          "cache_coherent C (we_externals W) (rc_max_assertion_ops self') (rc_assert_cache self')"
        unfolding real_checker_def by metis
      then have "checker_ready W C (HReqwest self')" by (simp add: checker_ready_def)
      with run(1) Inr show ?thesis
        using exec p by (simp add: handle_request_def request_status_def post_execute_config_def execute_reply_def)
    qed
  qed
qed

lemma serve_requests_status:
  assumes "real_checker W C H S X v5"
  shows "checker_ready W C (es_checker state) \<Longrightarrow>
    \<exists>replies st. serve_requests W state rqs = Some (replies, st) \<and> checker_ready W C st \<and>
      map hp_status replies = map (request_status W (es_max_assertion_ops state) \<circ> snd) rqs"
proof (induction rqs arbitrary: state)
  case (Cons x rqs)
  obtain i req where x: "x = (i, req)" by (cases x)
  obtain reply st where h: "handle_request W state i req = Some (reply, st)" "checker_ready W C st"
      "hp_status reply = request_status W (es_max_assertion_ops state) req"
    using handle_request_status [OF assms Cons.prems] by blast
  then have "checker_ready W C (es_checker (state\<lparr>es_checker := st\<rparr>))" by simp
  from Cons.IH [OF this] obtain replies st' where "serve_requests W (state\<lparr>es_checker := st\<rparr>) rqs = Some (replies, st')"
      "checker_ready W C st'" "map hp_status replies = map (request_status W (es_max_assertion_ops state) \<circ> snd) rqs"
    by auto
  with h show ?case by (simp add: x)
qed simp

section \<open>A server\<close>

text \<open>A body is read when its content type is given, and is then always the same configuration.\<close>

definition plain_axum :: axum_lib where
  "plain_axum =
     \<lparr>ax_read_json = \<lambda>content_type _. (case content_type of
          None \<Rightarrow> Inl ''content type''
        | Some _ \<Rightarrow> Inr (enc_config plain_formats default_check_config)),
      ax_data_error = \<lambda>_. ''data'', ax_not_found = \<lparr>hp_status = 404, hp_body = None\<rparr>,
      ax_not_allowed = \<lparr>hp_status = 405, hp_body = None\<rparr>\<rparr>"

definition plain_web where
  "plain_web =
     \<lparr>we_axum = plain_axum, we_externals = plain_externals,
      we_check_url = http_check_url plain_externals plain_cache plain_http plain_stats plain_fmt (\<lambda>_ _. 7),
      we_check_robots = http_check_robots plain_http plain_fmt (\<lambda>_ _. 7), we_formats = plain_formats, we_fmt = plain_fmt,
      we_times = \<lparr>tf_timestamp_ms = \<lambda>t. t div 1000000, tf_timestamp_us = \<lambda>t. t div 1000, tf_duration_ms = \<lambda>t. t div 1000000,
        tf_duration_us = \<lambda>t. t div 1000\<rparr>\<rparr>"

definition post :: "string \<Rightarrow> string option \<Rightarrow> web_request" where
  "post path content_type = \<lparr>wr_method = ''POST'', wr_path = path, wr_content_type = content_type, wr_body = []\<rparr>"

definition plain_request_input :: "http_input request_input" where
  "plain_request_input =
     \<lparr>rq_now = 0, rq_later = 1, rq_guid = 2,
      rq_world = \<lparr>hi_reqwest = plain_input 500 [], hi_dummy = \<lparr>in_now = 0, in_trace_id = 0, in_guid = 0, in_span_id = 0\<rparr>\<rparr>\<rparr>"

lemma plain_real: "real_checker plain_web plain_cache plain_http plain_stats plain_fmt (\<lambda>_ _. 7)"
  by (simp add: real_checker_def plain_web_def plain_js_gas_law plain_cache_law axum_law_def plain_axum_def)

lemma plain_ready: "checker_ready plain_web plain_cache (es_checker (new_endpoint_state default_config (HReqwest plain_checker)))"
  using plain_checker_coherent by (simp add: checker_ready_def new_endpoint_state_def)

lemma plain_read:
  "app_json (we_axum plain_web) (we_formats plain_web) (Some t) body = Inr default_check_config"
  "app_json (we_axum plain_web) (we_formats plain_web) None body = Inl ''content type''"
  by (simp_all add: plain_web_def app_json_def plain_axum_def configs_dec_enc [OF plain_formats_law])

text \<open>
  C18: Every request to the web endpoint is answered, whatever the requests before it did to the shared checker: none panics, and the status code depends on the request
  alone.  It is 404 for a path other than the two, 405 for a method other than POST, 400 for a body that is not a configuration, 400 for a
  configuration to be validated whose assertion does not compile, and 200 otherwise; 500 is never given.
\<close>

theorem server_answers:
  assumes "real_checker W C H S X v5" "checker_ready W C (es_checker state)"
  shows "\<exists>replies st. serve_requests W state rqs = Some (replies, st) \<and>
    map hp_status replies = map (request_status W (es_max_assertion_ops state) \<circ> snd) rqs"
  using serve_requests_status [OF assms] by blast

theorem server_answers_witness:
  "\<exists>replies st. serve_requests plain_web (new_endpoint_state default_config (HReqwest plain_checker))
       (map (Pair plain_request_input)
         [post ''/execute_config'' (Some []), post ''/validate_check'' (Some []), post ''/validate_check'' None, post ''/'' None,
          (post ''/execute_config'' None)\<lparr>wr_method := ''GET''\<rparr>]) = Some (replies, st) \<and>
     map hp_status replies = [200, 200, 400, 404, 405]"
proof -
  have "cc_assertion default_check_config = None" by (simp add: default_check_config_def)
  then have "map (request_status plain_web ops \<circ> snd) (map (Pair plain_request_input)
       [post ''/execute_config'' (Some []), post ''/validate_check'' (Some []), post ''/validate_check'' None, post ''/'' None,
        (post ''/execute_config'' None)\<lparr>wr_method := ''GET''\<rparr>]) = [200, 200, 400, 404, 405]" for ops
    by (simp add: request_status_def post_def plain_read)
  then show ?thesis using server_answers [OF plain_real plain_ready] by metis
qed



end
