(* ===== verification/ConfigLayers.thy ===== *)
theory ConfigLayers
  imports AppConfig WireFormat
begin

text \<open>
  From the sources of a configuration to its record (\<open>src/src/app/config.rs\<close>): how the \<open>serde\<close> attributes of \<open>Config\<close> name, nest and default its
  fields, and which source wins.

  A source is, for the program, a dictionary from keys to the trees of \<open>WireFormat\<close>; reading files and variables is the library's.
\<close>

section \<open>Names\<close>

fun level_name :: "Level \<Rightarrow> string" where
  "level_name LevelError = ''error''"
| "level_name LevelWarn = ''warn''"
| "level_name LevelInfo = ''info''"
| "level_name LevelDebug = ''debug''"
| "level_name LevelTrace = ''trace''"
| "level_name LevelOff = ''off''"

fun log_format_name :: "LogFormat \<Rightarrow> string" where
  "log_format_name FormatAuto = ''auto''"
| "log_format_name FormatPretty = ''pretty''"
| "log_format_name FormatSimplified = ''simplified''"
| "log_format_name FormatJson = ''json''"

fun provider_mode_name :: "ConfigProviderMode \<Rightarrow> string" where
  "provider_mode_name ProviderRedis = ''redis''"

fun producer_mode_name :: "ProducerMode \<Rightarrow> string" where
  "producer_mode_name ProducerKafka = ''kafka''"
| "producer_mode_name ProducerVector = ''vector''"

fun checker_mode_name :: "CheckerMode \<Rightarrow> string" where
  "checker_mode_name CheckerReqwest = ''reqwest''"

definition dec_level :: "wire \<Rightarrow> Level option" where
  "dec_level = dec_name level_name [LevelError, LevelWarn, LevelInfo, LevelDebug, LevelTrace, LevelOff]"

definition dec_log_format :: "wire \<Rightarrow> LogFormat option" where
  "dec_log_format = dec_name log_format_name [FormatAuto, FormatPretty, FormatSimplified, FormatJson]"

definition dec_protocol :: "wire \<Rightarrow> KafkaSecurityProtocol option" where
  "dec_protocol = dec_name protocol_to_string [Plaintext, Ssl, SaslPlaintext, SaslSsl]"

definition dec_provider_mode :: "wire \<Rightarrow> ConfigProviderMode option" where
  "dec_provider_mode = dec_name provider_mode_name [ProviderRedis]"

definition dec_producer_mode :: "wire \<Rightarrow> ProducerMode option" where
  "dec_producer_mode = dec_name producer_mode_name [ProducerKafka, ProducerVector]"

definition dec_checker_mode :: "wire \<Rightarrow> CheckerMode option" where
  "dec_checker_mode = dec_name checker_mode_name [CheckerReqwest]"

section \<open>Fields\<close>

text \<open>How addresses are read: their text in its standard form, if it is one.\<close>

record address_readers =
  ar_socket :: "string \<Rightarrow> string option"
  ar_ip :: "string \<Rightarrow> string + string"

text \<open>A comma separates the brokers; the empty text is the empty list.\<close>

definition enc_cluster :: "string list \<Rightarrow> wire" where
  "enc_cluster ws = WText (join (CHR '','') ws)"

definition dec_cluster :: "wire \<Rightarrow> string list option" where
  "dec_cluster v = map_option (\<lambda>s. if s = [] then [] else split_on (CHR '','') s) (dec_text v)"

definition enc_tags :: "(string \<times> string) list \<Rightarrow> wire" where
  "enc_tags tags = WObj (map (\<lambda>t. (fst t, WText (snd t))) tags)"

fun dec_tags :: "wire \<Rightarrow> (string \<times> string) list option" where
  "dec_tags (WObj fs) = those (map (\<lambda>f. map_option (Pair (fst f)) (dec_text (snd f))) fs)"
| "dec_tags _ = None"

text \<open>The text of a region is kept for ever.\<close>

definition deserialize_region :: "wire \<Rightarrow> string option" where
  "deserialize_region v = dec_text v"

definition dec_nameservers :: "(string \<Rightarrow> string + string) \<Rightarrow> wire \<Rightarrow> string list option option" where
  "dec_nameservers ip_from_str v =
     (case dec_option dec_text v of
        None \<Rightarrow> None
      | Some s \<Rightarrow> (case deserialize_nameservers ip_from_str s of Inl _ \<Rightarrow> None | Inr ips \<Rightarrow> Some ips))"

text \<open>A field that must be there; an optional one; one with a default.\<close>

definition must :: "(string \<Rightarrow> wire option) \<Rightarrow> string \<Rightarrow> (wire \<Rightarrow> 'a option) \<Rightarrow> 'a option" where
  "must d k dec = Option.bind (d k) dec"

definition with_default :: "(string \<Rightarrow> wire option) \<Rightarrow> string \<Rightarrow> 'a \<Rightarrow> (wire \<Rightarrow> 'a option) \<Rightarrow> 'a option" where
  "with_default d k x dec = (case d k of None \<Rightarrow> Some x | Some v \<Rightarrow> dec v)"

definition may :: "(string \<Rightarrow> wire option) \<Rightarrow> string \<Rightarrow> (wire \<Rightarrow> 'a option) \<Rightarrow> 'a option option" where
  "may d k dec = with_default d k None (dec_option dec)"

section \<open>Reading and writing a configuration\<close>

text \<open>The metrics settings lie flat among the others, and so do those for Kafka, with a prefix.\<close>

definition read_metrics :: "address_readers \<Rightarrow> (string \<Rightarrow> wire option) \<Rightarrow> MetricsConfig option" where
  "read_metrics R d = do {
     addr \<leftarrow> must d ''statsd_addr'' (\<lambda>v. Option.bind (dec_text v) (ar_socket R));
     tags \<leftarrow> must d ''default_tags'' dec_tags;
     hostname \<leftarrow> may d ''hostname_tag'' dec_text;
     Some \<lparr>mc_statsd_addr = addr, mc_default_tags = tags, mc_hostname_tag = hostname\<rparr> }"

definition read_kafka :: "(string \<Rightarrow> wire option) \<Rightarrow> KafkaConfig option" where
  "read_kafka d = do {
     protocol \<leftarrow> may d ''kafka_security_protocol'' dec_protocol;
     ca \<leftarrow> may d ''kafka_ssl_ca_location'' dec_text;
     cert \<leftarrow> may d ''kafka_ssl_cert_location'' dec_text;
     key \<leftarrow> may d ''kafka_ssl_key_location'' dec_text;
     mechanism \<leftarrow> may d ''kafka_sasl_mechanism'' dec_text;
     user \<leftarrow> may d ''kafka_sasl_username'' dec_text;
     password \<leftarrow> may d ''kafka_sasl_password'' dec_text;
     Some \<lparr>kc_security_protocol = protocol, kc_ssl_ca_location = ca, kc_ssl_cert_location = cert, kc_ssl_key_location = key,
           kc_sasl_mechanism = mechanism, kc_sasl_username = user, kc_sasl_password = password\<rparr> }"

definition read_config :: "address_readers \<Rightarrow> (string \<Rightarrow> wire option) \<Rightarrow> Config option" where
  "read_config R d = do {
     sentry_dsn \<leftarrow> may d ''sentry_dsn'' dec_text;
     sentry_env \<leftarrow> may d ''sentry_env'' dec_text;
     log_level \<leftarrow> must d ''log_level'' dec_level;
     log_format \<leftarrow> must d ''log_format'' dec_log_format;
     checker_concurrency \<leftarrow> must d ''checker_concurrency'' dec_word;
     checker_parallel \<leftarrow> must d ''checker_parallel'' dec_bool;
     interface \<leftarrow> may d ''interface'' dec_text;
     metrics \<leftarrow> read_metrics R d;
     cluster \<leftarrow> must d ''results_kafka_cluster'' dec_cluster;
     topic \<leftarrow> must d ''results_kafka_topic'' dec_text;
     kafka \<leftarrow> read_kafka d;
     provider_mode \<leftarrow> must d ''config_provider_mode'' dec_provider_mode;
     checker_mode \<leftarrow> must d ''checker_mode'' dec_checker_mode;
     producer_mode \<leftarrow> must d ''producer_mode'' dec_producer_mode;
     update_ms \<leftarrow> must d ''config_provider_redis_update_ms'' dec_word;
     total_partitions \<leftarrow> must d ''config_provider_redis_total_partitions'' dec_word;
     batch_size \<leftarrow> must d ''vector_batch_size'' dec_word;
     batch_timeout \<leftarrow> must d ''vector_batch_timeout_secs'' dec_word;
     endpoint \<leftarrow> must d ''vector_endpoint'' dec_text;
     enable_cluster \<leftarrow> must d ''redis_enable_cluster'' dec_bool;
     retry_forever \<leftarrow> must d ''retry_vector_errors_forever'' dec_bool;
     redis_host \<leftarrow> must d ''redis_host'' dec_text;
     region \<leftarrow> with_default d ''region'' [] deserialize_region;
     allow_internal \<leftarrow> must d ''allow_internal_ips'' dec_bool;
     disable_reuse \<leftarrow> must d ''disable_connection_reuse'' dec_bool;
     task_metrics \<leftarrow> must d ''record_task_metrics'' dec_bool;
     idle_timeout \<leftarrow> must d ''pool_idle_timeout_secs'' dec_word;
     checker_number \<leftarrow> must d ''checker_number'' dec_word;
     total_checkers \<leftarrow> must d ''total_checkers'' dec_word;
     failure_retries \<leftarrow> must d ''failure_retries'' dec_word;
     scale_factor \<leftarrow> must d ''thread_cpu_scale_factor'' dec_word;
     nameservers \<leftarrow> with_default d ''http_checker_dns_nameservers'' None (dec_nameservers (ar_ip R));
     timeouts_ms \<leftarrow> must d ''redis_timeouts_ms'' dec_word;
     enable_metrics \<leftarrow> must d ''enable_metrics'' dec_bool;
     readonly \<leftarrow> must d ''redis_readonly'' dec_bool;
     port \<leftarrow> must d ''webserver_port'' dec_word;
     disable_asserts \<leftarrow> must d ''disable_asserts'' dec_bool;
     capture \<leftarrow> must d ''response_capture_enabled'' dec_bool;
     complexity \<leftarrow> must d ''assertion_complexity'' dec_word;
     max_ops \<leftarrow> must d ''max_assertion_ops'' dec_word;
     Some \<lparr>cf_sentry_dsn = sentry_dsn, cf_sentry_env = sentry_env, cf_log_level = log_level, cf_log_format = log_format,
       cf_checker_concurrency = checker_concurrency, cf_checker_parallel = checker_parallel, cf_interface = interface,
       cf_metrics = metrics, cf_results_kafka_cluster = cluster, cf_results_kafka_topic = topic, cf_kafka_config = kafka,
       cf_config_provider_mode = provider_mode, cf_checker_mode = checker_mode, cf_producer_mode = producer_mode,
       cf_config_provider_redis_update_ms = update_ms, cf_config_provider_redis_total_partitions = total_partitions,
       cf_vector_batch_size = batch_size, cf_vector_batch_timeout_secs = batch_timeout, cf_vector_endpoint = endpoint,
       cf_redis_enable_cluster = enable_cluster, cf_retry_vector_errors_forever = retry_forever, cf_redis_host = redis_host,
       cf_region = region, cf_allow_internal_ips = allow_internal, cf_disable_connection_reuse = disable_reuse,
       cf_record_task_metrics = task_metrics, cf_pool_idle_timeout_secs = idle_timeout, cf_checker_number = checker_number,
       cf_total_checkers = total_checkers, cf_failure_retries = failure_retries, cf_thread_cpu_scale_factor = scale_factor,
       cf_http_checker_dns_nameservers = nameservers, cf_redis_timeouts_ms = timeouts_ms, cf_enable_metrics = enable_metrics,
       cf_redis_readonly = readonly, cf_webserver_port = port, cf_disable_asserts = disable_asserts,
       cf_response_capture_enabled = capture, cf_assertion_complexity = complexity, cf_max_assertion_ops = max_ops\<rparr> }"

definition metrics_fields :: "MetricsConfig \<Rightarrow> (string \<times> wire) list" where
  "metrics_fields m =
     [(''statsd_addr'', WText (mc_statsd_addr m)), (''default_tags'', enc_tags (mc_default_tags m)),
      (''hostname_tag'', enc_option WText (mc_hostname_tag m))]"

definition kafka_fields :: "KafkaConfig \<Rightarrow> (string \<times> wire) list" where
  "kafka_fields k =
     [(''kafka_security_protocol'', enc_option (\<lambda>p. WText (protocol_to_string p)) (kc_security_protocol k)),
      (''kafka_ssl_ca_location'', enc_option WText (kc_ssl_ca_location k)),
      (''kafka_ssl_cert_location'', enc_option WText (kc_ssl_cert_location k)),
      (''kafka_ssl_key_location'', enc_option WText (kc_ssl_key_location k)),
      (''kafka_sasl_mechanism'', enc_option WText (kc_sasl_mechanism k)),
      (''kafka_sasl_username'', enc_option WText (kc_sasl_username k)),
      (''kafka_sasl_password'', enc_option WText (kc_sasl_password k))]"

text \<open>The name servers are written as a sequence (and read from a text).\<close>

definition config_fields :: "Config \<Rightarrow> (string \<times> wire) list" where
  "config_fields c =
     [(''sentry_dsn'', enc_option WText (cf_sentry_dsn c)), (''sentry_env'', enc_option WText (cf_sentry_env c)),
      (''log_level'', WText (level_name (cf_log_level c))), (''log_format'', WText (log_format_name (cf_log_format c))),
      (''checker_concurrency'', enc_word (cf_checker_concurrency c)), (''checker_parallel'', WBool (cf_checker_parallel c)),
      (''interface'', enc_option WText (cf_interface c))] @ metrics_fields (cf_metrics c) @
     [(''results_kafka_cluster'', enc_cluster (cf_results_kafka_cluster c)), (''results_kafka_topic'', WText (cf_results_kafka_topic c))] @
     kafka_fields (cf_kafka_config c) @
     [(''config_provider_mode'', WText (provider_mode_name (cf_config_provider_mode c))),
      (''checker_mode'', WText (checker_mode_name (cf_checker_mode c))),
      (''producer_mode'', WText (producer_mode_name (cf_producer_mode c))),
      (''config_provider_redis_update_ms'', enc_word (cf_config_provider_redis_update_ms c)),
      (''config_provider_redis_total_partitions'', enc_word (cf_config_provider_redis_total_partitions c)),
      (''vector_batch_size'', enc_word (cf_vector_batch_size c)),
      (''vector_batch_timeout_secs'', enc_word (cf_vector_batch_timeout_secs c)),
      (''vector_endpoint'', WText (cf_vector_endpoint c)), (''redis_enable_cluster'', WBool (cf_redis_enable_cluster c)),
      (''retry_vector_errors_forever'', WBool (cf_retry_vector_errors_forever c)), (''redis_host'', WText (cf_redis_host c)),
      (''region'', WText (cf_region c)), (''allow_internal_ips'', WBool (cf_allow_internal_ips c)),
      (''disable_connection_reuse'', WBool (cf_disable_connection_reuse c)),
      (''record_task_metrics'', WBool (cf_record_task_metrics c)), (''pool_idle_timeout_secs'', enc_word (cf_pool_idle_timeout_secs c)),
      (''checker_number'', enc_word (cf_checker_number c)), (''total_checkers'', enc_word (cf_total_checkers c)),
      (''failure_retries'', enc_word (cf_failure_retries c)), (''thread_cpu_scale_factor'', enc_word (cf_thread_cpu_scale_factor c)),
      (''http_checker_dns_nameservers'', enc_option (\<lambda>ips. WArr (map WText ips)) (cf_http_checker_dns_nameservers c)),
      (''redis_timeouts_ms'', enc_word (cf_redis_timeouts_ms c)), (''enable_metrics'', WBool (cf_enable_metrics c)),
      (''redis_readonly'', WBool (cf_redis_readonly c)), (''webserver_port'', enc_word (cf_webserver_port c)),
      (''disable_asserts'', WBool (cf_disable_asserts c)), (''response_capture_enabled'', WBool (cf_response_capture_enabled c)),
      (''assertion_complexity'', enc_word (cf_assertion_complexity c)), (''max_assertion_ops'', enc_word (cf_max_assertion_ops c))]"

lemma split_on_words: "w \<in> set (split_on c s) \<Longrightarrow> c \<notin> set w"
  by (induction c s arbitrary: w rule: split_on.induct) (auto split: if_splits list.splits)

lemma cluster_dec_enc: "dec_cluster (enc_cluster ws) = Some ws \<longleftrightarrow> ws \<noteq> [[]] \<and> (\<forall>w\<in>set ws. CHR '','' \<notin> set w)"
proof (cases "join (CHR '','') ws = []")
  case True
  then have "ws = [] \<or> ws = [[]]" by (cases ws; cases "tl ws") auto
  then show ?thesis by (auto simp: dec_cluster_def enc_cluster_def)
next
  case False
  then have ne: "ws \<noteq> []" "ws \<noteq> [[]]" by auto
  have "split_on (CHR '','') (join (CHR '','') ws) = ws \<longleftrightarrow> (\<forall>w\<in>set ws. CHR '','' \<notin> set w)"
    using split_join [OF ne(1)] split_on_words by metis
  with False ne show ?thesis by (simp add: dec_cluster_def enc_cluster_def)
qed

lemma tags_dec_enc: "dec_tags (enc_tags tags) = Some tags"
  unfolding enc_tags_def dec_tags.simps by (induction tags) simp_all

interpretation levels: wire_value "\<lambda>l. WText (level_name l)" dec_level
proof unfold_locales
  show "dec_level (WText (level_name l)) = Some l" for l by (cases l) (simp_all add: dec_level_def dec_name_def)
qed simp

interpretation log_formats: wire_value "\<lambda>f. WText (log_format_name f)" dec_log_format
proof unfold_locales
  show "dec_log_format (WText (log_format_name f)) = Some f" for f by (cases f) (simp_all add: dec_log_format_def dec_name_def)
qed simp

interpretation protocols: wire_value "\<lambda>p. WText (protocol_to_string p)" dec_protocol
proof unfold_locales
  show "dec_protocol (WText (protocol_to_string p)) = Some p" for p by (cases p) (simp_all add: dec_protocol_def dec_name_def)
qed simp

interpretation provider_modes: wire_value "\<lambda>m. WText (provider_mode_name m)" dec_provider_mode
proof unfold_locales
  show "dec_provider_mode (WText (provider_mode_name m)) = Some m" for m
    by (cases m) (simp_all add: dec_provider_mode_def dec_name_def)
qed simp

interpretation producer_modes: wire_value "\<lambda>m. WText (producer_mode_name m)" dec_producer_mode
proof unfold_locales
  show "dec_producer_mode (WText (producer_mode_name m)) = Some m" for m
    by (cases m) (simp_all add: dec_producer_mode_def dec_name_def)
qed simp

interpretation checker_modes: wire_value "\<lambda>m. WText (checker_mode_name m)" dec_checker_mode
proof unfold_locales
  show "dec_checker_mode (WText (checker_mode_name m)) = Some m" for m
    by (cases m) (simp_all add: dec_checker_mode_def dec_name_def)
qed simp

lemmas settings_dec_enc =
  levels.dec_enc log_formats.dec_enc protocols.option_dec_enc provider_modes.dec_enc producer_modes.dec_enc checker_modes.dec_enc
  texts.option_dec_enc words.dec_enc tags_dec_enc

lemma read_metrics_fields:
  assumes "\<And>k v. (k, v) \<in> set (metrics_fields m) \<Longrightarrow> d k = Some v"
  shows "read_metrics R d = map_option (\<lambda>a. m\<lparr>mc_statsd_addr := a\<rparr>) (ar_socket R (mc_statsd_addr m))"
proof -
  have "d ''statsd_addr'' = Some (WText (mc_statsd_addr m))" "d ''default_tags'' = Some (enc_tags (mc_default_tags m))"
    "d ''hostname_tag'' = Some (enc_option WText (mc_hostname_tag m))"
    by (simp_all add: assms metrics_fields_def)
  then show ?thesis
    by (cases "ar_socket R (mc_statsd_addr m)")
      (simp_all add: read_metrics_def must_def may_def with_default_def settings_dec_enc)
qed

lemma read_kafka_fields:
  assumes "\<And>k v. (k, v) \<in> set (kafka_fields c) \<Longrightarrow> d k = Some v"
  shows "read_kafka d = Some c"
  by (simp add: read_kafka_def may_def with_default_def assms kafka_fields_def settings_dec_enc)

lemma config_keys_distinct: "distinct (map fst (config_fields c))"
  by (simp add: config_fields_def metrics_fields_def kafka_fields_def)

text \<open>A dictionary with every field of a configuration as it is written.\<close>

lemma read_config_fields:
  assumes "\<And>k v. (k, v) \<in> set (config_fields c) \<Longrightarrow> k \<noteq> ''http_checker_dns_nameservers'' \<Longrightarrow> d k = Some v"
    and "with_default d ''http_checker_dns_nameservers'' None (dec_nameservers (ar_ip R)) = Some ips"
    and "ar_socket R (mc_statsd_addr (cf_metrics c)) = Some (mc_statsd_addr (cf_metrics c))"
    and "dec_cluster (enc_cluster (cf_results_kafka_cluster c)) = Some (cf_results_kafka_cluster c)"
  shows "read_config R d = Some (c\<lparr>cf_http_checker_dns_nameservers := ips\<rparr>)"
proof -
  have sub: "set (metrics_fields (cf_metrics c)) \<subseteq> set (config_fields c)" "set (kafka_fields (cf_kafka_config c)) \<subseteq> set (config_fields c)"
    unfolding config_fields_def set_append by blast+
  have "d k = Some v" if "(k, v) \<in> set (metrics_fields (cf_metrics c))" for k v
    by (rule assms(1)) (use sub(1) that in \<open>auto simp: metrics_fields_def\<close>)
  from read_metrics_fields [OF this] have m: "read_metrics R d = Some (cf_metrics c)" by (simp add: assms(3))
  have "d k = Some v" if "(k, v) \<in> set (kafka_fields (cf_kafka_config c))" for k v
    by (rule assms(1)) (use sub(2) that in \<open>auto simp: kafka_fields_def\<close>)
  from read_kafka_fields [OF this] have k: "read_kafka d = Some (cf_kafka_config c)" .
  have "list_all (\<lambda>(k, v). k = ''http_checker_dns_nameservers'' \<or> d k = Some v) (config_fields c)"
    using assms(1) by (auto simp: list_all_iff)
  note f = this [unfolded config_fields_def, simplified]
  show ?thesis
    unfolding read_config_def must_def may_def with_default_def [of d "''region''"] with_default_def [of d _ None "dec_option dec_text"]
    by (simp add: m k settings_dec_enc assms(2,4) deserialize_region_def f)
qed

section \<open>Layers\<close>

text \<open>
  What the program relies on.  The entry of a merged source is the later one's, if it has one, unless both are dictionaries, which are joined (\<open>J\<close>);
  a value serialised under a key is a source with that entry; and a configuration is extracted by reading the entries.
\<close>

definition is_dict :: "wire \<Rightarrow> bool" where
  "is_dict v = (case v of WObj _ \<Rightarrow> True | _ \<Rightarrow> False)"

definition layer :: "(wire \<Rightarrow> wire \<Rightarrow> wire) \<Rightarrow> wire option \<Rightarrow> wire option \<Rightarrow> wire option" where
  "layer J a b =
     (case b of
        None \<Rightarrow> a
      | Some v \<Rightarrow> (case a of None \<Rightarrow> Some v | Some u \<Rightarrow> Some (if is_dict u \<and> is_dict v then J u v else v)))"

definition figment_law ::
  "address_readers \<Rightarrow> (wire \<Rightarrow> wire \<Rightarrow> wire) \<Rightarrow> 'f config_lib \<Rightarrow> ('f \<Rightarrow> string \<Rightarrow> wire option) \<Rightarrow> bool" where
  "figment_law R J lib entry \<longleftrightarrow>
     (\<forall>c. entry (fg_defaults lib c) = map_of (config_fields c)) \<and>
     (\<forall>k l. entry (fg_log_level lib k l) = [k \<mapsto> WText (level_name l)]) \<and>
     (\<forall>k f. entry (fg_log_format lib k f) = [k \<mapsto> WText (log_format_name f)]) \<and>
     (\<forall>a b k. entry (fg_merge lib a b) k = layer J (entry a k) (entry b k)) \<and>
     (\<forall>a. case read_config R (entry a) of Some c \<Rightarrow> fg_extract lib a = Inr c | None \<Rightarrow> \<exists>e. fg_extract lib a = Inl e) \<and>
     (\<forall>fs. J (WObj []) (WObj fs) = WObj fs)"

text \<open>The entries of the file, if one is named, and of the environment.\<close>

definition file_entry :: "'f config_lib \<Rightarrow> ('f \<Rightarrow> string \<Rightarrow> wire option) \<Rightarrow> CliApp \<Rightarrow> string \<Rightarrow> wire option" where
  "file_entry lib entry app k = (case app_config app of Some path \<Rightarrow> entry (fg_yaml_file lib path) k | None \<Rightarrow> None)"

definition env_entry :: "'f config_lib \<Rightarrow> ('f \<Rightarrow> string \<Rightarrow> wire option) \<Rightarrow> string \<Rightarrow> wire option" where
  "env_entry lib entry k = entry (fg_env_prefixed lib ''UPTIME_CHECKER_'') k"

definition cli_entry :: "CliApp \<Rightarrow> string \<Rightarrow> wire option" where
  "cli_entry app k =
     (if k = ''log_format'' \<and> app_log_format app \<noteq> None then map_option (\<lambda>f. WText (log_format_name f)) (app_log_format app)
      else if k = ''log_level'' then map_option (\<lambda>l. WText (level_name l)) (app_log_level app) else None)"

text \<open>The entry that takes effect: the layers one over the other.\<close>

definition effective ::
  "(wire \<Rightarrow> wire \<Rightarrow> wire) \<Rightarrow> 'f config_lib \<Rightarrow> ('f \<Rightarrow> string \<Rightarrow> wire option) \<Rightarrow> CliApp \<Rightarrow> string \<Rightarrow> wire option" where
  "effective J lib entry app k =
     layer J (layer J (layer J (map_of (config_fields default_config) k) (file_entry lib entry app k)) (env_entry lib entry k))
       (cli_entry app k)"

lemma layer_simps [simp]:
  "layer J a None = a" "layer J None (Some v) = Some v" "\<not> is_dict v \<Longrightarrow> layer J a (Some v) = Some v"
  "\<not> is_dict (WText t)"
  by (simp_all add: layer_def is_dict_def split: option.split)

lemma sources_effective:
  assumes "figment_law R J lib entry"
  shows "entry (config_sources lib app) = effective J lib entry app"
proof
  fix k
  have law: "entry (fg_defaults lib c) = map_of (config_fields c)" "entry (fg_log_level lib j l) = [j \<mapsto> WText (level_name l)]"
    "entry (fg_log_format lib j f) = [j \<mapsto> WText (log_format_name f)]"
    "entry (fg_merge lib a b) j = layer J (entry a j) (entry b j)" for a b c j l f
    using assms by (simp_all add: figment_law_def)
  show "entry (config_sources lib app) k = effective J lib entry app k"
    by (simp add: config_sources_def effective_def law file_entry_def env_entry_def cli_entry_def Let_def split: option.split)
qed

lemma extract_effective:
  assumes "figment_law R J lib entry"
  shows "extract_config lib app = Inr c \<longleftrightarrow> read_config R (effective J lib entry app) = Some c"
proof -
  have "case read_config R (entry a) of Some c \<Rightarrow> fg_extract lib a = Inr c | None \<Rightarrow> \<exists>e. fg_extract lib a = Inl e" for a
    using assms by (simp add: figment_law_def)
  from this [of "config_sources lib app"] show ?thesis
    unfolding extract_config_def sources_effective [OF assms] by (auto split: option.splits)
qed

lemma bind_eq_Some: "Option.bind x f = Some y \<longleftrightarrow> (\<exists>z. x = Some z \<and> f z = Some y)"
  by (cases x) auto

lemma read_configD:
  assumes "read_config R d = Some c"
  shows "must d ''log_level'' dec_level = Some (cf_log_level c) \<and> must d ''log_format'' dec_log_format = Some (cf_log_format c) \<and>
    read_metrics R d = Some (cf_metrics c) \<and> must d ''results_kafka_cluster'' dec_cluster = Some (cf_results_kafka_cluster c) \<and>
    with_default d ''http_checker_dns_nameservers'' None (dec_nameservers (ar_ip R)) = Some (cf_http_checker_dns_nameservers c)"
  by (insert assms [unfolded read_config_def bind_eq_Some], elim exE conjE, drule option.inject [THEN iffD1], drule sym, simp)

text \<open>The library on dictionaries.\<close>

fun join_dicts :: "wire \<Rightarrow> wire \<Rightarrow> wire" where
  "join_dicts (WObj fs) (WObj gs) = WObj (filter (\<lambda>x. fst x \<notin> fst ` set gs) fs @ gs)"
| "join_dicts _ v = v"

definition dict_lib ::
  "address_readers \<Rightarrow> (string \<Rightarrow> string \<Rightarrow> wire option) \<Rightarrow> (string \<Rightarrow> string \<Rightarrow> wire option) \<Rightarrow> (string \<Rightarrow> wire option) config_lib" where
  "dict_lib R yaml env =
     \<lparr>fg_defaults = \<lambda>c. map_of (config_fields c), fg_yaml_file = yaml, fg_env_prefixed = env,
      fg_log_level = \<lambda>k l. [k \<mapsto> WText (level_name l)], fg_log_format = \<lambda>k f. [k \<mapsto> WText (log_format_name f)],
      fg_merge = \<lambda>a b k. layer join_dicts (a k) (b k),
      fg_extract = \<lambda>d. (case read_config R d of None \<Rightarrow> Inl ''invalid'' | Some c \<Rightarrow> Inr c)\<rparr>"

lemma dict_lib_law: "figment_law R join_dicts (dict_lib R yaml env) (\<lambda>d. d)"
  by (simp add: figment_law_def dict_lib_def split: option.split)

definition test_readers :: address_readers where
  "test_readers = \<lparr>ar_socket = Some, ar_ip = Inr\<rparr>"

text \<open>
  C20: The sources of a configuration override each other in the documented order: the configuration is what is read from the entries that take effect; an entry of the
  environment wins over the file, and the file over the defaults, for every value that is not a dictionary; a key that no source names
  has its default; and a log level or format of the command line is the one in force.
\<close>

theorem config_precedence:
  assumes "figment_law R J lib entry"
  shows "(extract_config lib app = Inr c \<longleftrightarrow> read_config R (effective J lib entry app) = Some c) \<and>
    (extract_config lib app = Inr c \<longrightarrow>
       (\<forall>l. app_log_level app = Some l \<longrightarrow> cf_log_level c = l) \<and> (\<forall>f. app_log_format app = Some f \<longrightarrow> cf_log_format c = f)) \<and>
    (cli_entry app k = None \<and> env_entry lib entry k = Some v \<and> \<not> is_dict v \<longrightarrow> effective J lib entry app k = Some v) \<and>
    (cli_entry app k = None \<and> env_entry lib entry k = None \<and> file_entry lib entry app k = Some v \<and> \<not> is_dict v \<longrightarrow>
       effective J lib entry app k = Some v) \<and>
    (cli_entry app k = None \<and> env_entry lib entry k = None \<and> file_entry lib entry app k = None \<longrightarrow>
       effective J lib entry app k = map_of (config_fields default_config) k)"
proof -
  have "cf_log_level c = l" if "extract_config lib app = Inr c" "app_log_level app = Some l" for l
  proof -
    have "must (effective J lib entry app) ''log_level'' dec_level = Some (cf_log_level c)"
      using that(1) extract_effective [OF assms] read_configD by blast
    then show ?thesis by (simp add: must_def effective_def cli_entry_def that(2) levels.dec_enc)
  qed
  moreover have "cf_log_format c = f" if "extract_config lib app = Inr c" "app_log_format app = Some f" for f
  proof -
    have "must (effective J lib entry app) ''log_format'' dec_log_format = Some (cf_log_format c)"
      using that(1) extract_effective [OF assms] read_configD by blast
    then show ?thesis by (simp add: must_def effective_def cli_entry_def that(2) log_formats.dec_enc)
  qed
  ultimately show ?thesis using extract_effective [OF assms] by (auto simp: effective_def)
qed

theorem config_precedence_witness:
  "effective join_dicts (dict_lib test_readers (\<lambda>_. [''region'' \<mapsto> WText ''file'', ''redis_host'' \<mapsto> WText ''host''])
       (\<lambda>_. [''region'' \<mapsto> WText ''env''])) (\<lambda>d. d) \<lparr>app_config = Some ''c'', app_log_level = None, app_log_format = None\<rparr> ''region''
     = Some (WText ''env'')"
  using config_precedence [OF dict_lib_law [of test_readers "\<lambda>_. [''region'' \<mapsto> WText ''file'', ''redis_host'' \<mapsto> WText ''host'']"
      "\<lambda>_. [''region'' \<mapsto> WText ''env'']"], of "\<lparr>app_config = Some ''c'', app_log_level = None, app_log_format = None\<rparr>" _ "''region''"
      "WText ''env''"]
  by (simp add: cli_entry_def env_entry_def dict_lib_def)

lemma read_config_fields_iff:
  "read_config R (map_of (config_fields c)) = Some c \<longleftrightarrow>
     ar_socket R (mc_statsd_addr (cf_metrics c)) = Some (mc_statsd_addr (cf_metrics c)) \<and>
     cf_results_kafka_cluster c \<noteq> [[]] \<and> (\<forall>w\<in>set (cf_results_kafka_cluster c). CHR '','' \<notin> set w) \<and>
     cf_http_checker_dns_nameservers c = None" (is "?read \<longleftrightarrow> ?ok")
proof -
  let ?d = "map_of (config_fields c)"
  have d: "?d k = Some v" if "(k, v) \<in> set (config_fields c)" for k v
    using that config_keys_distinct by simp
  have sub: "set (metrics_fields (cf_metrics c)) \<subseteq> set (config_fields c)" unfolding config_fields_def set_append by blast
  have metrics: "read_metrics R ?d = map_option (\<lambda>a. (cf_metrics c)\<lparr>mc_statsd_addr := a\<rparr>) (ar_socket R (mc_statsd_addr (cf_metrics c)))"
    by (rule read_metrics_fields, rule d) (use sub in blast)
  have cluster: "must ?d ''results_kafka_cluster'' dec_cluster = dec_cluster (enc_cluster (cf_results_kafka_cluster c))"
  proof -
    have "?d ''results_kafka_cluster'' = Some (enc_cluster (cf_results_kafka_cluster c))" by (rule d) (simp add: config_fields_def)
    then show ?thesis by (simp add: must_def)
  qed
  have ns: "with_default ?d ''http_checker_dns_nameservers'' None (dec_nameservers (ar_ip R))
      = (case cf_http_checker_dns_nameservers c of None \<Rightarrow> Some None | Some _ \<Rightarrow> None)"
  proof -
    have "?d ''http_checker_dns_nameservers'' = Some (enc_option (\<lambda>ips. WArr (map WText ips)) (cf_http_checker_dns_nameservers c))"
      by (rule d) (simp add: config_fields_def)
    then show ?thesis
      by (simp add: with_default_def dec_nameservers_def deserialize_nameservers_def dec_option_def enc_option_def split: option.split)
  qed
  show ?thesis
  proof
    assume ?read
    from read_configD [OF this] show ?ok
      unfolding metrics cluster ns cluster_dec_enc
      by (cases "ar_socket R (mc_statsd_addr (cf_metrics c))"; cases "cf_metrics c") (auto split: option.splits)
  next
    assume ?ok
    then have "with_default ?d ''http_checker_dns_nameservers'' None (dec_nameservers (ar_ip R)) = Some None" unfolding ns by simp
    moreover have "dec_cluster (enc_cluster (cf_results_kafka_cluster c)) = Some (cf_results_kafka_cluster c)"
      using \<open>?ok\<close> unfolding cluster_dec_enc by simp
    ultimately have "read_config R ?d = Some (c\<lparr>cf_http_checker_dns_nameservers := None\<rparr>)"
      using \<open>?ok\<close> by (intro read_config_fields d) simp_all
    then show ?read using \<open>?ok\<close> by simp
  qed
qed

text \<open>
  C29: Which configurations survive being serialised and read: exactly those whose address is in its standard form, whose brokers contain no comma and
  are not a single empty text, and which name no name servers, as these are written as a sequence and read from a text.
\<close>

theorem settings_roundtrip_iff:
  "read_config R (map_of (config_fields c)) = Some c \<longleftrightarrow>
     ar_socket R (mc_statsd_addr (cf_metrics c)) = Some (mc_statsd_addr (cf_metrics c)) \<and>
     cf_results_kafka_cluster c \<noteq> [[]] \<and> list_all (\<lambda>w. CHR '','' \<notin> set w) (cf_results_kafka_cluster c) \<and>
     cf_http_checker_dns_nameservers c = None"
  unfolding list_all_iff by (rule read_config_fields_iff)

section \<open>The crate's own tests\<close>

text \<open>The tests of \<open>config.rs\<close>: the file and the variables as the library reads them.  The addresses of the tests are in their standard form.\<close>

definition test_with_config :: "(string \<times> wire) list \<Rightarrow> (string \<times> wire) list \<Rightarrow> string + Config" where
  "test_with_config yaml env_vars =
     extract_config (dict_lib test_readers (\<lambda>_. map_of yaml) (\<lambda>_. map_of env_vars))
       \<lparr>app_config = Some ''config.yaml'', app_log_level = None, app_log_format = None\<rparr>"

definition test_simple :: bool where
  "test_simple \<longleftrightarrow>
     test_with_config
       [(''sentry_dsn'', WText ''my_dsn''), (''sentry_env'', WText ''my_env''), (''checker_concurrency'', WNum 100),
        (''results_kafka_cluster'', WText ''10.0.0.1,10.0.0.2:9000''), (''configs_kafka_cluster'', WText ''10.0.0.1,10.0.0.2:9000''),
        (''statsd_addr'', WText ''10.0.0.1:8126''), (''default_tags'', WObj [(''someTag'', WText ''value'')]),
        (''hostname_tag'', WText ''pod_name''), (''redis_host'', WText ''redis://127.0.0.1:6379'')] []
     = Inr \<lparr>cf_sentry_dsn = Some ''my_dsn'', cf_sentry_env = Some ''my_env'', cf_log_level = LevelWarn, cf_log_format = FormatAuto,
        cf_checker_concurrency = 100, cf_checker_parallel = False, cf_interface = None,
        cf_metrics = \<lparr>mc_statsd_addr = ''10.0.0.1:8126'', mc_default_tags = [(''someTag'', ''value'')],
          mc_hostname_tag = Some ''pod_name''\<rparr>,
        cf_results_kafka_cluster = [''10.0.0.1'', ''10.0.0.2:9000''], cf_results_kafka_topic = ''uptime-results'',
        cf_kafka_config = \<lparr>kc_security_protocol = None, kc_ssl_ca_location = None, kc_ssl_cert_location = None,
          kc_ssl_key_location = None, kc_sasl_mechanism = None, kc_sasl_username = None, kc_sasl_password = None\<rparr>,
        cf_config_provider_mode = ProviderRedis, cf_checker_mode = CheckerReqwest, cf_producer_mode = ProducerKafka,
        cf_config_provider_redis_update_ms = 1000, cf_config_provider_redis_total_partitions = 128,
        cf_vector_batch_size = 10, cf_vector_batch_timeout_secs = 10, cf_vector_endpoint = ''http://localhost:8020'',
        cf_redis_enable_cluster = False, cf_retry_vector_errors_forever = False, cf_redis_host = ''redis://127.0.0.1:6379'',
        cf_region = ''default'', cf_allow_internal_ips = False, cf_disable_connection_reuse = True, cf_record_task_metrics = False,
        cf_pool_idle_timeout_secs = 90, cf_checker_number = 0, cf_total_checkers = 1, cf_failure_retries = 0,
        cf_thread_cpu_scale_factor = 1, cf_http_checker_dns_nameservers = None, cf_redis_timeouts_ms = 30000,
        cf_enable_metrics = False, cf_redis_readonly = False, cf_webserver_port = 12345, cf_disable_asserts = False,
        cf_response_capture_enabled = False, cf_assertion_complexity = 100, cf_max_assertion_ops = 16\<rparr>"

definition test_overrides :: bool where
  "test_overrides \<longleftrightarrow>
     test_with_config
       [(''sentry_dsn'', WText ''my_dsn''), (''sentry_env'', WText ''my_env''), (''log_format'', WText ''json'')]
       [(''sentry_env'', WText ''my_env_override''), (''results_kafka_cluster'', WText ''10.0.0.1,10.0.0.2:7000''),
        (''configs_kafka_cluster'', WText ''10.0.0.1,10.0.0.2:7000''), (''kafka_security_protocol'', WText ''plaintext''),
        (''kafka_ssl_ca_location'', WText ''/path/to/ca.crt''), (''kafka_ssl_cert_location'', WText ''/path/to/cert.crt''),
        (''kafka_ssl_key_location'', WText ''/path/to/key.key''), (''kafka_sasl_mechanism'', WText ''scram-sha-256''),
        (''kafka_sasl_username'', WText ''my_user''), (''kafka_sasl_password'', WText ''my_password''),
        (''config_provider_mode'', WText ''redis''), (''config_provider_redis_update_ms'', WNum 2000),
        (''config_provider_redis_total_partitions'', WNum 32), (''statsd_addr'', WText ''10.0.0.1:1234''),
        (''redis_enable_cluster'', WBool True), (''redis_host'', WText ''10.0.0.3:6379''), (''region'', WText ''us-west''),
        (''allow_internal_ips'', WBool True), (''disable_connection_reuse'', WBool False), (''pool_idle_timeout_secs'', WNum 600),
        (''checker_number'', WNum 2), (''total_checkers'', WNum 5), (''failure_retries'', WNum 2),
        (''thread_cpu_scale_factor'', WNum 3), (''http_checker_dns_nameservers'', WText ''8.8.8.8,8.8.4.4''),
        (''interface'', WText ''eth0''), (''redis_readonly'', WBool True), (''webserver_port'', WNum 81),
        (''assertion_complexity'', WNum 120), (''max_assertion_ops'', WNum 15), (''vector_batch_timeout_secs'', WNum 11)]
     = Inr \<lparr>cf_sentry_dsn = Some ''my_dsn'', cf_sentry_env = Some ''my_env_override'', cf_log_level = LevelWarn,
        cf_log_format = FormatJson, cf_checker_concurrency = 200, cf_checker_parallel = False, cf_interface = Some ''eth0'',
        cf_metrics = \<lparr>mc_statsd_addr = ''10.0.0.1:1234'', mc_default_tags = [], mc_hostname_tag = None\<rparr>,
        cf_results_kafka_cluster = [''10.0.0.1'', ''10.0.0.2:7000''], cf_results_kafka_topic = ''uptime-results'',
        cf_kafka_config = \<lparr>kc_security_protocol = Some Plaintext, kc_ssl_ca_location = Some ''/path/to/ca.crt'',
          kc_ssl_cert_location = Some ''/path/to/cert.crt'', kc_ssl_key_location = Some ''/path/to/key.key'',
          kc_sasl_mechanism = Some ''scram-sha-256'', kc_sasl_username = Some ''my_user'', kc_sasl_password = Some ''my_password''\<rparr>,
        cf_config_provider_mode = ProviderRedis, cf_checker_mode = CheckerReqwest, cf_producer_mode = ProducerKafka,
        cf_config_provider_redis_update_ms = 2000, cf_config_provider_redis_total_partitions = 32,
        cf_vector_batch_size = 10, cf_vector_batch_timeout_secs = 11, cf_vector_endpoint = ''http://localhost:8020'',
        cf_redis_enable_cluster = True, cf_retry_vector_errors_forever = False, cf_redis_host = ''10.0.0.3:6379'',
        cf_region = ''us-west'', cf_allow_internal_ips = True, cf_disable_connection_reuse = False, cf_record_task_metrics = False,
        cf_pool_idle_timeout_secs = 600, cf_checker_number = 2, cf_total_checkers = 5, cf_failure_retries = 2,
        cf_thread_cpu_scale_factor = 3, cf_http_checker_dns_nameservers = Some [''8.8.8.8'', ''8.8.4.4''], cf_redis_timeouts_ms = 30000,
        cf_enable_metrics = False, cf_redis_readonly = True, cf_webserver_port = 81, cf_disable_asserts = False,
        cf_response_capture_enabled = False, cf_assertion_complexity = 120, cf_max_assertion_ops = 15\<rparr>"

definition test_config_default_checker_ordinal :: bool where
  "test_config_default_checker_ordinal \<longleftrightarrow>
     (case test_with_config [(''sentry_dsn'', WText ''my_dsn''), (''sentry_env'', WText ''my_env'')] [] of
        Inr config \<Rightarrow> cf_checker_number config = 0 | Inl _ \<Rightarrow> False)"

definition test_config_empty_http_checker_dns_nameservers :: bool where
  "test_config_empty_http_checker_dns_nameservers \<longleftrightarrow>
     (case test_with_config [(''sentry_dsn'', WText ''my_dsn''), (''sentry_env'', WText ''my_env'')]
        [(''http_checker_dns_nameservers'', WText [])] of
        Inr config \<Rightarrow> cf_http_checker_dns_nameservers config = None | Inl _ \<Rightarrow> False)"

lemma test_config_default_checker_ordinal_passes: test_config_default_checker_ordinal
  by code_simp

lemma test_config_empty_http_checker_dns_nameservers_passes: test_config_empty_http_checker_dns_nameservers
  by code_simp

lemma test_simple_passes: test_simple
  by code_simp

lemma test_overrides_passes: test_overrides
  by code_simp

end
