(* ===== verification/ProcessSteps.thy ===== *)
theory ProcessSteps
  imports Scheduler ConfigProvider ConfigWaiter Transitions
begin

text \<open>
  The process as a whole: the tasks that \<open>Manager::start\<close> (\<open>src/src/manager.rs\<close>) spawns, side by side, and the shutdown of \<open>src/src/app.rs\<close>.
  Every task is a step relation on the common state, with the operations of the components as its
  steps: the executor's, the manager's, the scheduler's and the producer's.

  The release build aborts on a panic, so a panic in any task is the end of the process (\<open>Aborted\<close>).  A lock is held for one step.
  The results go to the producer that the configuration names: to Vector, with a worker that sends them in batches, or to Kafka, with a
  worker that ends at once.
\<close>

section \<open>The producer of the process\<close>

text \<open>The state of the Vector producer, and the messages that were handed to the Kafka client; a process uses one of them.\<close>

record ResultsProducer = VectorResultsProducer +
  rp_messages :: "(u128 \<times> u8 list) list"

definition new_results_producer :: ResultsProducer where
  "new_results_producer = VectorResultsProducer.extend new_vector_producer (ResultsProducer.fields [])"

lemma new_results_producer:
  "new_results_producer = \<lparr>vp_channel = [], vp_open = True, vp_pending_items = 0, rp_messages = []\<rparr>"
  by (simp add: new_results_producer_def new_vector_producer_def VectorResultsProducer.defs ResultsProducer.defs)

definition results_produce ::
  "Config \<Rightarrow> producer_externals \<Rightarrow> CheckResult \<Rightarrow> ResultsProducer \<Rightarrow> ((ExtractCodeError + unit) \<times> ResultsProducer) option" where
  "results_produce conf P r st =
     (case cf_producer_mode conf of
        ProducerVector \<Rightarrow> vector_produce P r st
      | ProducerKafka \<Rightarrow>
          map_option (\<lambda>(res, messages). (res, st\<lparr>rp_messages := messages\<rparr>)) (kafka_produce_result P r (rp_messages st)))"

section \<open>The tasks\<close>

text \<open>Where \<open>execute\<close> is: waiting for a reason to stop, then awaiting the tasks in the order of \<open>ManagerHandle::stop\<close>.\<close>

datatype main_stage =
    Serving
  | AwaitEndpoint
  | AwaitConsumer
  | AwaitWorker
  | AwaitServices
  | AwaitExecutor
  | Stopped
  | Aborted

text \<open>\<open>update_partitions\<close> reads the known partitions once, and then locks the services for each change.\<close>

datatype partition_op = Unregister u16 | Register u16

datatype consumer =
    Selecting
  | GivingUp "partition_op list"
  | ConsumerEnded

text \<open>
  The monitor's task: registering, then statements that each hold a service for the time of a change to its store (the flag: they
  are those of the initial load), and waiting between passes.
\<close>

datatype monitor =
    MonitorNew
  | Registering "partition_op list"
  | Working bool "u16 list"
  | Holding bool u16 "u16 list"
  | MonitorIdle
  | MonitorFinished

datatype sched_phase = Booting | AtCheck | Ticking | Draining | SchedEnded

text \<open>A scheduler: its own token, its tick processor, and the receiving ends that the latter holds.\<close>

record sched =
  sd_phase :: sched_phase
  sd_token :: bool
  sd_processor :: bool
  sd_waiting :: "nat list"

definition new_sched :: sched where
  "new_sched = \<lparr>sd_phase = Booting, sd_token = False, sd_processor = True, sd_waiting = []\<rparr>"

record ('st, 'cl) process =
  pr_main :: main_stage
  pr_endpoint :: bool
  pr_consumer :: consumer
  pr_monitor :: monitor
  pr_manager :: "'cl Manager"
  pr_services :: bool
  pr_stopping :: "u16 list"
  pr_scheds :: "u16 \<Rightarrow> sched option"
  pr_reports :: "(string + unit) list"
  pr_executor :: "('st, ResultsProducer) executor"
  pr_stream :: bool \<comment> \<open>the executor still takes checks from its channel\<close>
  pr_executing :: bool
  pr_lost :: "nat list" \<comment> \<open>the checks dropped with the channel\<close>
  pr_worker :: bool
  pr_chunk :: "u8 list list"
  pr_batches :: "u8 list list list"

text \<open>What the process is given: the operations of the checker, third-party code, and its configuration.\<close>

record ('w, 'st, 'cl, 'cn, 'db) process_env =
  pe_check_url :: "'w \<Rightarrow> ScheduledCheck \<Rightarrow> string \<Rightarrow> 'st \<Rightarrow> (CheckResult \<times> 'st) option"
  pe_check_robots :: "'w \<Rightarrow> ScheduledCheck \<Rightarrow> string \<Rightarrow> 'st \<Rightarrow> (CheckResult option \<times> 'st) option"
  pe_producer :: producer_externals
  pe_lib :: "('cl, 'cn, 'db) redis_lib"
  pe_v5 :: uuid_v5
  pe_ord :: "u16 set \<Rightarrow> u16 list"
  pe_conf :: Config
  pe_loads :: "u16 list" \<comment> \<open>the partitions of the configurations of the initial load, in order\<close>
  pe_faults :: bool \<comment> \<open>whether Redis may fail at a start or fatally, or the endpoint's port be taken\<close>

definition batch_size :: "('w, 'st, 'cl, 'cn, 'db) process_env \<Rightarrow> nat" where
  "batch_size C = unat (cf_vector_batch_size (pe_conf C))"

definition owned :: "('w, 'st, 'cl, 'cn, 'db) process_env \<Rightarrow> u16 set" where
  "owned C = (case provider_of_config (pe_lib C) (pe_conf C) of None \<Rightarrow> {} | Some pv \<Rightarrow> pv_partitions pv)"

definition start_process :: "Config \<Rightarrow> 'st \<Rightarrow> ('st, 'cl) process" where
  "start_process conf st =
     \<lparr>pr_main = Serving, pr_endpoint = True, pr_consumer = Selecting, pr_monitor = MonitorNew,
      pr_manager = new_manager conf, pr_services = True, pr_stopping = [], pr_scheds = Map.empty,
      pr_reports = [], pr_executor = new_executor st new_results_producer, pr_stream = True,
      pr_executing = True, pr_lost = [], pr_worker = True, pr_chunk = [], pr_batches = []\<rparr>"

text \<open>The token that the tasks share is the one that stops the executor.\<close>

definition shutdown :: "('st, 'cl) process \<Rightarrow> bool" where
  "shutdown s = ex_cancelled (pr_executor s)"

definition abort :: "('st, 'cl) process \<Rightarrow> ('st, 'cl) process" where
  "abort s = s\<lparr>pr_main := Aborted\<rparr>"

text \<open>Both tasks of the provider hold the manager, and with it the sending ends of its channels.\<close>

definition manager_dropped :: "('st, 'cl) process \<Rightarrow> bool" where
  "manager_dropped s = (pr_consumer s = ConsumerEnded \<and> pr_monitor s = MonitorFinished)"

section \<open>Stopping\<close>

datatype wake = Interrupted | Terminated | TaskFinished "string + unit" | ReportsClosed

definition woken :: "wake \<Rightarrow> ('st, 'cl) process \<Rightarrow> bool" where
  "woken w s =
     (case w of
        Interrupted \<Rightarrow> True
      | Terminated \<Rightarrow> True
      | TaskFinished r \<Rightarrow> pr_reports s \<noteq> [] \<and> hd (pr_reports s) = r
      | ReportsClosed \<Rightarrow> pr_reports s = [] \<and> manager_dropped s \<and>
          (\<forall>p d. pr_scheds s p = Some d \<longrightarrow> sd_phase d = SchedEnded))"

fun stage_over :: "main_stage \<Rightarrow> ('st, 'cl) process \<Rightarrow> bool" where
  "stage_over AwaitEndpoint s = (\<not> pr_endpoint s)"
| "stage_over AwaitConsumer s = (pr_consumer s = ConsumerEnded)"
| "stage_over AwaitWorker s = (\<not> pr_worker s)"
| "stage_over AwaitServices s = (\<not> pr_services s)"
| "stage_over AwaitExecutor s = (\<not> pr_executing s)"
| "stage_over _ s = False"

fun next_stage :: "main_stage \<Rightarrow> main_stage" where
  "next_stage Serving = AwaitEndpoint"
| "next_stage AwaitEndpoint = AwaitConsumer"
| "next_stage AwaitConsumer = AwaitWorker"
| "next_stage AwaitWorker = AwaitServices"
| "next_stage AwaitServices = AwaitExecutor"
| "next_stage AwaitExecutor = Stopped"
| "next_stage m = m"

inductive main_step :: "('st, 'cl) process \<Rightarrow> ('st, 'cl) process \<Rightarrow> bool" where
  wake: "pr_main s = Serving \<Longrightarrow> woken w s \<Longrightarrow>
    main_step s (s\<lparr>pr_main := AwaitEndpoint, pr_executor := cancel (pr_executor s)\<rparr>)"
| await: "stage_over (pr_main s) s \<Longrightarrow> main_step s (s\<lparr>pr_main := next_stage (pr_main s)\<rparr>)"

inductive endpoint_step :: "('w, 'st, 'cl, 'cn, 'db) process_env \<Rightarrow> ('st, 'cl) process \<Rightarrow> ('st, 'cl) process \<Rightarrow> bool"
  for C where
  endpoint: "pr_endpoint s \<Longrightarrow> shutdown s \<or> pe_faults C \<Longrightarrow> endpoint_step C s (s\<lparr>pr_endpoint := False\<rparr>)"

section \<open>The provider's two tasks\<close>

definition update_plan :: "(u16 set \<Rightarrow> u16 list) \<Rightarrow> u16 set \<Rightarrow> u16 set \<Rightarrow> partition_op list" where
  "update_plan ord known new = map Unregister (ord (known - new)) @ map Register (ord (new - known))"

fun run_op :: "('cl, 'cn, 'db) redis_lib \<Rightarrow> partition_op \<Rightarrow> 'cl Manager \<Rightarrow> 'cl Manager option" where
  "run_op lib (Unregister p) m = unregister_partition p m"
| "run_op lib (Register p) m = register_partition lib p m"

text \<open>A service that is registered has its scheduler running.\<close>

definition scheds_after :: "partition_op \<Rightarrow> ('st, 'cl) process \<Rightarrow> (u16 \<Rightarrow> sched option)" where
  "scheds_after op s =
     (case op of
        Register p \<Rightarrow> if mg_services (pr_manager s) p = None then (pr_scheds s)(p \<mapsto> new_sched) else pr_scheds s
      | Unregister _ \<Rightarrow> pr_scheds s)"

definition apply_op :: "('cl, 'cn, 'db) redis_lib \<Rightarrow> partition_op \<Rightarrow> ('st, 'cl) process \<Rightarrow> ('st, 'cl) process option" where
  "apply_op lib op s =
     map_option (\<lambda>m. s\<lparr>pr_manager := m, pr_scheds := scheds_after op s\<rparr>) (run_op lib op (pr_manager s))"

inductive consumer_step :: "('w, 'st, 'cl, 'cn, 'db) process_env \<Rightarrow> ('st, 'cl) process \<Rightarrow> ('st, 'cl) process \<Rightarrow> bool"
  for C where
  give_up: "pr_consumer s = Selecting \<Longrightarrow> shutdown s \<Longrightarrow>
    consumer_step C s (s\<lparr>pr_consumer := GivingUp (update_plan (pe_ord C) (dom (mg_services (pr_manager s))) {})\<rparr>)"
| monitor_ended: "pr_consumer s = Selecting \<Longrightarrow> pr_monitor s = MonitorFinished \<Longrightarrow>
    consumer_step C s (s\<lparr>pr_consumer := ConsumerEnded\<rparr>)"
| op: "pr_consumer s = GivingUp (op # ops) \<Longrightarrow> apply_op (pe_lib C) op s = Some s' \<Longrightarrow>
    consumer_step C s (s'\<lparr>pr_consumer := GivingUp ops\<rparr>)"
| op_panics: "pr_consumer s = GivingUp (op # ops) \<Longrightarrow> apply_op (pe_lib C) op s = None \<Longrightarrow>
    consumer_step C s (abort s)"
| gave_up: "pr_consumer s = GivingUp [] \<Longrightarrow> consumer_step C s (s\<lparr>pr_consumer := ConsumerEnded\<rparr>)"

inductive monitor_step :: "('w, 'st, 'cl, 'cn, 'db) process_env \<Rightarrow> ('st, 'cl) process \<Rightarrow> ('st, 'cl) process \<Rightarrow> bool"
  for C where
  begin_load: "pr_monitor s = MonitorNew \<Longrightarrow>
    monitor_step C s (s\<lparr>pr_monitor := Registering (update_plan (pe_ord C) (dom (mg_services (pr_manager s))) (owned C))\<rparr>)"
| register: "pr_monitor s = Registering (op # ops) \<Longrightarrow> apply_op (pe_lib C) op s = Some s' \<Longrightarrow>
    monitor_step C s (s'\<lparr>pr_monitor := Registering ops\<rparr>)"
| register_panics: "pr_monitor s = Registering (op # ops) \<Longrightarrow> apply_op (pe_lib C) op s = None \<Longrightarrow>
    monitor_step C s (abort s)"
| registered: "pr_monitor s = Registering [] \<Longrightarrow> monitor_step C s (s\<lparr>pr_monitor := Working True (pe_loads C)\<rparr>)"
| load_panics: "pr_monitor s = Registering [] \<or> pr_monitor s = Working True ps \<Longrightarrow> pe_faults C \<Longrightarrow>
    monitor_step C s (abort s)"
| take: "pr_monitor s = Working initial (p # ps) \<Longrightarrow> get_service p (pr_manager s) = Some (svc, m) \<Longrightarrow>
    monitor_step C s (s\<lparr>pr_monitor := Holding initial p ps, pr_manager := m\<rparr>)"
| take_panics: "pr_monitor s = Working initial (p # ps) \<Longrightarrow> get_service p (pr_manager s) = None \<Longrightarrow>
    monitor_step C s (abort s)"
| change: "pr_monitor s = Holding initial p ps \<Longrightarrow>
    monitor_step C s (s\<lparr>pr_monitor := Working initial ps, pr_manager := drop_service p (set_store p st (pr_manager s))\<rparr>)"
| worked: "pr_monitor s = Working initial [] \<Longrightarrow> monitor_step C s (s\<lparr>pr_monitor := MonitorIdle\<rparr>)"
| pass_fails: "pr_monitor s = Working False ps \<Longrightarrow> monitor_step C s (s\<lparr>pr_monitor := MonitorIdle\<rparr>)"
| pass: "pr_monitor s = MonitorIdle \<Longrightarrow> \<not> shutdown s \<Longrightarrow> \<not> cf_redis_readonly (pe_conf C) \<Longrightarrow> set ps \<subseteq> owned C \<Longrightarrow>
    monitor_step C s (s\<lparr>pr_monitor := Working False ps\<rparr>)"
| monitor_ends: "pr_monitor s = MonitorIdle \<Longrightarrow> shutdown s \<or> cf_redis_readonly (pe_conf C) \<Longrightarrow>
    monitor_step C s (s\<lparr>pr_monitor := MonitorFinished\<rparr>)"

section \<open>The services that are stopped\<close>

definition told_to_stop :: "u16 \<Rightarrow> (u16 \<Rightarrow> sched option) \<Rightarrow> (u16 \<Rightarrow> sched option)" where
  "told_to_stop p scheds =
     (case scheds p of None \<Rightarrow> scheds | Some d \<Rightarrow> scheds(p \<mapsto> d\<lparr>sd_token := True\<rparr>))"

inductive services_step :: "('st, 'cl) process \<Rightarrow> ('st, 'cl) process \<Rightarrow> bool" where
  stop: "pr_services s \<Longrightarrow> mg_shutdown (pr_manager s) = svc # svcs \<Longrightarrow>
    services_step s (s\<lparr>pr_manager := (pr_manager s)\<lparr>mg_shutdown := svcs\<rparr>,
      pr_scheds := told_to_stop (ps_partition svc) (pr_scheds s), pr_stopping := pr_stopping s @ [ps_partition svc]\<rparr>)"
| joined: "pr_services s \<Longrightarrow> pr_stopping s = xs @ p # ys \<Longrightarrow> pr_scheds s p = Some d \<Longrightarrow> sd_phase d = SchedEnded \<Longrightarrow>
    services_step s (s\<lparr>pr_stopping := xs @ ys\<rparr>)"
| services_end: "pr_services s \<Longrightarrow> manager_dropped s \<Longrightarrow> mg_shutdown (pr_manager s) = [] \<Longrightarrow> pr_stopping s = [] \<Longrightarrow>
    services_step s (s\<lparr>pr_services := False, pr_manager := (pr_manager s)\<lparr>mg_shutdown_open := False\<rparr>\<rparr>)"

section \<open>The schedulers\<close>

text \<open>A tick queues its checks with nobody in between.\<close>

definition send_all :: "('st, 'pst) executor \<Rightarrow> ('st, 'pst) executor" where
  "send_all e = e\<lparr>ex_queue := ex_queue e @ ex_sending e, ex_sending := []\<rparr>"

definition put_sched :: "u16 \<Rightarrow> sched \<Rightarrow> ('st, 'cl) process \<Rightarrow> ('st, 'cl) process" where
  "put_sched p d s = s\<lparr>pr_scheds := (pr_scheds s)(p \<mapsto> d)\<rparr>"

definition end_sched :: "u16 \<Rightarrow> sched \<Rightarrow> string + unit \<Rightarrow> ('st, 'cl) process \<Rightarrow> ('st, 'cl) process" where
  "end_sched p d r s = (put_sched p (d\<lparr>sd_phase := SchedEnded\<rparr>) s)\<lparr>pr_reports := pr_reports s @ [r]\<rparr>"

text \<open>Fresh one-shot channels for the configurations of a bucket.\<close>

definition fresh_channels :: "('st, 'pst) executor \<Rightarrow> (check_config \<times> nat) list \<Rightarrow> bool" where
  "fresh_channels e cs \<longleftrightarrow> distinct (map snd cs) \<and> set (map snd cs) \<inter> set (ex_submitted e) = {}"

inductive scheduler_step ::
  "('w, 'st, 'cl, 'cn, 'db) process_env \<Rightarrow> u16 \<Rightarrow> ('st, 'cl) process \<Rightarrow> ('st, 'cl) process \<Rightarrow> bool"
  for C p where
  booted: "pr_scheds s p = Some d \<Longrightarrow> sd_phase d = Booting \<Longrightarrow>
    scheduler_step C p s (put_sched p (d\<lparr>sd_phase := AtCheck\<rparr>) s)"
| start_fails: "pr_scheds s p = Some d \<Longrightarrow> sd_phase d = Booting \<Longrightarrow> pe_faults C \<Longrightarrow>
    scheduler_step C p s (end_sched p d (Inl e) s)"
| go_on: "pr_scheds s p = Some d \<Longrightarrow> sd_phase d = AtCheck \<Longrightarrow> \<not> sd_token d \<Longrightarrow>
    scheduler_step C p s (put_sched p (d\<lparr>sd_phase := Ticking\<rparr>) s)"
| begin_shutdown: "pr_scheds s p = Some d \<Longrightarrow> sd_phase d = AtCheck \<Longrightarrow> sd_token d \<Longrightarrow>
    scheduler_step C p s (put_sched p (d\<lparr>sd_phase := Draining\<rparr>) s)"
| tick: "pr_scheds s p = Some d \<Longrightarrow> sd_phase d = Ticking \<Longrightarrow> fresh_channels (pr_executor s) cs \<Longrightarrow>
    schedule_configs (pe_v5 C) (cf_region (pe_conf C)) t (pr_stream s) cs (pr_executor s) = Some (Inr (txs, e)) \<Longrightarrow>
    sd_processor d \<Longrightarrow>
    scheduler_step C p s
      ((put_sched p (d\<lparr>sd_phase := AtCheck, sd_waiting := sd_waiting d @ txs\<rparr>) s)\<lparr>pr_executor := send_all e\<rparr>)"
| tick_unheard: "pr_scheds s p = Some d \<Longrightarrow> sd_phase d = Ticking \<Longrightarrow> fresh_channels (pr_executor s) cs \<Longrightarrow>
    schedule_configs (pe_v5 C) (cf_region (pe_conf C)) t (pr_stream s) cs (pr_executor s) = Some (Inr (txs, e)) \<Longrightarrow>
    \<not> sd_processor d \<Longrightarrow>
    scheduler_step C p s ((end_sched p d (Inl ''tick_complete_tx.send failure'') s)\<lparr>pr_executor := send_all e\<rparr>)"
| tick_fails: "pr_scheds s p = Some d \<Longrightarrow> sd_phase d = Ticking \<Longrightarrow>
    schedule_configs (pe_v5 C) (cf_region (pe_conf C)) t (pr_stream s) cs (pr_executor s) = Some (Inl e) \<Longrightarrow>
    scheduler_step C p s (end_sched p d (Inl e) s)"
| tick_panics: "pr_scheds s p = Some d \<Longrightarrow> sd_phase d = Ticking \<Longrightarrow>
    schedule_configs (pe_v5 C) (cf_region (pe_conf C)) t (pr_stream s) cs (pr_executor s) = None \<Longrightarrow>
    scheduler_step C p s (abort s)"
| drained: "pr_scheds s p = Some d \<Longrightarrow> sd_phase d = Draining \<Longrightarrow>
    \<not> sd_processor d \<or> set (sd_waiting d) \<inter> sc_resolve_tx ` set (in_hand (pr_executor s)) = {} \<Longrightarrow>
    scheduler_step C p s (end_sched p d (Inr ()) s)"

text \<open>
  The tick processor: a lost check makes it drop other receiving ends, and it ends, dropping them all, when no tick
  of a batch was completed or when a write fails fatally.
\<close>

inductive processor_step ::
  "('w, 'st, 'cl, 'cn, 'db) process_env \<Rightarrow> ('st, 'cl) process \<Rightarrow> ('st, 'cl) process \<Rightarrow> bool" for C where
  drop_batch: "pr_scheds s p = Some d \<Longrightarrow> tx \<in> set (sd_waiting d) \<Longrightarrow> tx \<in> set (pr_lost s) \<Longrightarrow>
    set ws \<subseteq> set (sd_waiting d) \<Longrightarrow> processor_step C s (put_sched p (d\<lparr>sd_waiting := ws\<rparr>) s)"
| processor_ends: "pr_scheds s p = Some d \<Longrightarrow> sd_processor d \<Longrightarrow>
    pe_faults C \<or> set (sd_waiting d) \<inter> set (pr_lost s) \<noteq> {} \<Longrightarrow>
    processor_step C s (put_sched p (d\<lparr>sd_processor := False, sd_waiting := []\<rparr>) s)"

section \<open>The executor and the worker\<close>

text \<open>A check can be reported as long as the processor of its scheduler holds the receiving end.\<close>

definition receiving :: "('st, 'cl) process \<Rightarrow> nat \<Rightarrow> bool" where
  "receiving s tx \<longleftrightarrow> (\<exists>p d. pr_scheds s p = Some d \<and> tx \<in> set (sd_waiting d))"

definition process_check ::
  "('w, 'st, 'cl, 'cn, 'db) process_env \<Rightarrow> ('st, 'cl) process \<Rightarrow> exec_input \<Rightarrow> 'w \<Rightarrow> ScheduledCheck
     \<Rightarrow> (check_end \<times> 'st \<times> ResultsProducer) option" where
  "process_check C s x w c =
     do_check (pe_check_url C) (pe_check_robots C) (results_produce (pe_conf C) (pe_producer C))
       (cf_failure_retries (pe_conf C)) (cf_region (pe_conf C))
       (x\<lparr>xi_queue_open := pr_stream s, xi_rx_open := receiving s\<rparr>) w c (ex_checker (pr_executor s)) (ex_producer (pr_executor s))"

definition has_room :: "('w, 'st, 'cl, 'cn, 'db) process_env \<Rightarrow> ('st, 'cl) process \<Rightarrow> bool" where
  "has_room C s = (let n = ec_concurrency (executor_config_of (pe_conf C))
     in n = 0 \<or> length (ex_running (pr_executor s)) < n)"

text \<open>Cancelled, the stream of checks is dropped with what is queued, when there is room to look at it.\<close>

definition close_stream :: "('st, 'cl) process \<Rightarrow> ('st, 'cl) process" where
  "close_stream s =
     s\<lparr>pr_stream := False, pr_lost := pr_lost s @ map sc_resolve_tx (ex_queue (pr_executor s)),
       pr_executor := (pr_executor s)\<lparr>ex_queue := []\<rparr>\<rparr>"

inductive executor_task_step ::
  "('w, 'st, 'cl, 'cn, 'db) process_env \<Rightarrow> ('st, 'cl) process \<Rightarrow> ('st, 'cl) process \<Rightarrow> bool" for C where
  start: "pr_executing s \<Longrightarrow> ex_queue (pr_executor s) = c # q \<Longrightarrow>
    may_start (executor_config_of (pe_conf C)) (pr_executor s) \<Longrightarrow>
    executor_task_step C s (s\<lparr>pr_executor := start_check c q (pr_executor s)\<rparr>)"
| finish: "pr_executing s \<Longrightarrow> ex_running (pr_executor s) = xs @ c # ys \<Longrightarrow>
    process_check C s x w c = Some (e, st, pst) \<Longrightarrow>
    executor_task_step C s (s\<lparr>pr_executor := send_all (finish_check e st pst xs c ys (pr_executor s))\<rparr>)"
| check_panics: "pr_executing s \<Longrightarrow> ex_running (pr_executor s) = xs @ c # ys \<Longrightarrow>
    process_check C s x w c = None \<Longrightarrow> executor_task_step C s (abort s)"
| close: "pr_executing s \<Longrightarrow> pr_stream s \<Longrightarrow> shutdown s \<Longrightarrow> has_room C s \<Longrightarrow>
    executor_task_step C s (close_stream s)"
| executor_ends: "pr_executing s \<Longrightarrow> \<not> pr_stream s \<Longrightarrow> ex_running (pr_executor s) = [] \<Longrightarrow>
    executor_task_step C s (s\<lparr>pr_executing := False\<rparr>)"

definition set_channel :: "u8 list list \<Rightarrow> usize \<Rightarrow> ('st, 'cl) process \<Rightarrow> ('st, 'cl) process" where
  "set_channel xs n s = s\<lparr>pr_executor := (pr_executor s)\<lparr>ex_producer :=
     (ex_producer (pr_executor s))\<lparr>vp_channel := xs, vp_pending_items := n\<rparr>\<rparr>\<rparr>"

text \<open>The producer, and the sending end of the worker's channel, go with the executor.  Kafka's worker has nothing to do.\<close>

inductive worker_step ::
  "('w, 'st, 'cl, 'cn, 'db) process_env \<Rightarrow> ('st, 'cl) process \<Rightarrow> ('st, 'cl) process \<Rightarrow> bool" for C where
  collect: "cf_producer_mode (pe_conf C) = ProducerVector \<Longrightarrow> pr_worker s \<Longrightarrow> vp_channel (ex_producer (pr_executor s)) = x # q \<Longrightarrow> length (pr_chunk s) < batch_size C \<Longrightarrow>
    worker_step C s ((set_channel q (vp_pending_items (ex_producer (pr_executor s))) s)\<lparr>pr_chunk := pr_chunk s @ [x]\<rparr>)"
| emit: "cf_producer_mode (pe_conf C) = ProducerVector \<Longrightarrow> pr_worker s \<Longrightarrow> pr_chunk s \<noteq> [] \<Longrightarrow>
    worker_step C s ((set_channel (vp_channel (ex_producer (pr_executor s)))
        (vp_pending_items (ex_producer (pr_executor s)) - of_nat (length (pr_chunk s))) s)
      \<lparr>pr_batches := pr_batches s @ [pr_chunk s], pr_chunk := []\<rparr>)"
| worker_ends: "cf_producer_mode (pe_conf C) = ProducerVector \<Longrightarrow> pr_worker s \<Longrightarrow> \<not> pr_executing s \<Longrightarrow>
    vp_channel (ex_producer (pr_executor s)) = [] \<Longrightarrow> pr_chunk s = [] \<Longrightarrow>
    worker_step C s (s\<lparr>pr_worker := False\<rparr>)"
| dummy_worker: "cf_producer_mode (pe_conf C) = ProducerKafka \<Longrightarrow> pr_worker s \<Longrightarrow>
    worker_step C s (s\<lparr>pr_worker := False\<rparr>)"

section \<open>The process\<close>

definition alive :: "('st, 'cl) process \<Rightarrow> bool" where
  "alive s \<longleftrightarrow> pr_main s \<noteq> Stopped \<and> pr_main s \<noteq> Aborted"

inductive process_step ::
  "('w, 'st, 'cl, 'cn, 'db) process_env \<Rightarrow> ('st, 'cl) process \<Rightarrow> ('st, 'cl) process \<Rightarrow> bool" for C where
  main: "alive s \<Longrightarrow> main_step s s' \<Longrightarrow> process_step C s s'"
| endpoint: "alive s \<Longrightarrow> endpoint_step C s s' \<Longrightarrow> process_step C s s'"
| consumer: "alive s \<Longrightarrow> consumer_step C s s' \<Longrightarrow> process_step C s s'"
| monitor: "alive s \<Longrightarrow> monitor_step C s s' \<Longrightarrow> process_step C s s'"
| services: "alive s \<Longrightarrow> services_step s s' \<Longrightarrow> process_step C s s'"
| scheduler: "alive s \<Longrightarrow> scheduler_step C p s s' \<Longrightarrow> process_step C s s'"
| processor: "alive s \<Longrightarrow> processor_step C s s' \<Longrightarrow> process_step C s s'"
| executor: "alive s \<Longrightarrow> executor_task_step C s s' \<Longrightarrow> process_step C s s'"
| worker: "alive s \<Longrightarrow> worker_step C s s' \<Longrightarrow> process_step C s s'"

text \<open>The states that the process can come to; without a provider it does not start.\<close>

definition process_runs where
  "process_runs C st s \<longleftrightarrow>
     provider_of_config (pe_lib C) (pe_conf C) \<noteq> None \<and> (process_step C)\<^sup>*\<^sup>* (start_process (pe_conf C) st) s"

lemma process_runs_step: "process_runs C st s \<Longrightarrow> process_step C s s' \<Longrightarrow> process_runs C st s'"
  unfolding process_runs_def by auto

lemma process_runs_induct [consumes 1, case_names start step]:
  assumes "process_runs C st s" "P (start_process (pe_conf C) st)"
    and "\<And>s s'. process_runs C st s \<Longrightarrow> process_step C s s' \<Longrightarrow> P s \<Longrightarrow> P s'"
  shows "P s"
proof -
  have p: "provider_of_config (pe_lib C) (pe_conf C) \<noteq> None" using assms(1) by (simp add: process_runs_def)
  from assms(1) have "(process_step C)\<^sup>*\<^sup>* (start_process (pe_conf C) st) s" by (simp add: process_runs_def)
  then show ?thesis
    by (induction rule: rtranclp_induct) (use p assms(2,3) in \<open>auto simp: process_runs_def\<close>)
qed

end
