(* ===== verification/ProcessRuns.thy ===== *)
theory ProcessRuns
  imports ProcessSteps
begin

text \<open>
  Runs of the process, for a checker with one partition: the initial load, a tick that queues a check, and the request to stop.
\<close>

lemmas runs_main = process_runs_step [OF _ process_step.main]
lemmas runs_endpoint = process_runs_step [OF _ process_step.endpoint]
lemmas runs_consumer = process_runs_step [OF _ process_step.consumer]
lemmas runs_monitor = process_runs_step [OF _ process_step.monitor]
lemmas runs_services = process_runs_step [OF _ process_step.services]
lemmas runs_scheduler = process_runs_step [OF _ process_step.scheduler]
lemmas runs_executor = process_runs_step [OF _ process_step.executor]
lemmas runs_worker = process_runs_step [OF _ process_step.worker]

section \<open>A checker with one partition\<close>

text \<open>
  One partition, two retries, and a site of which every check has the same status.
\<close>

definition one_result :: "CheckStatus \<Rightarrow> ScheduledCheck \<Rightarrow> string \<Rightarrow> CheckResult" where
  "one_result status c region = (missed_from 0 1 c region)\<lparr>cr_status := status\<rparr>"

definition one_conf :: Config where
  "one_conf = default_config\<lparr>cf_failure_retries := 2, cf_producer_mode := ProducerVector,
     cf_config_provider_redis_total_partitions := 1\<rparr>"

definition one_env :: "CheckStatus \<Rightarrow> (unit, unit, unit, unit, plain_db) process_env" where
  "one_env status =
     \<lparr>pe_check_url = \<lambda>w c region st. Some (one_result status c region, st),
      pe_check_robots = \<lambda>w c region st. Some (None, st),
      pe_producer = \<lparr>to_vec = \<lambda>r. Inr [7], validate_json = \<lambda>_. None, kafka_produce = \<lambda>_ _. None\<rparr>,
      pe_lib = plain_redis, pe_v5 = \<lambda>_ _. 7, pe_ord = sorted_list_of_set, pe_conf = one_conf, pe_loads = [0],
      pe_faults = False\<rparr>"

definition one_client :: "unit RedisClient" where
  "one_client = \<lparr>rcl_client = SingleClient (), rcl_timeout_ms = 30000, rcl_readonly = False\<rparr>"

definition one_service :: "unit PartitionedService" where
  "one_service = \<lparr>ps_partition = 0, ps_config = one_conf, ps_config_store = new_store,
     ps_progress_key = build_progress_key 0, ps_client = one_client, ps_cancelled = False, ps_refs = 0\<rparr>"

lemma one_start: "start_service plain_redis one_conf 0 = Some one_service"
  by (simp add: start_service_def build_redis_client_def plain_redis_def one_conf_def default_config_def
      one_service_def one_client_def)

lemma one_provider: "provider_of_config plain_redis one_conf \<noteq> None" "owned (one_env status) = {0}"
proof -
  have parts: "determine_owned_partitions one_conf = Some {0}"
    by (simp add: determine_owned_partitions_def one_conf_def default_config_def range_step_by.simps)
  have "new_config_provider plain_redis url ps d False ms False
      = Inr \<lparr>pv_redis = \<lparr>rcl_client = SingleClient (), rcl_timeout_ms = ms, rcl_readonly = False\<rparr>, pv_partitions = ps,
          pv_check_interval = d\<rparr>" for url ps d ms
    by (simp add: new_config_provider_def build_redis_client_def plain_redis_def)
  with parts show "provider_of_config plain_redis one_conf \<noteq> None" "owned (one_env status) = {0}"
    by (simp_all add: provider_of_config_def owned_def one_env_def) (simp_all add: one_conf_def default_config_def)
qed

text \<open>The first tick has queued a check, which is running, while the initial load is under way.\<close>

definition one_check :: ScheduledCheck where
  "one_check = new_scheduled_check Uptime (from_time 0) default_check_config False 9"

definition one_executor :: "(unit, ResultsProducer) executor" where
  "one_executor = send_all (queue_check (from_time 0) default_check_config Uptime 9 (new_executor () new_results_producer))"

definition one_running :: "(unit, unit) process" where
  "one_running = (start_process one_conf ())
     \<lparr>pr_monitor := Working True [0], pr_manager := (new_manager one_conf)\<lparr>mg_services := [0 \<mapsto> one_service]\<rparr>,
      pr_scheds := [0 \<mapsto> \<lparr>sd_phase = AtCheck, sd_token = False, sd_processor = True, sd_waiting = [9]\<rparr>],
      pr_executor := start_check one_check [] one_executor\<rparr>"

lemma one_env_simps [simp]:
  "pe_conf (one_env status) = one_conf" "pe_lib (one_env status) = plain_redis" "pe_ord (one_env status) = sorted_list_of_set"
  "pe_loads (one_env status) = [0]" "\<not> pe_faults (one_env status)" "owned (one_env status) = {0}"
  by (simp_all add: one_provider(2)) (simp_all add: one_env_def)

lemma one_conf_simps [simp]:
  "cf_redis_readonly one_conf = False" "cf_failure_retries one_conf = 2" "cf_producer_mode one_conf = ProducerVector"
  "ec_concurrency (executor_config_of one_conf) = 200"
  by (simp_all add: one_conf_def default_config_def executor_config_of_def)

lemma one_queue: "ex_queue one_executor = [one_check]" "ex_running one_executor = []"
    "ex_cancelled one_executor = False" "ex_sending one_executor = []"
  by (simp_all add: one_executor_def send_all_def queue_check_def announce_def new_executor_def one_check_def)

text \<open>The start: the partition is registered, the load begins, and the scheduler boots.\<close>

definition one_booted :: "(unit, unit) process" where
  "one_booted = (start_process one_conf ())
     \<lparr>pr_monitor := Working True [0], pr_manager := (new_manager one_conf)\<lparr>mg_services := [0 \<mapsto> one_service]\<rparr>,
      pr_scheds := [0 \<mapsto> new_sched\<lparr>sd_phase := AtCheck\<rparr>]\<rparr>"

lemma one_boot_steps:
  "\<exists>s1 s2 s3. process_step (one_env status) (start_process one_conf ()) s1 \<and> process_step (one_env status) s1 s2 \<and>
     process_step (one_env status) s2 s3 \<and> process_step (one_env status) s3 one_booted \<and>
     pr_scheds s1 = Map.empty \<and> pr_scheds s2 = [0 \<mapsto> new_sched] \<and> pr_scheds s3 = [0 \<mapsto> new_sched]"
proof -
  let ?s0 = "start_process one_conf () :: (unit, unit) process"
  let ?s1 = "?s0\<lparr>pr_monitor := Registering [Register 0]\<rparr>"
  let ?m = "(new_manager one_conf)\<lparr>mg_services := [0 \<mapsto> one_service]\<rparr>"
  let ?s2 = "?s0\<lparr>pr_monitor := Registering [], pr_manager := ?m, pr_scheds := [0 \<mapsto> new_sched]\<rparr>"
  let ?s3 = "?s2\<lparr>pr_monitor := Working True [0]\<rparr>"
  have alive: "alive ?s0" "alive ?s1" "alive ?s2" "alive ?s3"
    by (simp_all add: alive_def start_process_def)
  have "monitor_step (one_env status) ?s0 ?s1"
    using monitor_step.begin_load [of ?s0 "one_env status"]
    by (simp add: start_process_def new_manager_def update_plan_def)
  with alive(1) have 1: "process_step (one_env status) ?s0 ?s1" by (rule process_step.monitor)
  have "apply_op plain_redis (Register 0) ?s1 = Some (?s1\<lparr>pr_manager := ?m, pr_scheds := [0 \<mapsto> new_sched]\<rparr>)"
    by (simp add: apply_op_def register_partition_def scheds_after_def start_process_def new_manager_def one_start)
  then have "monitor_step (one_env status) ?s1 ?s2"
    using monitor_step.register [of ?s1 "Register 0" "[]" "one_env status"] by (simp add: start_process_def)
  with alive(2) have 2: "process_step (one_env status) ?s1 ?s2" by (rule process_step.monitor)
  have "monitor_step (one_env status) ?s2 ?s3" using monitor_step.registered [of ?s2 "one_env status"] by simp
  with alive(3) have 3: "process_step (one_env status) ?s2 ?s3" by (rule process_step.monitor)
  have "scheduler_step (one_env status) 0 ?s3 one_booted"
    using scheduler_step.booted [of ?s3 0 new_sched "one_env status"]
    by (simp add: new_sched_def one_booted_def put_sched_def start_process_def)
  with alive(4) have "process_step (one_env status) ?s3 one_booted" by (rule process_step.scheduler)
  with 1 2 3 show ?thesis
    by (intro exI [of _ ?s1] exI [of _ ?s2] exI [of _ ?s3]) (simp add: start_process_def)
qed

lemma one_booted_runs: "process_runs (one_env status) () one_booted"
proof -
  have s0: "process_runs (one_env status) () (start_process one_conf ())"
    using one_provider(1) by (simp add: process_runs_def)
  obtain s1 s2 s3 where steps: "process_step (one_env status) (start_process one_conf ()) s1" "process_step (one_env status) s1 s2"
      "process_step (one_env status) s2 s3" "process_step (one_env status) s3 one_booted"
    using one_boot_steps by blast
  from process_runs_step [OF process_runs_step [OF process_runs_step [OF process_runs_step [OF s0 steps(1)] steps(2)] steps(3)] steps(4)]
  show ?thesis .
qed

lemma one_runs: "process_runs (one_env status) () one_running"
proof -
  let ?s4 = one_booted
  let ?s5 = "put_sched 0 (new_sched\<lparr>sd_phase := Ticking\<rparr>) ?s4"
  let ?s6 = "(put_sched 0 (new_sched\<lparr>sd_phase := AtCheck, sd_waiting := [9]\<rparr>) ?s5)\<lparr>pr_executor := one_executor\<rparr>"
  have alive: "alive ?s4" "alive ?s5" "alive ?s6"
    by (simp_all add: alive_def start_process_def put_sched_def one_booted_def)
  have "scheduler_step (one_env status) 0 ?s4 ?s5"
    using scheduler_step.go_on [of ?s4 0 "new_sched\<lparr>sd_phase := AtCheck\<rparr>" "one_env status"]
    by (simp add: new_sched_def put_sched_def one_booted_def)
  then have s5: "process_runs (one_env status) () ?s5" using alive(1) by (intro runs_scheduler [OF one_booted_runs])
  have "schedule_configs (pe_v5 (one_env status)) (cf_region one_conf) (from_time 0) True [(default_check_config, 9)]
      (new_executor () new_results_producer)
    = Some (Inr ([9], queue_check (from_time 0) default_check_config Uptime 9 (new_executor () new_results_producer)))"
    by (simp add: default_check_config_def)
  then have "scheduler_step (one_env status) 0 ?s5 ?s6"
    using scheduler_step.tick [of ?s5 0 "new_sched\<lparr>sd_phase := Ticking\<rparr>" "[(default_check_config, 9)]" "one_env status" "from_time 0"]
    by (simp add: new_sched_def put_sched_def fresh_channels_def one_executor_def start_process_def new_executor_def one_booted_def)
  then have s6: "process_runs (one_env status) () ?s6" using alive(2) by (intro runs_scheduler [OF s5])
  have "executor_task_step (one_env status) ?s6 (?s6\<lparr>pr_executor := start_check one_check [] one_executor\<rparr>)"
    using executor_task_step.start [of ?s6 one_check "[]" "one_env status"]
    by (simp add: one_queue may_start_def start_process_def put_sched_def one_booted_def)
  then have "process_runs (one_env status) () (?s6\<lparr>pr_executor := start_check one_check [] one_executor\<rparr>)"
    using alive(3) by (intro runs_executor [OF s6])
  moreover have "?s6\<lparr>pr_executor := start_check one_check [] one_executor\<rparr> = one_running"
    by (simp add: one_running_def put_sched_def start_process_def new_sched_def one_booted_def)
  ultimately show ?thesis by (simp only:)
qed

text \<open>Asked to stop, the executor drops its channel before the check ends.\<close>

definition one_stopping :: "(unit, unit) process" where
  "one_stopping = one_running\<lparr>pr_main := AwaitEndpoint, pr_executor := cancel (pr_executor one_running)\<rparr>"

lemma one_stopping_runs: "process_runs (one_env status) () one_stopping" "alive one_stopping"
proof -
  have r: "alive one_running" "pr_main one_running = Serving"
    by (simp_all add: alive_def one_running_def start_process_def)
  have "main_step one_running one_stopping"
    unfolding one_stopping_def by (rule main_step.wake [where w = Terminated]) (simp_all add: r woken_def)
  then show "process_runs (one_env status) () one_stopping"
    using r(1) by (intro runs_main [OF one_runs])
  show "alive one_stopping" by (simp add: alive_def one_stopping_def)
qed

lemma one_fields:
  "pr_stream one_running" "pr_executing one_running" "pr_executing one_stopping" "pr_stream one_stopping"
  "ex_running (pr_executor one_running) = [one_check]"
  "ex_running (pr_executor one_stopping) = [one_check]" "shutdown one_stopping" "\<not> shutdown one_running"
  "ex_producer (pr_executor one_running) = new_results_producer"
  by (simp_all add: one_stopping_def one_running_def start_process_def start_check_def cancel_def shutdown_def
      one_queue one_executor_def send_all_def queue_check_def announce_def new_executor_def)

section \<open>A run that stops\<close>

text \<open>The check succeeds, its result is sent to Vector, and the load ends.\<close>

definition one_success :: CheckResult where
  "one_success = one_result Success one_check (cf_region one_conf)"

definition one_done :: "(unit, ResultsProducer) executor" where
  "one_done = send_all (finish_check (Resolved 9 (Some one_success)) ()
     (new_results_producer\<lparr>vp_channel := [[7]], vp_pending_items := 1\<rparr>) [] one_check [] (pr_executor one_running))"

definition one_sent :: "(unit, ResultsProducer) executor" where
  "one_sent = one_done\<lparr>ex_producer := new_results_producer\<rparr>"

definition one_served :: "(unit, unit) process" where
  "one_served = one_running\<lparr>pr_executor := one_sent, pr_batches := [[[7]]], pr_chunk := [], pr_monitor := MonitorIdle\<rparr>"

lemma one_done_fields:
  "ex_queue one_done = []" "ex_running one_done = []" "ex_sending one_done = []" "\<not> ex_cancelled one_done"
  "ex_producer one_done = new_results_producer\<lparr>vp_channel := [[7]], vp_pending_items := 1\<rparr>"
  by (simp_all add: one_done_def send_all_def finish_check_def one_running_def start_check_def one_queue Let_def)

lemma one_finishes:
  "process_check (one_env Success) one_running \<lparr>xi_now = 0, xi_missed_guid = 0, xi_rx_open = (\<lambda>_. True), xi_queue_open = True\<rparr>
     () one_check
   = Some (Resolved 9 (Some one_success), (), new_results_producer\<lparr>vp_channel := [[7]], vp_pending_items := 1\<rparr>)"
proof -
  have "receiving one_running 9" by (simp add: receiving_def one_running_def)
  then show ?thesis
    by (simp add: process_check_def do_check_def check_outcome_def one_check_def new_scheduled_check_def from_time_def
        seconds_def one_env_def one_fields one_success_def one_result_def record_result_def results_produce_def vector_produce_def
        new_results_producer)
qed

lemma one_served_runs: "process_runs (one_env Success) () one_served"
proof -
  let ?C = "one_env Success" and ?vp = "new_results_producer\<lparr>vp_channel := [[7]], vp_pending_items := 1\<rparr>"
  let ?s1 = "one_running\<lparr>pr_executor := one_done\<rparr>"
  let ?s2 = "one_running\<lparr>pr_executor := one_done\<lparr>ex_producer := new_results_producer\<lparr>vp_channel := [], vp_pending_items := 1\<rparr>\<rparr>, pr_chunk := [[7]]\<rparr>"
  let ?s3 = "one_running\<lparr>pr_executor := one_sent, pr_batches := [[[7]]], pr_chunk := []\<rparr>"
  let ?held = "one_service\<lparr>ps_refs := 1\<rparr>"
  let ?s4 = "?s3\<lparr>pr_monitor := Holding True 0 [], pr_manager := (pr_manager one_running)\<lparr>mg_services := [0 \<mapsto> ?held]\<rparr>\<rparr>"
  let ?s5 = "?s3\<lparr>pr_monitor := Working True []\<rparr>"
  have alive: "alive one_running" "alive ?s1" "alive ?s2" "alive ?s3" "alive ?s4" "alive ?s5"
    by (simp_all add: alive_def one_running_def start_process_def)
  have worker: "pr_worker one_running" "pr_chunk one_running = []" "pr_batches one_running = []" "batch_size ?C = 10"
    by (simp_all add: one_running_def start_process_def batch_size_def one_conf_def default_config_def)
  have "executor_task_step ?C one_running ?s1"
    using executor_task_step.finish [of one_running "[]" one_check "[]" ?C _ "()", OF _ _ one_finishes]
    by (simp add: one_fields one_done_def)
  with alive(1) have s1: "process_runs ?C () ?s1" by (intro runs_executor [OF one_runs])
  have "worker_step ?C ?s1 ?s2"
    using worker_step.collect [of ?C ?s1 "[7]" "[]"] by (simp add: worker one_done_fields set_channel_def)
  with alive(2) have s2: "process_runs ?C () ?s2" by (intro runs_worker [OF s1])
  have "worker_step ?C ?s2 ?s3"
    using worker_step.emit [of ?C ?s2]
    by (simp add: worker set_channel_def one_sent_def new_results_producer)
  with alive(3) have s3: "process_runs ?C () ?s3" by (intro runs_worker [OF s2])
  have m: "pr_manager one_running = (new_manager one_conf)\<lparr>mg_services := [0 \<mapsto> one_service]\<rparr>"
    "pr_monitor one_running = Working True [0]" by (simp_all add: one_running_def)
  have "get_service 0 (pr_manager ?s3) = Some (?held, (pr_manager one_running)\<lparr>mg_services := [0 \<mapsto> ?held]\<rparr>)"
    by (simp add: get_service_def m Let_def one_service_def)
  then have "monitor_step ?C ?s3 ?s4" using monitor_step.take [of ?s3 True 0 "[]" ?held _ ?C] by (simp add: m)
  with alive(4) have s4: "process_runs ?C () ?s4" by (intro runs_monitor [OF s3])
  have "drop_service 0 (set_store 0 new_store (pr_manager ?s4)) = pr_manager one_running"
    by (simp add: drop_service_def set_store_def m one_service_def)
  then have "monitor_step ?C ?s4 ?s5"
    using monitor_step.change [of ?s4 True 0 "[]" ?C new_store] by simp
  with alive(5) have s5: "process_runs ?C () ?s5" by (intro runs_monitor [OF s4])
  have "monitor_step ?C ?s5 one_served"
    using monitor_step.worked [of ?s5 True ?C] by (simp add: one_served_def)
  with alive(6) show ?thesis by (intro runs_monitor [OF s5])
qed

text \<open>Asked to stop, the provider gives up its partition.\<close>

definition one_given_up :: "(unit, unit) process" where
  "one_given_up = one_served\<lparr>pr_executor := cancel one_sent, pr_endpoint := False, pr_monitor := MonitorFinished,
     pr_manager := (new_manager one_conf)\<lparr>mg_shutdown := [one_service]\<rparr>, pr_consumer := ConsumerEnded,
     pr_main := AwaitWorker\<rparr>"

lemma one_served_fields:
  "pr_main one_served = Serving" "pr_endpoint one_served" "pr_consumer one_served = Selecting" "pr_monitor one_served = MonitorIdle"
  "pr_manager one_served = (new_manager one_conf)\<lparr>mg_services := [0 \<mapsto> one_service]\<rparr>" "pr_executor one_served = one_sent"
  "pr_worker one_served" "pr_executing one_served" "pr_stream one_served" "pr_services one_served" "pr_chunk one_served = []"
  "pr_stopping one_served = []" "pr_batches one_served = [[[7]]]"
  "pr_scheds one_served = [0 \<mapsto> \<lparr>sd_phase = AtCheck, sd_token = False, sd_processor = True, sd_waiting = [9]\<rparr>]"
  by (simp_all add: one_served_def one_running_def start_process_def)

lemma one_given_up_runs: "process_runs (one_env Success) () one_given_up"
proof -
  let ?C = "one_env Success" and ?m = "(new_manager one_conf)\<lparr>mg_shutdown := [one_service]\<rparr>"
  let ?s1 = "one_served\<lparr>pr_main := AwaitEndpoint, pr_executor := cancel one_sent\<rparr>"
  let ?s2 = "?s1\<lparr>pr_endpoint := False\<rparr>"
  let ?s3 = "?s2\<lparr>pr_main := AwaitConsumer\<rparr>"
  let ?s4 = "?s3\<lparr>pr_monitor := MonitorFinished\<rparr>"
  let ?s5 = "?s4\<lparr>pr_consumer := GivingUp [Unregister 0]\<rparr>"
  let ?s6 = "?s4\<lparr>pr_manager := ?m, pr_consumer := GivingUp []\<rparr>"
  let ?s7 = "?s4\<lparr>pr_manager := ?m, pr_consumer := ConsumerEnded\<rparr>"
  note f = one_served_fields
  have alive: "alive one_served" "alive ?s1" "alive ?s2" "alive ?s3" "alive ?s4" "alive ?s5" "alive ?s6" "alive ?s7"
    by (simp_all add: alive_def f)
  have down: "shutdown ?s1" "shutdown ?s3" "shutdown ?s4" by (simp_all add: shutdown_def cancel_def)
  have "main_step one_served ?s1" using main_step.wake [of one_served Terminated] by (simp add: f woken_def)
  with alive(1) have s1: "process_runs ?C () ?s1" by (intro runs_main [OF one_served_runs])
  have "endpoint_step ?C ?s1 ?s2" using endpoint_step.endpoint [of ?s1 ?C] down(1) by (simp add: f)
  with alive(2) have s2: "process_runs ?C () ?s2" by (intro runs_endpoint [OF s1])
  have "main_step ?s2 ?s3" using main_step.await [of ?s2] by (simp add: f)
  with alive(3) have s3: "process_runs ?C () ?s3" by (intro runs_main [OF s2])
  have "monitor_step ?C ?s3 ?s4" using monitor_step.monitor_ends [of ?s3 ?C] down(2) by (simp add: f)
  with alive(4) have s4: "process_runs ?C () ?s4" by (intro runs_monitor [OF s3])
  have "consumer_step ?C ?s4 ?s5" using consumer_step.give_up [of ?s4 ?C] down(3) by (simp add: f update_plan_def)
  with alive(5) have s5: "process_runs ?C () ?s5" by (intro runs_consumer [OF s4])
  have "apply_op plain_redis (Unregister 0) ?s5 = Some (?s5\<lparr>pr_manager := ?m\<rparr>)"
    by (simp add: apply_op_def unregister_partition_def scheds_after_def f new_manager_def one_service_def)
  then have "consumer_step ?C ?s5 ?s6" using consumer_step.op [of ?s5 "Unregister 0" "[]" ?C] by simp
  with alive(6) have s6: "process_runs ?C () ?s6" by (intro runs_consumer [OF s5])
  have "consumer_step ?C ?s6 ?s7" using consumer_step.gave_up [of ?s6 ?C] by simp
  with alive(7) have s7: "process_runs ?C () ?s7" by (intro runs_consumer [OF s6])
  have "main_step ?s7 one_given_up" using main_step.await [of ?s7] by (simp add: one_given_up_def)
  with alive(8) show ?thesis by (intro runs_main [OF s7])
qed

text \<open>The executor, the worker and the scheduler end.\<close>

definition one_stopped :: "(unit, unit) process" where
  "one_stopped = one_given_up\<lparr>pr_stream := False, pr_executing := False, pr_worker := False,
     pr_scheds := [0 \<mapsto> \<lparr>sd_phase = SchedEnded, sd_token = True, sd_processor = True, sd_waiting = [9]\<rparr>],
     pr_reports := [Inr ()], pr_stopping := [], pr_services := False,
     pr_manager := (new_manager one_conf)\<lparr>mg_shutdown_open := False\<rparr>, pr_main := Stopped\<rparr>"

lemma one_given_up_fields:
  "pr_main one_given_up = AwaitWorker" "pr_consumer one_given_up = ConsumerEnded" "pr_monitor one_given_up = MonitorFinished"
  "pr_manager one_given_up = (new_manager one_conf)\<lparr>mg_shutdown := [one_service]\<rparr>" "pr_executor one_given_up = cancel one_sent"
  "pr_worker one_given_up" "pr_executing one_given_up" "pr_stream one_given_up" "pr_services one_given_up" "pr_chunk one_given_up = []"
  "pr_stopping one_given_up = []" "pr_reports one_given_up = []" "pr_lost one_given_up = []"
  "pr_scheds one_given_up = [0 \<mapsto> \<lparr>sd_phase = AtCheck, sd_token = False, sd_processor = True, sd_waiting = [9]\<rparr>]"
  by (simp_all add: one_given_up_def one_served_fields) (simp_all add: one_served_def one_running_def start_process_def)

lemma one_sent_fields:
  "ex_queue (cancel one_sent) = []" "ex_running (cancel one_sent) = []" "ex_sending (cancel one_sent) = []"
  "vp_channel (ex_producer (cancel one_sent)) = []" "ex_cancelled (cancel one_sent)"
  by (simp_all add: one_sent_def cancel_def one_done_fields new_results_producer)

lemma one_stopped_runs: "process_runs (one_env Success) () one_stopped"
proof -
  let ?C = "one_env Success"
  let ?sd = "\<lambda>ph tok. [0 \<mapsto> \<lparr>sd_phase = ph, sd_token = tok, sd_processor = True, sd_waiting = [9]\<rparr>] :: u16 \<Rightarrow> sched option"
  let ?s1 = "one_given_up\<lparr>pr_stream := False\<rparr>"
  let ?s2 = "?s1\<lparr>pr_executing := False\<rparr>"
  let ?s3 = "?s2\<lparr>pr_worker := False\<rparr>"
  let ?s4 = "?s3\<lparr>pr_main := AwaitServices\<rparr>"
  let ?s5 = "?s4\<lparr>pr_manager := new_manager one_conf, pr_scheds := ?sd AtCheck True, pr_stopping := [0]\<rparr>"
  let ?s6 = "?s5\<lparr>pr_scheds := ?sd Draining True\<rparr>"
  let ?s7 = "?s5\<lparr>pr_scheds := ?sd SchedEnded True, pr_reports := [Inr ()]\<rparr>"
  let ?s8 = "?s7\<lparr>pr_stopping := []\<rparr>"
  let ?s9 = "?s8\<lparr>pr_services := False, pr_manager := (new_manager one_conf)\<lparr>mg_shutdown_open := False\<rparr>\<rparr>"
  let ?s10 = "?s9\<lparr>pr_main := AwaitExecutor\<rparr>"
  note f = one_given_up_fields one_sent_fields
  have alive: "alive one_given_up" "alive ?s1" "alive ?s2" "alive ?s3" "alive ?s4" "alive ?s5" "alive ?s6" "alive ?s7" "alive ?s8"
      "alive ?s9" "alive ?s10"
    by (simp_all add: alive_def f)
  have q: "(cancel one_sent)\<lparr>ex_queue := []\<rparr> = cancel one_sent"
    by (simp add: one_sent_def one_done_def send_all_def cancel_def finish_check_def one_running_def start_check_def one_queue Let_def)
  have "close_stream one_given_up = ?s1"
    by (simp add: close_stream_def f q)
  then have "executor_task_step ?C one_given_up ?s1"
    using executor_task_step.close [of one_given_up ?C] by (simp add: f shutdown_def has_room_def)
  with alive(1) have s1: "process_runs ?C () ?s1" by (intro runs_executor [OF one_given_up_runs])
  have "executor_task_step ?C ?s1 ?s2" using executor_task_step.executor_ends [of ?s1 ?C] by (simp add: f)
  with alive(2) have s2: "process_runs ?C () ?s2" by (intro runs_executor [OF s1])
  have "worker_step ?C ?s2 ?s3" using worker_step.worker_ends [of ?C ?s2] by (simp add: f)
  with alive(3) have s3: "process_runs ?C () ?s3" by (intro runs_worker [OF s2])
  have "main_step ?s3 ?s4" using main_step.await [of ?s3] by (simp add: f)
  with alive(4) have s4: "process_runs ?C () ?s4" by (intro runs_main [OF s3])
  have "services_step ?s4 ?s5"
    using services_step.stop [of ?s4 one_service "[]"]
    by (simp add: f told_to_stop_def new_manager_def one_service_def)
  with alive(5) have s5: "process_runs ?C () ?s5" by (intro runs_services [OF s4])
  have "scheduler_step ?C 0 ?s5 ?s6" using scheduler_step.begin_shutdown [of ?s5 0 _ ?C] by (simp add: put_sched_def)
  with alive(6) have s6: "process_runs ?C () ?s6" by (intro runs_scheduler [OF s5])
  have "scheduler_step ?C 0 ?s6 ?s7"
    using scheduler_step.drained [of ?s6 0 _ ?C] by (simp add: put_sched_def end_sched_def f in_hand_def)
  with alive(7) have s7: "process_runs ?C () ?s7" by (intro runs_scheduler [OF s6])
  have "services_step ?s7 ?s8" using services_step.joined [of ?s7 "[]" 0 "[]"] by (simp add: f)
  with alive(8) have s8: "process_runs ?C () ?s8" by (intro runs_services [OF s7])
  have "services_step ?s8 ?s9" using services_step.services_end [of ?s8] by (simp add: f manager_dropped_def new_manager_def)
  with alive(9) have s9: "process_runs ?C () ?s9" by (intro runs_services [OF s8])
  have "main_step ?s9 ?s10" using main_step.await [of ?s9] by (simp add: f)
  with alive(10) have s10: "process_runs ?C () ?s10" by (intro runs_main [OF s9])
  have "main_step ?s10 one_stopped" using main_step.await [of ?s10] by (simp add: one_stopped_def f)
  with alive(11) show ?thesis by (intro runs_main [OF s10])
qed

lemma one_stopped_fields:
  "pr_main one_stopped = Stopped" "pr_batches one_stopped = [[[7]]]" "pr_lost one_stopped = []"
  by (simp_all add: one_stopped_def one_given_up_def one_served_fields)
    (simp add: one_served_def one_running_def start_process_def)

end
