(* ===== verification/ProcessResults.thy ===== *)
theory ProcessResults
  imports ProcessRuns
begin

text \<open>
  What becomes of the checks and of their results in a run of the process: every queued check is in one place, and every result that
  was reported, and is valid, has gone or will go to Vector, or has been handed to Kafka, once and in order.
\<close>

section \<open>What the steps do to the executor\<close>

lemma schedule_configs_effect:
  "schedule_configs v5 region t open cs e = Some (Inr (txs, e')) \<Longrightarrow>
   \<exists>added. e' = e\<lparr>ex_submitted := ex_submitted e @ txs, ex_sending := ex_sending e @ added,
       ex_queue_size := ex_queue_size e + of_nat (length added)\<rparr> \<and>
     map sc_resolve_tx added = txs \<and> set txs \<subseteq> set (map snd cs) \<and> (distinct (map snd cs) \<longrightarrow> distinct txs) \<and>
     (\<not> open \<longrightarrow> txs = [])"
proof (induction cs arbitrary: e txs)
  case Nil
  then show ?case by (auto intro: exI [of _ "[]"])
next
  case (Cons x cs)
  obtain config tx where x: "x = (config, tx)" by (cases x)
  show ?case
  proof (cases "runs_here v5 t region config")
    case False
    with Cons.prems have "schedule_configs v5 region t open cs e = Some (Inr (txs, e'))"
      by (simp add: x should_run_cases)
    from Cons.IH [OF this] show ?thesis by (elim exE conjE) (intro exI conjI, assumption, auto simp: x)
  next
    case True
    let ?c = "new_scheduled_check Uptime t config False tx"
    from True Cons.prems obtain r where r: "schedule_configs v5 region t open cs (queue_check t config Uptime tx e) = Some (Inr (r, e'))"
        "txs = tx # r" "open"
      by (auto simp: x should_run_cases split: if_splits option.splits sum.splits prod.splits)
    obtain added where added: "e' = (queue_check t config Uptime tx e)
         \<lparr>ex_submitted := ex_submitted (queue_check t config Uptime tx e) @ r,
          ex_sending := ex_sending (queue_check t config Uptime tx e) @ added,
          ex_queue_size := ex_queue_size (queue_check t config Uptime tx e) + of_nat (length added)\<rparr>"
        "map sc_resolve_tx added = r" "set r \<subseteq> set (map snd cs)" "distinct (map snd cs) \<longrightarrow> distinct r"
      using Cons.IH [OF r(1)] by blast
    have "sc_resolve_tx ?c = tx" by (simp add: new_scheduled_check_def)
    with added r(2,3) show ?thesis
      by (intro exI [of _ "?c # added"]) (auto simp: x queue_check_def announce_def)
  qed
qed

text \<open>The payload of a result, when the producer takes it for Vector, and the message, when it takes it for Kafka.\<close>

definition taken_payload :: "producer_externals \<Rightarrow> CheckResult \<Rightarrow> u8 list list" where
  "taken_payload P r = (case to_vec P r of Inr json \<Rightarrow> if validate_json P json = None then [json] else [] | Inl _ \<Rightarrow> [])"

definition taken_message :: "producer_externals \<Rightarrow> CheckResult \<Rightarrow> (u128 \<times> u8 list) list" where
  "taken_message P r =
     (case to_vec P r of
        Inr json \<Rightarrow>
          if validate_json P json = None \<and> kafka_produce P (cr_subscription_id r) json = None
          then [(cr_subscription_id r, json)] else []
      | Inl _ \<Rightarrow> [])"

definition end_payload :: "('w, 'st, 'cl, 'cn, 'db) process_env \<Rightarrow> check_end \<Rightarrow> u8 list list" where
  "end_payload C e =
     (case (cf_producer_mode (pe_conf C), e) of
        (ProducerVector, Resolved _ (Some r)) \<Rightarrow> taken_payload (pe_producer C) r
      | _ \<Rightarrow> [])"

definition end_message :: "('w, 'st, 'cl, 'cn, 'db) process_env \<Rightarrow> check_end \<Rightarrow> (u128 \<times> u8 list) list" where
  "end_message C e =
     (case (cf_producer_mode (pe_conf C), e) of
        (ProducerKafka, Resolved _ (Some r)) \<Rightarrow> taken_message (pe_producer C) r
      | _ \<Rightarrow> [])"

lemmas end_simps = end_payload_def end_message_def

lemma results_produce_taken:
  assumes "results_produce (pe_conf C) (pe_producer C) r pst = Some (res, pst')" "vp_open pst"
  shows "vp_open pst' \<and> vp_channel pst' = vp_channel pst @ end_payload C (Resolved tx (Some r)) \<and>
    rp_messages pst' = rp_messages pst @ end_message C (Resolved tx (Some r))"
  using assms
  by (cases "cf_producer_mode (pe_conf C)")
    (auto simp: results_produce_def vector_produce_def kafka_produce_result_def taken_payload_def taken_message_def end_simps
      split: sum.splits option.splits)

lemma do_check_payload:
  assumes "do_check cu cr (results_produce (pe_conf C) (pe_producer C)) n region x w c st pst = Some (e, st', pst')" "vp_open pst"
  shows "vp_open pst' \<and> vp_channel pst' = vp_channel pst @ end_payload C e \<and>
    rp_messages pst' = rp_messages pst @ end_message C e"
proof -
  from assms(1) obtain out st1 where out: "check_outcome cu cr x w c region st = Some (out, st1)"
    by (auto simp: do_check_def split: option.splits)
  show ?thesis
  proof (cases out)
    case None
    with assms out show ?thesis
      by (auto simp: do_check_def record_result_def end_simps split: if_splits ProducerMode.splits)
  next
    case (Some r)
    show ?thesis
    proof (cases "cr_status r = Failure \<and> sc_retry_count c < n")
      case True
      with assms out Some show ?thesis
        by (auto simp: do_check_def end_simps split: if_splits ProducerMode.splits)
    next
      case False
      with assms(1) out Some obtain res where "results_produce (pe_conf C) (pe_producer C) r pst = Some (res, pst')"
          "e = Resolved (sc_resolve_tx c) (Some r)"
        by (auto simp: do_check_def record_result_def split: if_splits option.splits)
      with results_produce_taken assms(2) show ?thesis by blast
    qed
  qed
qed

lemma do_check_same_channel:
  assumes "do_check cu cr produce n region x w c st pst = Some (e, st', pst')"
  shows "case e of Requeued c' \<Rightarrow> sc_resolve_tx c' = sc_resolve_tx c \<and> xi_queue_open x
    | Resolved tx _ \<Rightarrow> tx = sc_resolve_tx c | Unreported \<Rightarrow> True"
  using assms by (auto simp: do_check_def record_result_def Let_def split: option.splits sum.splits if_splits)

section \<open>The invariant of the results\<close>

text \<open>What the resolved checks give to Vector and to Kafka.\<close>

definition delivered :: "('w, 'st, 'cl, 'cn, 'db) process_env \<Rightarrow> ('st, 'pst) executor \<Rightarrow> u8 list list" where
  "delivered C e = concat (map (\<lambda>(tx, res). end_payload C (Resolved tx res)) (ex_resolved e))"

definition kafka_messages :: "('w, 'st, 'cl, 'cn, 'db) process_env \<Rightarrow> ('st, 'pst) executor \<Rightarrow> (u128 \<times> u8 list) list" where
  "kafka_messages C e = concat (map (\<lambda>(tx, res). end_message C (Resolved tx res)) (ex_resolved e))"

lemma delivered_by_mode:
  "cf_producer_mode (pe_conf C) = ProducerKafka \<Longrightarrow> delivered C e = []"
  "cf_producer_mode (pe_conf C) = ProducerVector \<Longrightarrow> kafka_messages C e = []"
  by (simp_all add: delivered_def kafka_messages_def end_simps case_prod_unfold split: check_end.split option.split)

definition results_inv :: "('w, 'st, 'cl, 'cn, 'db) process_env \<Rightarrow> ('st, 'cl) process \<Rightarrow> bool" where
  "results_inv C s \<longleftrightarrow>
     (let e = pr_executor s in
      ex_sending e = [] \<and> (\<not> pr_stream s \<longrightarrow> ex_queue e = [] \<and> ex_cancelled e) \<and> (pr_stream s \<longrightarrow> pr_lost s = []) \<and>
      (\<not> pr_executing s \<longrightarrow> ex_running e = [] \<and> \<not> pr_stream s) \<and>
      (\<not> pr_worker s \<longrightarrow> vp_channel (ex_producer e) = [] \<and> pr_chunk s = []) \<and>
      (cf_producer_mode (pe_conf C) = ProducerVector \<and> \<not> pr_worker s \<longrightarrow> \<not> pr_executing s) \<and>
      vp_open (ex_producer e) \<and>
      concat (pr_batches s) @ pr_chunk s @ vp_channel (ex_producer e) = delivered C e \<and>
      rp_messages (ex_producer e) = kafka_messages C e \<and>
      distinct (ex_submitted e) \<and>
      image_mset sc_resolve_tx (mset (ex_queue e @ ex_running e)) + mset (map fst (ex_resolved e)) + mset (ex_unreported e) +
        mset (pr_lost s) = mset (ex_submitted e))"

lemmas results_simps = results_inv_def Let_def delivered_def kafka_messages_def

text \<open>The invariant reads only what concerns the executor and the worker.\<close>

lemma results_inv_frame:
  assumes "results_inv C s" "pr_executor s' = pr_executor s" "pr_stream s' = pr_stream s" "pr_lost s' = pr_lost s"
    "pr_executing s' = pr_executing s" "pr_worker s' = pr_worker s" "pr_chunk s' = pr_chunk s" "pr_batches s' = pr_batches s"
  shows "results_inv C s'"
  using assms by (simp add: results_inv_def)

lemma apply_opD:
  "apply_op lib op s = Some s' \<Longrightarrow>
     \<exists>m. run_op lib op (pr_manager s) = Some m \<and> s' = s\<lparr>pr_manager := m, pr_scheds := scheds_after op s\<rparr>"
  by (auto simp: apply_op_def)

lemma results_inv_tick:
  assumes "results_inv C s" "fresh_channels (pr_executor s) cs"
    and "schedule_configs v5 region t (pr_stream s) cs (pr_executor s) = Some (Inr (txs, e))"
  shows "results_inv C (s\<lparr>pr_executor := send_all e\<rparr>)"
proof -
  obtain added where e: "e = (pr_executor s)\<lparr>ex_submitted := ex_submitted (pr_executor s) @ txs,
       ex_sending := ex_sending (pr_executor s) @ added,
       ex_queue_size := ex_queue_size (pr_executor s) + of_nat (length added)\<rparr>"
      and txs: "map sc_resolve_tx added = txs" "set txs \<subseteq> set (map snd cs)" "distinct (map snd cs) \<longrightarrow> distinct txs"
      "\<not> pr_stream s \<longrightarrow> txs = []"
    using schedule_configs_effect [OF assms(3)] by blast
  have "\<not> pr_stream s \<longrightarrow> added = []" using txs(1,4) by auto
  moreover have "distinct (ex_submitted (pr_executor s) @ txs)"
    using assms(1,2) txs(2,3) unfolding results_inv_def fresh_channels_def Let_def by auto
  moreover have "image_mset sc_resolve_tx (mset added) = mset txs" by (simp flip: txs(1))
  moreover have "pr_executing s \<or> added = []" using calculation(1) assms(1) by (auto simp: results_simps)
  ultimately show ?thesis
    using assms(1) by (auto simp: results_simps e send_all_def ac_simps)
qed

lemma results_inv_finish:
  assumes "results_inv C s" "pr_executing s" "ex_running (pr_executor s) = xs @ c # ys" "process_check C s x w c = Some (e, st, pst)"
  shows "results_inv C (s\<lparr>pr_executor := send_all (finish_check e st pst xs c ys (pr_executor s))\<rparr>)"
proof -
  note inv = assms(1) [unfolded results_simps]
  have p: "vp_open pst" "vp_channel pst = vp_channel (ex_producer (pr_executor s)) @ end_payload C e"
      "rp_messages pst = rp_messages (ex_producer (pr_executor s)) @ end_message C e"
    using do_check_payload [OF assms(4) [unfolded process_check_def]] inv by auto
  have w: "pr_worker s \<or> end_payload C e = []"
    using inv assms(2) by (cases "cf_producer_mode (pe_conf C)") (auto simp: end_payload_def)
  show ?thesis
    using inv p w assms(2,3) do_check_same_channel [OF assms(4) [unfolded process_check_def]]
    by (cases e) (auto simp: results_simps finish_check_def announce_def send_all_def end_simps ac_simps split: ProducerMode.splits)
qed

lemma results_inv_start: "results_inv C (start_process conf st)"
  by (simp add: results_simps start_process_def new_executor_def new_results_producer)

lemma executor_task_results:
  assumes "executor_task_step C s s'" "results_inv C s"
  shows "results_inv C s'"
  using assms(1)
proof cases
  case (start c q)
  then show ?thesis using assms(2) by (auto simp: results_simps start_check_def ac_simps)
next
  case (finish xs c ys x w e st pst)
  then show ?thesis using results_inv_finish [OF assms(2)] by simp
next
  case close
  then show ?thesis using assms(2) by (auto simp: results_simps close_stream_def shutdown_def ac_simps)
qed (use assms(2) in \<open>auto simp: results_simps abort_def\<close>)

lemma worker_results:
  assumes "worker_step C s s'" "results_inv C s"
  shows "results_inv C s'"
  using assms
proof cases
  case dummy_worker
  note inv = assms(2) [unfolded results_inv_def Let_def]
  have "concat (pr_batches s) @ pr_chunk s @ vp_channel (ex_producer (pr_executor s)) = []"
    using inv delivered_by_mode(1) [OF dummy_worker(2)] by simp
  then show ?thesis using inv dummy_worker(1,2) by (simp add: results_inv_def Let_def)
qed (auto simp: results_simps set_channel_def)

lemma scheduler_results:
  assumes "scheduler_step C p s s'" "results_inv C s"
  shows "results_inv C s'"
  using assms(1)
proof cases
  case (tick d cs t txs e)
  from results_inv_tick [OF assms(2) tick(4,5)] show ?thesis
    by (rule results_inv_frame) (simp_all add: tick(1) put_sched_def)
next
  case (tick_unheard d cs t txs e)
  from results_inv_tick [OF assms(2) tick_unheard(4,5)] show ?thesis
    by (rule results_inv_frame) (simp_all add: tick_unheard(1) put_sched_def end_sched_def)
qed (rule results_inv_frame [OF assms(2)]; simp add: put_sched_def end_sched_def abort_def)+

lemma results_inv_step:
  assumes "results_inv C s" "process_step C s s'"
  shows "results_inv C s'"
  using assms(2)
proof cases
  case main
  from main(2) show ?thesis
  proof cases
    case (wake w)
    then show ?thesis
      using assms(1) by (simp add: results_simps cancel_def)
  qed (auto intro: results_inv_frame [OF assms(1)])
next
  case endpoint
  from endpoint(2) show ?thesis by cases (auto intro!: results_inv_frame [OF assms(1)])
next
  case consumer
  from consumer(2) show ?thesis
    by cases (auto intro!: results_inv_frame [OF assms(1)] dest!: apply_opD simp: abort_def)
next
  case monitor
  from monitor(2) show ?thesis
    by cases (auto intro!: results_inv_frame [OF assms(1)] dest!: apply_opD simp: abort_def)
next
  case services
  from services(2) show ?thesis by cases (auto intro!: results_inv_frame [OF assms(1)])
next
  case (scheduler p)
  then show ?thesis using scheduler_results assms(1) by blast
next
  case processor
  from processor(2) show ?thesis by cases (auto intro!: results_inv_frame [OF assms(1)] simp: put_sched_def)
next
  case executor
  then show ?thesis using executor_task_results assms(1) by blast
next
  case worker
  then show ?thesis using worker_results assms(1) by blast
qed

interpretation results: invariant_steps "process_step C" "results_inv C" for C
  by unfold_locales (rule results_inv_step)

lemma results_inv_runs: "process_runs C st s \<Longrightarrow> results_inv C s"
  unfolding process_runs_def by (elim conjE, erule results.inv_run, rule results_inv_start)

section \<open>The stages of the shutdown\<close>

fun stage_no :: "main_stage \<Rightarrow> nat" where
  "stage_no Serving = 0"
| "stage_no AwaitEndpoint = 1"
| "stage_no AwaitConsumer = 2"
| "stage_no AwaitWorker = 3"
| "stage_no AwaitServices = 4"
| "stage_no AwaitExecutor = 5"
| "stage_no Stopped = 6"
| "stage_no Aborted = 0"

text \<open>What was awaited has ended, and stays so; the token is cancelled once the process is asked to stop.\<close>

definition stages_inv :: "('st, 'cl) process \<Rightarrow> bool" where
  "stages_inv s \<longleftrightarrow>
     (pr_main s \<noteq> Aborted \<longrightarrow> shutdown s = (pr_main s \<noteq> Serving)) \<and>
     (2 \<le> stage_no (pr_main s) \<longrightarrow> \<not> pr_endpoint s) \<and>
     (3 \<le> stage_no (pr_main s) \<longrightarrow> pr_consumer s = ConsumerEnded) \<and>
     (4 \<le> stage_no (pr_main s) \<longrightarrow> \<not> pr_worker s) \<and>
     (5 \<le> stage_no (pr_main s) \<longrightarrow> \<not> pr_services s) \<and>
     (6 \<le> stage_no (pr_main s) \<longrightarrow> \<not> pr_executing s)"

lemma stages_inv_frame:
  assumes "stages_inv s" "pr_main s' = pr_main s" "shutdown s' = shutdown s" "pr_endpoint s' \<longrightarrow> pr_endpoint s"
    "pr_consumer s = ConsumerEnded \<longrightarrow> pr_consumer s' = ConsumerEnded" "pr_worker s' \<longrightarrow> pr_worker s"
    "pr_services s' \<longrightarrow> pr_services s" "pr_executing s' \<longrightarrow> pr_executing s"
  shows "stages_inv s'"
  using assms by (auto simp: stages_inv_def)

lemma stages_inv_abort: "stages_inv (abort s)"
  by (simp add: stages_inv_def abort_def)

lemma stages_inv_main:
  assumes "main_step s s'" "stages_inv s"
  shows "stages_inv s'"
  using assms
proof cases
  case (wake w)
  then show ?thesis by (simp add: stages_inv_def shutdown_def cancel_def)
next
  case await
  then show ?thesis using assms(2) by (cases "pr_main s") (simp_all add: stages_inv_def shutdown_def)
qed

lemma ex_cancelled_steps [simp]:
  "ex_cancelled (send_all e) = ex_cancelled e"
  "ex_cancelled (start_check c q e) = ex_cancelled e"
  "ex_cancelled (finish_check en st pst xs c ys e) = ex_cancelled e"
  by (cases en; simp add: send_all_def start_check_def finish_check_def announce_def Let_def)+

lemma tick_cancelled:
  "schedule_configs v5 region t open cs e = Some (Inr (txs, e')) \<Longrightarrow> ex_cancelled e' = ex_cancelled e"
  using schedule_configs_effect by fastforce

lemma stages_inv_step:
  assumes "stages_inv s" "process_step C s s'"
  shows "stages_inv s'"
  using assms(2)
proof cases
  case main
  then show ?thesis using stages_inv_main assms(1) by blast
next
  case endpoint
  from endpoint(2) show ?thesis by cases (auto intro!: stages_inv_frame [OF assms(1)] simp: shutdown_def)
next
  case consumer
  from consumer(2) show ?thesis
    by cases (auto intro!: stages_inv_frame [OF assms(1)] stages_inv_abort dest!: apply_opD simp: shutdown_def)
next
  case monitor
  from monitor(2) show ?thesis
    by cases (auto intro!: stages_inv_frame [OF assms(1)] stages_inv_abort dest!: apply_opD simp: shutdown_def)
next
  case services
  from services(2) show ?thesis by cases (auto intro!: stages_inv_frame [OF assms(1)] simp: shutdown_def)
next
  case (scheduler p)
  from scheduler(2) show ?thesis
    by cases (auto intro!: stages_inv_frame [OF assms(1)] stages_inv_abort
      simp: shutdown_def put_sched_def end_sched_def tick_cancelled)
next
  case processor
  from processor(2) show ?thesis by cases (auto intro!: stages_inv_frame [OF assms(1)] simp: put_sched_def shutdown_def)
next
  case executor
  from executor(2) show ?thesis
    by cases (auto intro!: stages_inv_frame [OF assms(1)] stages_inv_abort simp: shutdown_def close_stream_def)
next
  case worker
  from worker(2) show ?thesis by cases (auto intro!: stages_inv_frame [OF assms(1)] simp: set_channel_def shutdown_def)
qed

interpretation stages: invariant_steps "process_step C" stages_inv for C
  by unfold_locales (rule stages_inv_step)

lemma stages_inv_start: "stages_inv (start_process conf st)"
  by (simp add: stages_inv_def start_process_def shutdown_def new_executor_def)

lemma stages_inv_runs: "process_runs C st s \<Longrightarrow> stages_inv s"
  unfolding process_runs_def by (elim conjE, erule stages.inv_run, rule stages_inv_start)

lemma stopped_delivers:
  assumes "process_runs C st s" and "pr_main s = Stopped"
  shows "concat (pr_batches s) = delivered C (pr_executor s) \<and>
    rp_messages (ex_producer (pr_executor s)) = kafka_messages C (pr_executor s) \<and>
    distinct (ex_submitted (pr_executor s)) \<and>
    mset (map fst (ex_resolved (pr_executor s)) @ ex_unreported (pr_executor s) @ pr_lost s)
      = mset (ex_submitted (pr_executor s))"
proof -
  have e: "\<not> pr_worker s" "\<not> pr_executing s"
    using stages_inv_runs [OF assms(1)] assms(2) by (simp_all add: stages_inv_def)
  note inv = results_inv_runs [OF assms(1), unfolded results_inv_def Let_def]
  have none: "ex_queue (pr_executor s) = []" "ex_running (pr_executor s) = []" "pr_chunk s = []"
      "vp_channel (ex_producer (pr_executor s)) = []"
    using inv e by simp_all
  have "mset (map fst (ex_resolved (pr_executor s)) @ ex_unreported (pr_executor s) @ pr_lost s)
      = mset (ex_submitted (pr_executor s))"
    using inv by (simp add: none add.assoc)
  then show ?thesis using inv by (simp add: none)
qed



end
