(* ===== verification/ProcessStop.thy ===== *)
theory ProcessStop
  imports ProcessResults
begin

text \<open>
  The process stops: once asked to, it has a bounded number of steps left, apart from the ticks of schedulers that nobody
  stopped, and until it has stopped, or was aborted by a panic, it can make one of them.
\<close>

section \<open>The provider, the manager and the services\<close>

definition refs_held :: "monitor \<Rightarrow> u16 \<Rightarrow> nat" where
  "refs_held m p = (case m of Holding _ q _ \<Rightarrow> if q = p then 1 else 0 | _ \<Rightarrow> 0)"

lemma refs_held_simps [simp]:
  "refs_held MonitorNew p = 0" "refs_held (Registering ops) p = 0" "refs_held (Working i ps) p = 0" "refs_held MonitorIdle p = 0"
  "refs_held MonitorFinished p = 0" "refs_held (Holding i q ps) p = (if q = p then 1 else 0)"
  by (simp_all add: refs_held_def)

text \<open>
  Every reference to a service is the monitor's, every service that is given up or being stopped has a scheduler, and the
  partitions that are still to be registered have none.
\<close>

definition services_inv :: "('st, 'cl) process \<Rightarrow> bool" where
  "services_inv s \<longleftrightarrow>
     (\<forall>p svc. mg_services (pr_manager s) p = Some svc \<longrightarrow>
        ps_partition svc = p \<and> pr_scheds s p \<noteq> None \<and> ps_refs svc = refs_held (pr_monitor s) p) \<and>
     (\<forall>svc \<in> set (mg_shutdown (pr_manager s)). pr_scheds s (ps_partition svc) \<noteq> None) \<and>
     (\<forall>p \<in> set (pr_stopping s). \<exists>d. pr_scheds s p = Some d \<and> sd_token d) \<and>
     mg_shutdown_open (pr_manager s) = pr_services s \<and>
     (\<not> pr_services s \<longrightarrow> manager_dropped s)"

text \<open>What is left to register.\<close>

fun unregistered :: "monitor \<Rightarrow> (u16 \<Rightarrow> 'a option) \<Rightarrow> bool" where
  "unregistered MonitorNew scheds = (scheds = Map.empty)"
| "unregistered (Registering ops) scheds =
     (\<exists>ps. ops = map Register ps \<and> distinct ps \<and> (\<forall>p \<in> set ps. scheds p = None))"
| "unregistered _ scheds = True"

definition plan_inv :: "('w, 'st, 'cl, 'cn, 'db) process_env \<Rightarrow> ('st, 'cl) process \<Rightarrow> bool" where
  "plan_inv C s \<longleftrightarrow>
     unregistered (pr_monitor s) (pr_scheds s) \<and>
     (\<forall>ops. pr_consumer s = GivingUp ops \<longrightarrow> (\<exists>ps. ops = map Unregister ps))"

definition provider_inv :: "('w, 'st, 'cl, 'cn, 'db) process_env \<Rightarrow> ('st, 'cl) process \<Rightarrow> bool" where
  "provider_inv C s \<longleftrightarrow> services_inv s \<and> plan_inv C s"

lemma provider_inv_start: "provider_inv C (start_process conf st)"
  by (simp add: provider_inv_def services_inv_def plan_inv_def start_process_def new_manager_def)

lemma provider_inv_frame:
  assumes "provider_inv C s" "pr_manager s' = pr_manager s" "pr_stopping s' = pr_stopping s"
    "pr_services s' = pr_services s" "pr_monitor s' = pr_monitor s" "pr_consumer s' = pr_consumer s"
    "\<forall>p. (pr_scheds s' p = None) = (pr_scheds s p = None)"
    "\<forall>p d. pr_scheds s p = Some d \<longrightarrow> sd_token d \<longrightarrow> (\<exists>d'. pr_scheds s' p = Some d' \<and> sd_token d')"
  shows "provider_inv C s'"
proof -
  have "unregistered (pr_monitor s) (pr_scheds s')" if "unregistered (pr_monitor s) (pr_scheds s)"
    using that assms(7) by (cases "pr_monitor s") (auto simp: fun_eq_iff)
  then show ?thesis
    using assms unfolding provider_inv_def services_inv_def plan_inv_def manager_dropped_def by simp blast
qed

lemma provider_inv_put_sched:
  assumes "provider_inv C s" "pr_scheds s p = Some d" "sd_token d' = sd_token d"
  shows "provider_inv C (put_sched p d' s)"
  using assms by (intro provider_inv_frame [OF assms(1)]) (auto simp: put_sched_def)

lemma apply_op_cases:
  assumes "apply_op lib op s = Some s'"
  obtains (unregister) p svc where "op = Unregister p" "mg_services (pr_manager s) p = Some svc" "ps_refs svc = 0"
      "s' = s\<lparr>pr_manager := (pr_manager s)\<lparr>mg_services := (mg_services (pr_manager s))(p := None),
        mg_shutdown := mg_shutdown (pr_manager s) @ [svc]\<rparr>\<rparr>"
    | (register) p svc where "op = Register p" "mg_services (pr_manager s) p = None"
      "start_service lib (mg_config (pr_manager s)) p = Some svc"
      "s' = s\<lparr>pr_manager := (pr_manager s)\<lparr>mg_services := (mg_services (pr_manager s))(p \<mapsto> svc)\<rparr>,
        pr_scheds := (pr_scheds s)(p \<mapsto> new_sched)\<rparr>"
    | (same) "s' = s"
proof -
  obtain m where m: "run_op lib op (pr_manager s) = Some m" "s' = s\<lparr>pr_manager := m, pr_scheds := scheds_after op s\<rparr>"
    using assms by (auto simp: apply_op_def)
  show thesis
  proof (cases op)
    case (Unregister p)
    show ?thesis
    proof (cases "mg_services (pr_manager s) p")
      case None
      with m Unregister show ?thesis by (intro same) (simp add: unregister_partition_def scheds_after_def)
    next
      case (Some svc)
      with m Unregister show ?thesis
        by (intro unregister [OF Unregister Some])
          (auto simp: unregister_partition_def scheds_after_def Let_def split: if_splits)
    qed
  next
    case (Register p)
    show ?thesis
    proof (cases "mg_services (pr_manager s) p")
      case None
      with m(1) Register obtain svc where "start_service lib (mg_config (pr_manager s)) p = Some svc"
          "m = (pr_manager s)\<lparr>mg_services := (mg_services (pr_manager s))(p \<mapsto> svc)\<rparr>"
        by (auto simp: register_partition_def split: option.splits)
      with m(2) Register None show ?thesis by (intro register [OF Register None]) (simp_all add: scheds_after_def)
    next
      case (Some svc)
      with m Register show ?thesis by (intro same) (simp add: register_partition_def scheds_after_def)
    qed
  qed
qed

lemma services_inv_apply:
  assumes "apply_op lib op s = Some s'" "services_inv s" "\<forall>p. op = Register p \<longrightarrow> refs_held (pr_monitor s) p = 0 \<and> pr_scheds s p = None"
  shows "services_inv s'"
  using assms(1)
proof (cases rule: apply_op_cases)
  case (unregister p svc)
  with assms(2) show ?thesis by (auto simp: services_inv_def manager_dropped_def split: if_splits)
next
  case (register p svc)
  with assms(2,3) show ?thesis
    by (auto simp: services_inv_def manager_dropped_def new_sched_def dest!: started_service)
next
  case same
  with assms(2) show ?thesis by simp
qed

lemma services_inv_monitor:
  assumes "services_inv s" "\<forall>p. refs_held m p = refs_held (pr_monitor s) p" "pr_monitor s \<noteq> MonitorFinished"
  shows "services_inv (s\<lparr>pr_monitor := m\<rparr>)"
  using assms by (auto simp: services_inv_def manager_dropped_def)

lemma update_plan_empty:
  "iteration_order ord \<Longrightarrow> update_plan ord {} new = map Register (ord new) \<and> distinct (ord new)"
  "iteration_order ord \<Longrightarrow> update_plan ord known {} = map Unregister (ord known)"
proof -
  assume o: "iteration_order ord"
  then have "ord {} = []" using iteration_orderD [OF o, of "{}"] by simp
  then show "update_plan ord {} new = map Register (ord new) \<and> distinct (ord new)"
    "update_plan ord known {} = map Unregister (ord known)"
    using iteration_orderD [OF o, of new] by (simp_all add: update_plan_def)
qed

lemma provider_inv_abort: "provider_inv C s \<Longrightarrow> provider_inv C (abort s)"
  by (rule provider_inv_frame) (auto simp: abort_def)

lemma provider_inv_consumer:
  assumes "consumer_step C s s'" "provider_inv C s" "iteration_order (pe_ord C)"
  shows "provider_inv C s'"
  using assms(1)
proof cases
  case give_up
  then show ?thesis
    using assms(2) update_plan_empty(2) [OF assms(3)]
    by (auto simp: provider_inv_def plan_inv_def services_inv_def manager_dropped_def)
next
  case monitor_ended
  then show ?thesis using assms(2) by (auto simp: provider_inv_def plan_inv_def services_inv_def manager_dropped_def)
next
  case (op op ops s1)
  from assms(2) op(2) obtain p ps where op': "op = Unregister p" "ops = map Unregister ps"
    by (auto simp: provider_inv_def plan_inv_def)
  have "services_inv s1" using services_inv_apply [OF op(3)] assms(2) by (simp add: provider_inv_def op'(1))
  moreover have "pr_monitor s1 = pr_monitor s \<and> pr_scheds s1 = pr_scheds s \<and> pr_consumer s1 = pr_consumer s"
    using op(3) by (cases rule: apply_op_cases) (simp_all add: op'(1))
  ultimately show ?thesis
    using assms(2) op'(2) op(2)
    by (auto simp: op(1) provider_inv_def plan_inv_def services_inv_def manager_dropped_def)
next
  case op_panics
  then show ?thesis using provider_inv_abort [OF assms(2)] by simp
next
  case gave_up
  then show ?thesis using assms(2) by (auto simp: provider_inv_def plan_inv_def services_inv_def manager_dropped_def)
qed

lemma provider_inv_monitor_frame:
  assumes "provider_inv C s" "\<forall>p. refs_held m p = refs_held (pr_monitor s) p" "pr_monitor s \<noteq> MonitorFinished"
    "unregistered m (pr_scheds s)"
  shows "provider_inv C (s\<lparr>pr_monitor := m\<rparr>)"
  using assms services_inv_monitor [of s m] by (simp add: provider_inv_def plan_inv_def)

lemma provider_inv_take:
  assumes "provider_inv C s" "pr_monitor s = Working i (p # ps)" "get_service p (pr_manager s) = Some (svc, m)"
  shows "provider_inv C (s\<lparr>pr_monitor := Holding i p ps, pr_manager := m\<rparr>)"
proof -
  from assms(3) obtain svc0 where "mg_services (pr_manager s) p = Some svc0"
      "m = (pr_manager s)\<lparr>mg_services := (mg_services (pr_manager s))(p \<mapsto> svc0\<lparr>ps_refs := Suc (ps_refs svc0)\<rparr>)\<rparr>"
    by (auto simp: get_service_def Let_def split: option.splits)
  with assms(1,2) show ?thesis
    by (auto simp: provider_inv_def plan_inv_def services_inv_def manager_dropped_def)
qed

lemma provider_inv_change:
  assumes "provider_inv C s" "pr_monitor s = Holding i p ps"
  shows "provider_inv C (s\<lparr>pr_monitor := Working i ps, pr_manager := drop_service p (set_store p st (pr_manager s))\<rparr>)"
proof (cases "mg_services (pr_manager s) p")
  case None
  with assms show ?thesis
    by (auto simp: drop_service_def set_store_def provider_inv_def plan_inv_def services_inv_def manager_dropped_def)
next
  case (Some svc)
  with assms show ?thesis
    by (auto simp: drop_service_def set_store_def provider_inv_def plan_inv_def services_inv_def manager_dropped_def)
qed

lemma provider_inv_monitor:
  assumes "monitor_step C s s'" "provider_inv C s" "iteration_order (pe_ord C)"
  shows "provider_inv C s'"
  using assms(1)
proof cases
  case begin_load
  have "mg_services (pr_manager s) = Map.empty"
    using assms(2) begin_load by (force simp: provider_inv_def services_inv_def plan_inv_def fun_eq_iff)
  then have plan: "update_plan (pe_ord C) (dom (mg_services (pr_manager s))) (owned C)
      = map Register (pe_ord C (owned C))" "distinct (pe_ord C (owned C))"
    using update_plan_empty(1) [OF assms(3)] by simp_all
  show ?thesis
    unfolding begin_load(1) plan(1)
    by (rule provider_inv_monitor_frame [OF assms(2)])
      (use assms(2) begin_load(2) plan(2) in \<open>auto simp: provider_inv_def plan_inv_def\<close>)
next
  case (register op ops s1)
  from assms(2) register(2) obtain p ps where op: "op = Register p" "ops = map Register ps" "distinct (p # ps)"
      "\<forall>q \<in> set (p # ps). pr_scheds s q = None"
    by (auto simp: provider_inv_def plan_inv_def Cons_eq_map_conv)
  have inv: "services_inv s1"
    using services_inv_apply [OF register(3)] assms(2) register(2) op(1,4) by (simp add: provider_inv_def)
  have s1: "pr_monitor s1 = pr_monitor s \<and> pr_consumer s1 = pr_consumer s \<and> (\<forall>q. q \<noteq> p \<longrightarrow> pr_scheds s1 q = pr_scheds s q)"
    using register(3) by (cases rule: apply_op_cases) (simp_all add: op(1))
  have "services_inv s'" unfolding register(1) by (rule services_inv_monitor [OF inv]) (simp_all add: s1 register(2))
  moreover have "\<forall>q \<in> set ps. pr_scheds s1 q = None" using op(3,4) s1 by auto
  ultimately show ?thesis
    using assms(2) op s1 by (auto simp: register(1) provider_inv_def plan_inv_def)
next
  case registered
  then show ?thesis using provider_inv_monitor_frame [OF assms(2)] by simp
next
  case (take i p ps svc m)
  then show ?thesis using provider_inv_take [OF assms(2)] by simp
next
  case (change i p ps st)
  then show ?thesis using provider_inv_change [OF assms(2)] by simp
qed (simp_all add: provider_inv_abort [OF assms(2)] provider_inv_monitor_frame [OF assms(2)])

lemma provider_inv_services:
  assumes "services_step s s'" "provider_inv C s"
  shows "provider_inv C s'"
  using assms(1)
proof cases
  case (stop svc svcs)
  have "pr_scheds s (ps_partition svc) \<noteq> None"
    using assms(2) stop by (auto simp: provider_inv_def services_inv_def)
  then obtain d where d: "pr_scheds s (ps_partition svc) = Some d" by blast
  have "unregistered (pr_monitor s) (told_to_stop (ps_partition svc) (pr_scheds s))"
    using assms(2) d by (cases "pr_monitor s") (auto simp: provider_inv_def plan_inv_def told_to_stop_def)
  then show ?thesis
    using assms(2) stop(2,3) d
    by (auto simp: stop(1) provider_inv_def services_inv_def plan_inv_def manager_dropped_def told_to_stop_def)
next
  case (joined xs p ys d)
  then show ?thesis
    using assms(2) by (auto simp: provider_inv_def services_inv_def plan_inv_def manager_dropped_def)
next
  case services_end
  then show ?thesis
    using assms(2) by (auto simp: provider_inv_def services_inv_def plan_inv_def manager_dropped_def)
qed

lemma provider_inv_scheduler:
  assumes "scheduler_step C p s s'" "provider_inv C s"
  shows "provider_inv C s'"
  using assms(1)
proof cases
  case tick_panics
  then show ?thesis using provider_inv_abort [OF assms(2)] by simp
qed (rule provider_inv_frame [OF assms(2)]; auto simp: put_sched_def end_sched_def)+

lemma provider_inv_step:
  assumes "process_step C s s'" "provider_inv C s" "iteration_order (pe_ord C)"
  shows "provider_inv C s'"
  using assms(1)
proof cases
  case main
  from main(2) show ?thesis by cases (auto intro!: provider_inv_frame [OF assms(2)])
next
  case endpoint
  from endpoint(2) show ?thesis by cases (auto intro!: provider_inv_frame [OF assms(2)])
next
  case consumer
  then show ?thesis using provider_inv_consumer assms(2,3) by blast
next
  case monitor
  then show ?thesis using provider_inv_monitor assms(2,3) by blast
next
  case services
  then show ?thesis using provider_inv_services assms(2) by blast
next
  case (scheduler p)
  then show ?thesis using provider_inv_scheduler assms(2) by blast
next
  case processor
  from processor(2) show ?thesis by cases (auto intro!: provider_inv_put_sched [OF assms(2)])
next
  case executor
  from executor(2) show ?thesis
    by cases (auto intro!: provider_inv_frame [OF assms(2)] simp: abort_def close_stream_def)
next
  case worker
  from worker(2) show ?thesis by cases (auto intro!: provider_inv_frame [OF assms(2)] simp: set_channel_def)
qed

end
