(* ===== verification/ProcessEnds.thy ===== *)
theory ProcessEnds
  imports ProcessStop
begin

text \<open>
  The end of a stop: the weight of what the process has left to do once it was asked to stop, and the step that is always left.
\<close>

section \<open>Steps that work and steps that are idle\<close>

text \<open>
  Idle are the steps of a scheduler that nobody told to stop, and the receipt of lost checks; everything else works towards
  the end.
\<close>

definition process_idle :: "('w, 'st, 'cl, 'cn, 'db) process_env \<Rightarrow> ('st, 'cl) process \<Rightarrow> ('st, 'cl) process \<Rightarrow> bool" where
  "process_idle C s s' \<longleftrightarrow> alive s \<and>
     ((\<exists>p d. pr_scheds s p = Some d \<and> \<not> sd_token d \<and> scheduler_step C p s s') \<or>
      (\<exists>p d ws. pr_scheds s p = Some d \<and> s' = put_sched p (d\<lparr>sd_waiting := ws\<rparr>) s \<and> processor_step C s s'))"

definition process_work :: "('w, 'st, 'cl, 'cn, 'db) process_env \<Rightarrow> ('st, 'cl) process \<Rightarrow> ('st, 'cl) process \<Rightarrow> bool" where
  "process_work C s s' \<longleftrightarrow> alive s \<and>
     (main_step s s' \<or> endpoint_step C s s' \<or> consumer_step C s s' \<or> monitor_step C s s' \<or> services_step s s' \<or>
      executor_task_step C s s' \<or> worker_step C s s' \<or>
      (\<exists>p d. pr_scheds s p = Some d \<and> sd_token d \<and> scheduler_step C p s s') \<or>
      (\<exists>p d. pr_scheds s p = Some d \<and> sd_processor d \<and> processor_step C s s' \<and>
         s' = put_sched p (d\<lparr>sd_processor := False, sd_waiting := []\<rparr>) s))"

lemma scheduler_step_known: "scheduler_step C p s s' \<Longrightarrow> \<exists>d. pr_scheds s p = Some d"
  by (cases rule: scheduler_step.cases) auto

lemma process_step_iff: "process_step C s s' \<longleftrightarrow> process_work C s s' \<or> process_idle C s s'"
proof
  assume "process_step C s s'"
  then show "process_work C s s' \<or> process_idle C s s'"
  proof cases
    case (scheduler p)
    then obtain d where "pr_scheds s p = Some d" using scheduler_step_known by blast
    with scheduler show ?thesis by (cases "sd_token d") (auto simp: process_work_def process_idle_def)
  next
    case processor
    from processor(2) show ?thesis
    proof cases
      case drop_batch
      with processor show ?thesis unfolding process_idle_def by blast
    next
      case processor_ends
      with processor show ?thesis unfolding process_work_def by blast
    qed
  qed (auto simp: process_work_def)
next
  assume "process_work C s s' \<or> process_idle C s s'"
  then show "process_step C s s'"
    unfolding process_work_def process_idle_def by (auto intro: process_step.intros)
qed

section \<open>The weight of what is left\<close>

definition phase_weight :: "sched \<Rightarrow> nat" where
  "phase_weight d =
     (case sd_phase d of
        Booting \<Rightarrow> 5
      | AtCheck \<Rightarrow> if sd_token d then 2 else 4
      | Ticking \<Rightarrow> if sd_token d then 3 else 4
      | Draining \<Rightarrow> 1
      | SchedEnded \<Rightarrow> 0)"

definition sched_weight :: "sched option \<Rightarrow> nat" where
  "sched_weight x = (case x of None \<Rightarrow> 0 | Some d \<Rightarrow> phase_weight d + (if sd_processor d then 1 else 0))"

definition scheds_weight :: "(u16 \<Rightarrow> sched option) \<Rightarrow> nat" where
  "scheds_weight scheds = (\<Sum>p\<in>UNIV. sched_weight (scheds p))"

fun monitor_weight :: "nat \<Rightarrow> monitor \<Rightarrow> nat" where
  "monitor_weight n MonitorNew = 14 * CARD(u16) + 2 * n + 4"
| "monitor_weight n (Registering ops) = 7 * length ops + 2 * n + 3"
| "monitor_weight n (Working initial ps) = 2 * length ps + 2"
| "monitor_weight n (Holding initial p ps) = 2 * length ps + 3"
| "monitor_weight n MonitorIdle = 1"
| "monitor_weight n MonitorFinished = 0"

fun consumer_weight :: "consumer \<Rightarrow> nat" where
  "consumer_weight Selecting = 14 * CARD(u16) + 2"
| "consumer_weight (GivingUp ops) = 7 * length ops + 1"
| "consumer_weight ConsumerEnded = 0"

definition flag :: "bool \<Rightarrow> nat" where "flag b = (if b then 1 else 0)"

definition executor_weight :: "('st, 'cl) process \<Rightarrow> nat" where
  "executor_weight s =
     4 * length (ex_running (pr_executor s)) + flag (pr_stream s) + flag (pr_executing s) +
     2 * length (vp_channel (ex_producer (pr_executor s))) + length (pr_chunk s) + flag (pr_worker s)"

definition provider_weight :: "nat \<Rightarrow> ('st, 'cl) process \<Rightarrow> nat" where
  "provider_weight n s =
     monitor_weight n (pr_monitor s) + consumer_weight (pr_consumer s) +
     2 * length (mg_shutdown (pr_manager s)) + length (pr_stopping s) + flag (pr_services s)"

definition process_weight :: "nat \<Rightarrow> ('st, 'cl) process \<Rightarrow> nat" where
  "process_weight n s =
     (if alive s then 7 - stage_no (pr_main s) else 0) + flag (pr_endpoint s) + provider_weight n s +
     scheds_weight (pr_scheds s) + executor_weight s"

lemma scheds_weight_upd:
  "scheds_weight (f(p := x)) + sched_weight (f p) = scheds_weight f + sched_weight x"
  by (simp add: scheds_weight_def sum.remove [of UNIV p])

lemma scheds_weight_less:
  "sched_weight x < sched_weight (f p) \<Longrightarrow> scheds_weight (f(p := x)) < scheds_weight f"
  using scheds_weight_upd [of f p x] by linarith

lemma scheds_weight_le:
  "sched_weight x \<le> sched_weight (f p) \<Longrightarrow> scheds_weight (f(p := x)) \<le> scheds_weight f"
  using scheds_weight_upd [of f p x] by linarith

lemma told_to_stop_weight: "scheds_weight (told_to_stop p f) \<le> scheds_weight f"
proof (cases "f p")
  case (Some d)
  then show ?thesis
    by (auto simp: told_to_stop_def sched_weight_def phase_weight_def split: sched_phase.split intro!: scheds_weight_le)
qed (simp add: told_to_stop_def)

lemma apply_op_weight:
  assumes "apply_op lib op s = Some s'"
  shows "scheds_weight (pr_scheds s') + 2 * length (mg_shutdown (pr_manager s'))
    \<le> scheds_weight (pr_scheds s) + 2 * length (mg_shutdown (pr_manager s)) + 6"
  using assms
proof (cases rule: apply_op_cases)
  case (register p svc)
  then show ?thesis
    using scheds_weight_upd [of "pr_scheds s" p "Some new_sched"]
    by (simp add: sched_weight_def phase_weight_def new_sched_def)
qed simp_all

lemma update_plan_length:
  assumes "iteration_order ord"
  shows "length (update_plan ord known new) \<le> 2 * CARD(u16)"
proof -
  have "length (ord A) \<le> CARD(u16)" for A
    using iteration_orderD [OF assms, of A] distinct_card [of "ord A"] card_mono [of UNIV A] by (metis finite subset_UNIV)
  from this [of "known - new"] this [of "new - known"] show ?thesis by (simp add: update_plan_def)
qed

lemma alive_iff_frame: "pr_main s' = pr_main s \<Longrightarrow> alive s' = alive s"
  by (simp add: alive_def)

lemma abort_weight:
  "alive s \<Longrightarrow> process_weight n (abort s) < process_weight n s"
  by (cases "pr_main s")
    (simp_all add: process_weight_def alive_def abort_def provider_weight_def executor_weight_def)

text \<open>Steps that leave the stage as it is and weigh less elsewhere.\<close>

lemma process_weight_less:
  assumes "pr_main s' = pr_main s"
    and "flag (pr_endpoint s') + provider_weight n s' + scheds_weight (pr_scheds s') + executor_weight s'
       < flag (pr_endpoint s) + provider_weight n s + scheds_weight (pr_scheds s) + executor_weight s"
  shows "process_weight n s' < process_weight n s"
  using assms alive_iff_frame [OF assms(1)] by (simp add: process_weight_def)

lemmas weights = provider_weight_def executor_weight_def

lemma main_weight:
  assumes "main_step s s'" "alive s" "shutdown s" "stages_inv s"
  shows "process_weight n s' < process_weight n s"
  using assms(1)
proof cases
  case (wake w)
  with assms(2-4) show ?thesis by (simp add: stages_inv_def)
next
  case await
  with assms(2) show ?thesis
    by (cases "pr_main s") (simp_all add: process_weight_def alive_def weights)
qed

lemma consumer_step_weight:
  assumes "consumer_step C s s'" "alive s" "iteration_order (pe_ord C)"
  shows "process_weight n s' < process_weight n s"
  using assms(1)
proof cases
  case give_up
  then show ?thesis
    using update_plan_length [OF assms(3), of "dom (mg_services (pr_manager s))" "{}"]
    by (intro process_weight_less) (simp_all add: weights)
next
  case (op op ops s1)
  from op(3) obtain m where "s1 = s\<lparr>pr_manager := m, pr_scheds := scheds_after op s\<rparr>" using apply_opD by blast
  with op apply_op_weight [OF op(3)] show ?thesis by (intro process_weight_less) (simp_all add: weights)
next
  case op_panics
  then show ?thesis using abort_weight [OF assms(2)] by simp
qed (intro process_weight_less; simp add: weights)+

lemma monitor_step_weight:
  assumes "monitor_step C s s'" "alive s" "shutdown s" "iteration_order (pe_ord C)"
  shows "process_weight (length (pe_loads C)) s' < process_weight (length (pe_loads C)) s"
  using assms(1)
proof cases
  case begin_load
  then show ?thesis
    using update_plan_length [OF assms(4), of "dom (mg_services (pr_manager s))" "owned C"]
    by (intro process_weight_less) (simp_all add: weights)
next
  case (register op ops s1)
  from register(3) obtain m where "s1 = s\<lparr>pr_manager := m, pr_scheds := scheds_after op s\<rparr>" using apply_opD by blast
  with register apply_op_weight [OF register(3)] show ?thesis by (intro process_weight_less) (simp_all add: weights)
next
  case (take i p ps svc m)
  then show ?thesis
    by (intro process_weight_less) (auto simp: weights get_service_def Let_def split: option.splits)
next
  case (change i p ps st)
  then show ?thesis
    by (intro process_weight_less) (auto simp: weights drop_service_def set_store_def split: option.splits)
next
  case pass
  with assms(3) show ?thesis by simp
next
  case register_panics
  then show ?thesis using abort_weight [OF assms(2)] by simp
next
  case load_panics
  then show ?thesis using abort_weight [OF assms(2)] by simp
next
  case take_panics
  then show ?thesis using abort_weight [OF assms(2)] by simp
qed (intro process_weight_less; simp add: weights)+

lemma services_step_weight:
  assumes "services_step s s'"
  shows "process_weight n s' < process_weight n s"
  using assms
proof cases
  case (stop svc svcs)
  then show ?thesis
    using told_to_stop_weight [of "ps_partition svc" "pr_scheds s"]
    by (intro process_weight_less) (simp_all add: weights)
qed (intro process_weight_less; simp add: weights flag_def)+

lemma endpoint_step_weight:
  assumes "endpoint_step C s s'"
  shows "process_weight n s' < process_weight n s"
  using assms by cases (intro process_weight_less; simp add: weights flag_def)

lemma worker_step_weight:
  assumes "worker_step C s s'"
  shows "process_weight n s' < process_weight n s"
  using assms by cases (intro process_weight_less; simp add: weights flag_def set_channel_def)+

lemma finish_weight:
  assumes "process_check C s x w c = Some (e, st, pst)" "vp_open (ex_producer (pr_executor s))"
  shows "length (vp_channel pst) \<le> Suc (length (vp_channel (ex_producer (pr_executor s))))"
  using do_check_payload [OF assms(1) [unfolded process_check_def] assms(2)]
  by (auto simp: end_payload_def taken_payload_def split: ProducerMode.split check_end.split option.split sum.split)

lemma executor_task_weight:
  assumes "executor_task_step C s s'" "alive s" "shutdown s" "results_inv C s"
  shows "process_weight n s' < process_weight n s"
  using assms(1)
proof cases
  case start
  with assms(3) show ?thesis by (simp add: may_start_def shutdown_def)
next
  case (finish xs c ys x w e st pst)
  have "length (vp_channel pst) \<le> Suc (length (vp_channel (ex_producer (pr_executor s))))"
    using finish_weight [OF finish(4)] assms(4) by (simp add: results_inv_def Let_def)
  with finish show ?thesis
    by (intro process_weight_less; cases e) (simp_all add: weights send_all_def finish_check_def announce_def)
next
  case check_panics
  then show ?thesis using abort_weight [OF assms(2)] by simp
qed (intro process_weight_less; simp add: weights flag_def close_stream_def)+

text \<open>The scheduler of a partition, told to stop or not.\<close>

lemma sched_move_weight:
  assumes "pr_scheds s p = Some d" "pr_main s' = pr_main s" "pr_endpoint s' = pr_endpoint s"
    "provider_weight n s' = provider_weight n s" "executor_weight s' = executor_weight s"
    "pr_scheds s' = (pr_scheds s)(p \<mapsto> d')"
    "sched_weight (Some d') < sched_weight (Some d) \<or> (\<not> sd_token d \<and> sched_weight (Some d') \<le> sched_weight (Some d))"
  shows "process_weight n s' < process_weight n s \<or> (\<not> sd_token d \<and> process_weight n s' \<le> process_weight n s)"
  using assms scheds_weight_upd [of "pr_scheds s" p "Some d'"] alive_iff_frame [of s' s]
  unfolding process_weight_def by auto

lemma tick_executor_weight:
  assumes "schedule_configs v5 region t open cs e = Some (Inr (txs, e'))"
  shows "ex_running (send_all e') = ex_running e \<and> ex_producer (send_all e') = ex_producer e"
  using schedule_configs_effect [OF assms] by (auto simp: send_all_def)

lemmas sched_simps = weights put_sched_def end_sched_def sched_weight_def phase_weight_def

lemma scheduler_phase_weight:
  assumes "scheduler_step C p s s'" "pr_scheds s p = Some d" "alive s"
  shows "process_weight n s' < process_weight n s \<or> (\<not> sd_token d \<and> process_weight n s' \<le> process_weight n s)"
  using assms(1)
proof cases
  case (tick d1 cs t txs e)
  with tick_executor_weight [OF tick(5)] assms(2) show ?thesis
    by (intro sched_move_weight [where d' = "d1\<lparr>sd_phase := AtCheck, sd_waiting := sd_waiting d1 @ txs\<rparr>"])
      (auto simp: sched_simps)
next
  case (tick_unheard d1 cs t txs e)
  with tick_executor_weight [OF tick_unheard(5)] assms(2) show ?thesis
    by (intro sched_move_weight [where d' = "d1\<lparr>sd_phase := SchedEnded\<rparr>"]) (auto simp: sched_simps)
next
  case tick_panics
  then show ?thesis using abort_weight [OF assms(3)] by simp
next
  case (booted d1)
  with assms(2) show ?thesis
    by (intro sched_move_weight [where d' = "d1\<lparr>sd_phase := AtCheck\<rparr>"]) (auto simp: sched_simps)
next
  case (go_on d1)
  with assms(2) show ?thesis
    by (intro sched_move_weight [where d' = "d1\<lparr>sd_phase := Ticking\<rparr>"]) (auto simp: sched_simps)
next
  case (begin_shutdown d1)
  with assms(2) show ?thesis
    by (intro sched_move_weight [where d' = "d1\<lparr>sd_phase := Draining\<rparr>"]) (auto simp: sched_simps)
next
  case (start_fails d1 e)
  with assms(2) show ?thesis
    by (intro sched_move_weight [where d' = "d1\<lparr>sd_phase := SchedEnded\<rparr>"]) (auto simp: sched_simps)
next
  case (tick_fails d1 cs t e)
  with assms(2) show ?thesis
    by (intro sched_move_weight [where d' = "d1\<lparr>sd_phase := SchedEnded\<rparr>"]) (auto simp: sched_simps)
next
  case (drained d1)
  with assms(2) show ?thesis
    by (intro sched_move_weight [where d' = "d1\<lparr>sd_phase := SchedEnded\<rparr>"]) (auto simp: sched_simps)
qed

section \<open>A stop has an end\<close>

definition stop_inv :: "('w, 'st, 'cl, 'cn, 'db) process_env \<Rightarrow> ('st, 'cl) process \<Rightarrow> bool" where
  "stop_inv C s \<longleftrightarrow>
     iteration_order (pe_ord C) \<and> shutdown s \<and> provider_inv C s \<and> results_inv C s \<and> stages_inv s"

lemma shutdown_stays:
  assumes "process_step C s s'" "shutdown s"
  shows "shutdown s'"
  using assms(1)
proof cases
  case main
  from main(2) show ?thesis using assms(2) by cases (simp_all add: shutdown_def cancel_def)
next
  case endpoint
  then show ?thesis using assms(2) by (auto elim!: endpoint_step.cases simp: shutdown_def)
next
  case consumer
  from consumer(2) show ?thesis using assms(2) by cases (auto dest!: apply_opD simp: shutdown_def abort_def)
next
  case monitor
  from monitor(2) show ?thesis using assms(2) by cases (auto dest!: apply_opD simp: shutdown_def abort_def)
next
  case services
  from services(2) show ?thesis using assms(2) by cases (auto simp: shutdown_def)
next
  case (scheduler p)
  from scheduler(2) show ?thesis
    using assms(2) by cases (auto simp: shutdown_def abort_def put_sched_def end_sched_def tick_cancelled)
next
  case processor
  from processor(2) show ?thesis using assms(2) by cases (auto simp: shutdown_def put_sched_def)
next
  case executor
  from executor(2) show ?thesis using assms(2) by cases (auto simp: shutdown_def abort_def close_stream_def)
next
  case worker
  from worker(2) show ?thesis using assms(2) by cases (auto simp: shutdown_def set_channel_def)
qed

lemma stop_inv_step: "stop_inv C s \<Longrightarrow> process_step C s s' \<Longrightarrow> stop_inv C s'"
  unfolding stop_inv_def using shutdown_stays provider_inv_step results_inv_step stages_inv_step by blast

lemma process_work_weight:
  assumes "stop_inv C s" "process_work C s s'"
  shows "process_weight (length (pe_loads C)) s' < process_weight (length (pe_loads C)) s"
proof -
  have al: "alive s" using assms(2) by (simp add: process_work_def)
  have inv: "shutdown s" "stages_inv s" "results_inv C s" "iteration_order (pe_ord C)"
    using assms(1) by (simp_all add: stop_inv_def)
  from assms(2) consider "main_step s s'" | "endpoint_step C s s'" | "consumer_step C s s'" | "monitor_step C s s'"
    | "services_step s s'" | "executor_task_step C s s'" | "worker_step C s s'"
    | p d where "pr_scheds s p = Some d" "sd_token d" "scheduler_step C p s s'"
    | p d where "pr_scheds s p = Some d" "sd_processor d" "s' = put_sched p (d\<lparr>sd_processor := False, sd_waiting := []\<rparr>) s"
    unfolding process_work_def by blast
  then show ?thesis
  proof cases
    case 1
    then show ?thesis using main_weight al inv by blast
  next
    case 2
    then show ?thesis by (rule endpoint_step_weight)
  next
    case 3
    then show ?thesis using consumer_step_weight al inv by blast
  next
    case 4
    then show ?thesis using monitor_step_weight al inv by blast
  next
    case 5
    then show ?thesis by (rule services_step_weight)
  next
    case 6
    then show ?thesis using executor_task_weight al inv by blast
  next
    case 7
    then show ?thesis by (rule worker_step_weight)
  next
    case (8 p d)
    then show ?thesis using scheduler_phase_weight al by blast
  next
    case (9 p d)
    then show ?thesis
      by (intro process_weight_less) (auto simp: sched_simps intro!: scheds_weight_less split: sched_phase.split)
  qed
qed

lemma process_idle_weight:
  assumes "process_idle C s s'"
  shows "process_weight n s' \<le> process_weight n s"
proof -
  have al: "alive s" using assms by (simp add: process_idle_def)
  from assms consider p d where "pr_scheds s p = Some d" "scheduler_step C p s s'"
    | p d ws where "pr_scheds s p = Some d" "s' = put_sched p (d\<lparr>sd_waiting := ws\<rparr>) s"
    unfolding process_idle_def by blast
  then show ?thesis
  proof cases
    case (1 p d)
    then show ?thesis using scheduler_phase_weight [OF 1(2,1) al, of n] by auto
  next
    case (2 p d ws)
    then show ?thesis
      using scheds_weight_upd [of "pr_scheds s" p "Some (d\<lparr>sd_waiting := ws\<rparr>)"] alive_iff_frame [of s' s]
      by (simp add: process_weight_def sched_simps cong: if_cong sched_phase.case_cong)
  qed
qed

interpretation stopping: weighted_steps "process_work C" "process_idle C" "stop_inv C"
    "process_weight (length (pe_loads C))" for C
  by unfold_locales (use stop_inv_step process_step_iff process_work_weight process_idle_weight in blast)+

section \<open>A step is left\<close>

lemma monitor_progress:
  assumes "pr_monitor s \<noteq> MonitorFinished" "shutdown s"
  shows "\<exists>s'. monitor_step C s s'"
proof (cases "pr_monitor s")
  case (Registering ops)
  then show ?thesis
  proof (cases ops)
    case (Cons op ops')
    with Registering show ?thesis
      by (cases "apply_op (pe_lib C) op s") (auto intro: monitor_step.register monitor_step.register_panics)
  qed (use Registering in \<open>auto intro: monitor_step.registered\<close>)
next
  case (Working i ps)
  then show ?thesis
  proof (cases ps)
    case (Cons p ps')
    with Working show ?thesis
      by (cases "get_service p (pr_manager s)") (auto intro: monitor_step.take monitor_step.take_panics)
  qed (use Working in \<open>auto intro: monitor_step.worked\<close>)
qed (use assms in \<open>auto intro: monitor_step.intros\<close>)

lemma consumer_progress:
  assumes "pr_consumer s \<noteq> ConsumerEnded" "shutdown s"
  shows "\<exists>s'. consumer_step C s s'"
proof (cases "pr_consumer s")
  case (GivingUp ops)
  then show ?thesis
  proof (cases ops)
    case (Cons op ops')
    with GivingUp show ?thesis
      by (cases "apply_op (pe_lib C) op s") (auto intro: consumer_step.op consumer_step.op_panics)
  qed (use GivingUp in \<open>auto intro: consumer_step.gave_up\<close>)
qed (use assms in \<open>auto intro: consumer_step.give_up\<close>)

lemma executor_progress_stopping:
  assumes "pr_executing s" "shutdown s"
  shows "\<exists>s'. executor_task_step C s s'"
proof (cases "ex_running (pr_executor s)")
  case Nil
  then show ?thesis
  proof (cases "pr_stream s")
    case True
    have "has_room C s" using Nil by (auto simp: has_room_def Let_def)
    from executor_task_step.close [OF assms(1) True assms(2) this] show ?thesis ..
  next
    case False
    from executor_task_step.executor_ends [OF assms(1) this Nil] show ?thesis ..
  qed
next
  case (Cons c ys)
  then have r: "ex_running (pr_executor s) = [] @ c # ys" by simp
  show ?thesis
  proof (cases "process_check C s undefined undefined c")
    case None
    from executor_task_step.check_panics [OF assms(1) r this] show ?thesis ..
  next
    case (Some y)
    obtain e st pst where "y = (e, st, pst)" by (cases y)
    from executor_task_step.finish [OF assms(1) r Some [unfolded this]] show ?thesis ..
  qed
qed

lemma worker_progress:
  assumes "pr_worker s" "shutdown s" "0 < batch_size C"
  shows "(\<exists>s'. worker_step C s s') \<or> (\<exists>s'. executor_task_step C s s')"
proof (cases "cf_producer_mode (pe_conf C)")
  case ProducerKafka
  from worker_step.dummy_worker [of C, OF this assms(1)] show ?thesis by blast
next
  case ProducerVector
  note mode = this
  show ?thesis
  proof (cases "pr_executing s")
    case False
    show ?thesis
    proof (cases "pr_chunk s")
      case Nil
      show ?thesis
      proof (cases "vp_channel (ex_producer (pr_executor s))")
        case Nil
        with worker_step.worker_ends [of C, OF mode assms(1) False] \<open>pr_chunk s = []\<close> show ?thesis by blast
      next
        case (Cons x q)
        with worker_step.collect [of C, OF mode assms(1) Cons] \<open>pr_chunk s = []\<close> assms(3) show ?thesis by auto
      qed
    next
      case (Cons x xs)
      with worker_step.emit [of C, OF mode assms(1)] show ?thesis by auto
    qed
  qed (use executor_progress_stopping assms in blast)
qed

lemma told_scheduler_progress:
  assumes "pr_scheds s p = Some d" "sd_token d" "sd_phase d \<noteq> SchedEnded" "in_hand (pr_executor s) = []"
  shows "\<exists>s'. scheduler_step C p s s'"
proof (cases "sd_phase d")
  case Ticking
  have f: "fresh_channels (pr_executor s) []" by (simp add: fresh_channels_def)
  have t: "schedule_configs (pe_v5 C) (cf_region (pe_conf C)) undefined (pr_stream s) [] (pr_executor s) = Some (Inr ([], pr_executor s))"
    by simp
  show ?thesis
    using scheduler_step.tick [OF assms(1) Ticking f t] scheduler_step.tick_unheard [OF assms(1) Ticking f t] by blast
next
  case Draining
  have "\<not> sd_processor d \<or> set (sd_waiting d) \<inter> sc_resolve_tx ` set (in_hand (pr_executor s)) = {}"
    by (simp add: assms(4))
  from scheduler_step.drained [OF assms(1) Draining this] show ?thesis ..
qed (use assms in \<open>auto intro: scheduler_step.booted scheduler_step.begin_shutdown\<close>)

lemma services_progress:
  assumes "stop_inv C s" "pr_services s" "pr_consumer s = ConsumerEnded" "in_hand (pr_executor s) = []"
  shows "(\<exists>s'. services_step s s') \<or> (\<exists>s'. monitor_step C s s') \<or>
    (\<exists>p d s'. pr_scheds s p = Some d \<and> sd_token d \<and> scheduler_step C p s s')"
proof (cases "mg_shutdown (pr_manager s)")
  case (Cons svc svcs)
  with services_step.stop [OF assms(2)] show ?thesis by blast
next
  case Nil
  note empty = this
  show ?thesis
  proof (cases "pr_stopping s")
    case (Cons p ys)
    with assms(1) obtain d where d: "pr_scheds s p = Some d" "sd_token d"
      by (auto simp: stop_inv_def provider_inv_def services_inv_def)
    show ?thesis
    proof (cases "sd_phase d = SchedEnded")
      case True
      with Cons d services_step.joined [OF assms(2), of "[]" p ys d] show ?thesis by auto
    qed (use told_scheduler_progress d assms(4) in blast)
  next
    case Nil
    show ?thesis
    proof (cases "pr_monitor s = MonitorFinished")
      case True
      with assms(2,3) empty Nil services_step.services_end [of s] show ?thesis by (auto simp: manager_dropped_def)
    qed (use monitor_progress assms(1) in \<open>auto simp: stop_inv_def\<close>)
  qed
qed

lemma process_workI:
  "alive s \<Longrightarrow> main_step s s' \<Longrightarrow> process_work C s s'"
  "alive s \<Longrightarrow> endpoint_step C s s' \<Longrightarrow> process_work C s s'"
  "alive s \<Longrightarrow> consumer_step C s s' \<Longrightarrow> process_work C s s'"
  "alive s \<Longrightarrow> monitor_step C s s' \<Longrightarrow> process_work C s s'"
  "alive s \<Longrightarrow> services_step s s' \<Longrightarrow> process_work C s s'"
  "alive s \<Longrightarrow> executor_task_step C s s' \<Longrightarrow> process_work C s s'"
  "alive s \<Longrightarrow> worker_step C s s' \<Longrightarrow> process_work C s s'"
  "alive s \<Longrightarrow> pr_scheds s p = Some d \<Longrightarrow> sd_token d \<Longrightarrow> scheduler_step C p s s' \<Longrightarrow> process_work C s s'"
  unfolding process_work_def by blast+

lemma stop_progress:
  assumes "stop_inv C s" "alive s" "0 < batch_size C"
  shows "\<exists>s'. process_work C s s'"
proof (cases "stage_over (pr_main s) s")
  case True
  then show ?thesis using process_workI(1) [OF assms(2) main_step.await] by blast
next
  case False
  have inv: "shutdown s" "results_inv C s" "stages_inv s" using assms(1) by (simp_all add: stop_inv_def)
  show ?thesis
  proof (cases "pr_main s")
    case AwaitEndpoint
    with False process_workI(2) [OF assms(2) endpoint_step.endpoint [of s C]] inv(1) show ?thesis by auto
  next
    case AwaitConsumer
    with False have "pr_consumer s \<noteq> ConsumerEnded" by simp
    from consumer_progress [OF this inv(1)] show ?thesis using process_workI(3) [OF assms(2)] by blast
  next
    case AwaitWorker
    with False have "pr_worker s" by simp
    from worker_progress [OF this inv(1) assms(3)] show ?thesis using process_workI(6,7) [OF assms(2)] by blast
  next
    case AwaitServices
    show ?thesis
    proof (cases "pr_executing s")
      case True
      from executor_progress_stopping [OF this inv(1)] show ?thesis using process_workI(6) [OF assms(2)] by blast
    next
      case not_executing: False
      have "pr_consumer s = ConsumerEnded" using AwaitServices inv(3) by (simp add: stages_inv_def)
      moreover have "in_hand (pr_executor s) = []" using inv(2) not_executing by (simp add: results_inv_def Let_def in_hand_def)
      moreover from False AwaitServices have "pr_services s" by simp
      ultimately show ?thesis
        using services_progress [OF assms(1)] process_workI(4,5,8) [OF assms(2)] by blast
    qed
  next
    case AwaitExecutor
    with False have "pr_executing s" by simp
    from executor_progress_stopping [OF this inv(1)] show ?thesis using process_workI(6) [OF assms(2)] by blast
  qed (use assms(2) inv in \<open>auto simp: alive_def stages_inv_def\<close>)
qed

lemma provider_inv_runs:
  assumes "process_runs C st s" "iteration_order (pe_ord C)"
  shows "provider_inv C s"
  using assms(1)
proof (induction rule: process_runs_induct)
  case start
  show ?case by (rule provider_inv_start)
next
  case (step s s')
  from step.hyps(2) step.IH assms(2) show ?case by (rule provider_inv_step)
qed

lemma stop_inv_runs:
  "process_runs C st s \<Longrightarrow> iteration_order (pe_ord C) \<Longrightarrow> shutdown s \<Longrightarrow> stop_inv C s"
  by (simp add: stop_inv_def provider_inv_runs results_inv_runs stages_inv_runs)



end
