(* ===== verification/ProcessSafe.thy ===== *)
theory ProcessSafe
  imports ProcessEnds
begin

text \<open>
  Panics.  While nobody asks the process to stop, none can happen: not in the provider, which finds the services it
  registered, nor in the executor, whose channel is open and whose checks can be reported.  Once it is asked to stop there are
  two that can.
\<close>

section \<open>What holds until the shutdown\<close>

text \<open>Which of its partitions the provider has registered, and which it still will touch.\<close>

fun monitor_owns :: "u16 set \<Rightarrow> u16 set \<Rightarrow> monitor \<Rightarrow> bool" where
  "monitor_owns own known MonitorNew = (known = {})"
| "monitor_owns own known (Registering ops) =
     (\<exists>ps. ops = map Register ps \<and> distinct ps \<and> set ps \<inter> known = {} \<and> set ps \<union> known = own)"
| "monitor_owns own known (Working initial ps) = (known = own \<and> set ps \<subseteq> own)"
| "monitor_owns own known (Holding initial p ps) = (known = own \<and> set (p # ps) \<subseteq> own)"
| "monitor_owns own known MonitorIdle = (known = own)"
| "monitor_owns own known MonitorFinished = (known = own)"

definition serving_inv :: "('w, 'st, 'cl, 'cn, 'db) process_env \<Rightarrow> ('st, 'cl) process \<Rightarrow> bool" where
  "serving_inv C s \<longleftrightarrow>
     pr_main s = Serving \<and>
     monitor_owns (owned C) (dom (mg_services (pr_manager s))) (pr_monitor s) \<and>
     mg_config (pr_manager s) = pe_conf C \<and>
     (\<forall>ops. pr_consumer s \<noteq> GivingUp ops) \<and>
     (\<forall>p d. pr_scheds s p = Some d \<longrightarrow> sd_processor d) \<and>
     (\<forall>c \<in> set (in_hand (pr_executor s)). receiving s (sc_resolve_tx c))"

definition checks_return :: "('w, 'st, 'cl, 'cn, 'db) process_env \<Rightarrow> bool" where
  "checks_return C \<longleftrightarrow>
     (\<forall>w c region st. pe_check_url C w c region st \<noteq> None \<and> pe_check_robots C w c region st \<noteq> None)"

text \<open>The environment keeps its side: Redis answers, services can be started, checks return.\<close>

definition calm :: "('w, 'st, 'cl, 'cn, 'db) process_env \<Rightarrow> bool" where
  "calm C \<longleftrightarrow>
     \<not> pe_faults C \<and> iteration_order (pe_ord C) \<and> (\<exists>svc. start_service (pe_lib C) (pe_conf C) 0 = Some svc) \<and>
     checks_return C \<and> set (pe_loads C) \<subseteq> owned C"

lemma results_produce_returns: "results_produce conf P r pst \<noteq> None"
  by (simp add: results_produce_def vector_produce_def kafka_produce_result_def split: ProducerMode.split sum.split option.split)

lemma process_check_returns:
  assumes "checks_return C" "pr_stream s" "receiving s (sc_resolve_tx c)"
  shows "process_check C s x w c \<noteq> None"
proof -
  let ?x = "x\<lparr>xi_queue_open := pr_stream s, xi_rx_open := receiving s\<rparr>"
  have "check_outcome (pe_check_url C) (pe_check_robots C) ?x w c (cf_region (pe_conf C)) (ex_checker (pr_executor s)) \<noteq> None"
    using assms(1) by (cases "sc_kind c") (simp_all add: check_outcome_def checks_return_def Let_def del: not_None_eq)
  then obtain out st where out: "check_outcome (pe_check_url C) (pe_check_robots C) ?x w c (cf_region (pe_conf C))
      (ex_checker (pr_executor s)) = Some (out, st)" by auto
  show ?thesis
  proof (cases out)
    case None
    with out assms(3) show ?thesis by (simp add: process_check_def do_check_def record_result_def)
  next
    case (Some r)
    obtain res pst where "results_produce (pe_conf C) (pe_producer C) r (ex_producer (pr_executor s)) = Some (res, pst)"
      using results_produce_returns [of "pe_conf C" "pe_producer C" r "ex_producer (pr_executor s)"] by auto
    with out assms(2,3) Some show ?thesis by (simp add: process_check_def do_check_def record_result_def Let_def)
  qed
qed

lemma serving_inv_start: "serving_inv C (start_process (pe_conf C) st)"
  by (simp add: serving_inv_def start_process_def new_manager_def new_executor_def in_hand_def)

lemma receiving_frame: "pr_scheds s' = pr_scheds s \<Longrightarrow> receiving s' = receiving s"
  by (simp add: receiving_def fun_eq_iff)

text \<open>A step keeps it that leaves the receiving ends, and brings only checks in hand that can be reported.\<close>

definition receivers_stay :: "('st, 'cl) process \<Rightarrow> ('st, 'cl) process \<Rightarrow> bool" where
  "receivers_stay s s' \<longleftrightarrow>
     (\<forall>p d'. pr_scheds s' p = Some d' \<longrightarrow> sd_processor d' \<or> (\<exists>d. pr_scheds s p = Some d \<and> sd_processor d' = sd_processor d)) \<and>
     (\<forall>p d. pr_scheds s p = Some d \<longrightarrow> (\<exists>d'. pr_scheds s' p = Some d' \<and> set (sd_waiting d) \<subseteq> set (sd_waiting d'))) \<and>
     sc_resolve_tx ` set (in_hand (pr_executor s')) \<subseteq> sc_resolve_tx ` set (in_hand (pr_executor s)) \<union> Collect (receiving s')"

lemma receivers_stay_same:
  "pr_scheds s' = pr_scheds s \<Longrightarrow>
   sc_resolve_tx ` set (in_hand (pr_executor s')) \<subseteq> sc_resolve_tx ` set (in_hand (pr_executor s)) \<Longrightarrow> receivers_stay s s'"
  by (auto simp: receivers_stay_def)

lemma serving_inv_move:
  assumes inv: "serving_inv C s" and main: "pr_main s' = pr_main s"
    and owns: "monitor_owns (owned C) (dom (mg_services (pr_manager s'))) (pr_monitor s')"
    and config: "mg_config (pr_manager s') = mg_config (pr_manager s)"
    and consumer: "\<forall>ops. pr_consumer s' \<noteq> GivingUp ops"
    and stay: "receivers_stay s s'"
  shows "serving_inv C s'"
proof -
  have rec: "receiving s' tx" if "receiving s tx" for tx
    using that stay unfolding receiving_def receivers_stay_def by blast
  have "receiving s' (sc_resolve_tx c)" if "c \<in> set (in_hand (pr_executor s'))" for c
  proof -
    have "sc_resolve_tx c \<in> sc_resolve_tx ` set (in_hand (pr_executor s)) \<union> Collect (receiving s')"
      using that stay unfolding receivers_stay_def by blast
    then show ?thesis using inv rec unfolding serving_inv_def by auto
  qed
  moreover have "sd_processor d'" if "pr_scheds s' p = Some d'" for p d'
    using that inv stay unfolding serving_inv_def receivers_stay_def by metis
  ultimately show ?thesis using inv main owns config consumer by (simp add: serving_inv_def)
qed

lemma serving_inv_frame:
  assumes "serving_inv C s" "pr_main s' = pr_main s" "pr_manager s' = pr_manager s" "pr_monitor s' = pr_monitor s"
    "pr_consumer s' = pr_consumer s" "receivers_stay s s'"
  shows "serving_inv C s'"
  using assms by (intro serving_inv_move [OF assms(1)]) (auto simp: serving_inv_def)

lemma serving_inv_monitor:
  assumes "serving_inv C s" "monitor_owns (owned C) (dom (mg_services (pr_manager s))) m"
  shows "serving_inv C (s\<lparr>pr_monitor := m\<rparr>)"
  using assms by (intro serving_inv_move [OF assms(1)]) (auto simp: serving_inv_def intro!: receivers_stay_same)

section \<open>Every step keeps it or is the request to stop\<close>

lemma get_service_dom:
  "get_service p m = Some (svc, m') \<Longrightarrow> dom (mg_services m') = dom (mg_services m) \<and> mg_config m' = mg_config m"
  by (auto simp: get_service_def Let_def split: option.splits if_splits)

lemma change_dom:
  "dom (mg_services (drop_service p (set_store p st m))) = dom (mg_services m) \<and>
   mg_config (drop_service p (set_store p st m)) = mg_config m"
  by (cases "mg_services m p") (auto simp: drop_service_def set_store_def)

lemma serving_inv_manager:
  assumes "serving_inv C s" "dom (mg_services m) = dom (mg_services (pr_manager s)) \<and> mg_config m = mg_config (pr_manager s)"
    "monitor_owns (owned C) (dom (mg_services (pr_manager s))) mon"
  shows "serving_inv C (s\<lparr>pr_monitor := mon, pr_manager := m\<rparr>)"
  using assms by (intro serving_inv_move [OF assms(1)]) (auto simp: serving_inv_def intro!: receivers_stay_same)

lemma register_calm:
  assumes "calm C" "serving_inv C s" "mg_services (pr_manager s) p = None"
  obtains svc where "apply_op (pe_lib C) (Register p) s
    = Some (s\<lparr>pr_manager := (pr_manager s)\<lparr>mg_services := (mg_services (pr_manager s))(p \<mapsto> svc)\<rparr>,
        pr_scheds := (pr_scheds s)(p \<mapsto> new_sched)\<rparr>)"
proof -
  obtain svc where "start_service (pe_lib C) (mg_config (pr_manager s)) p = Some svc"
    using assms(1,2) start_service_any unfolding calm_def serving_inv_def by metis
  with assms(3) that show ?thesis by (simp add: apply_op_def register_partition_def scheds_after_def)
qed

text \<open>A partition that has no service has no scheduler.\<close>

lemma unregistered_no_sched:
  "provider_inv C s \<Longrightarrow> pr_monitor s = Registering (Register p # ops) \<Longrightarrow> pr_scheds s p = None"
  by (auto simp: provider_inv_def plan_inv_def Cons_eq_map_conv)

lemma serving_monitor:
  assumes "monitor_step C s s'" "serving_inv C s" "calm C" "provider_inv C s"
  shows "serving_inv C s'"
proof -
  have owns: "monitor_owns (owned C) (dom (mg_services (pr_manager s))) (pr_monitor s)"
    using assms(2) by (simp add: serving_inv_def)
  show ?thesis
    using assms(1)
  proof cases
    case begin_load
    have known: "dom (mg_services (pr_manager s)) = {}" using assms(2) begin_load by (simp add: serving_inv_def)
    have o: "iteration_order (pe_ord C)" using assms(3) by (simp add: calm_def)
    show ?thesis
      unfolding begin_load(1) known
      by (rule serving_inv_monitor [OF assms(2)])
        (use update_plan_empty(1) [OF o, of "owned C"] iteration_orderD [OF o, of "owned C"] known in auto)
  next
    case (register op ops s1)
    from assms(2) register(2) obtain p ps where op: "op = Register p" "ops = map Register ps" "distinct (p # ps)"
        "set (p # ps) \<inter> dom (mg_services (pr_manager s)) = {}"
        "set (p # ps) \<union> dom (mg_services (pr_manager s)) = owned C"
      by (auto simp: serving_inv_def Cons_eq_map_conv)
    from op(4) have "mg_services (pr_manager s) p = None" by auto
    from register_calm [OF assms(3,2) this] obtain svc where "apply_op (pe_lib C) (Register p) s
        = Some (s\<lparr>pr_manager := (pr_manager s)\<lparr>mg_services := (mg_services (pr_manager s))(p \<mapsto> svc)\<rparr>,
          pr_scheds := (pr_scheds s)(p \<mapsto> new_sched)\<rparr>)"
      by blast
    with register(3) op(1) have s1: "s1 = s\<lparr>pr_manager := (pr_manager s)\<lparr>mg_services := (mg_services (pr_manager s))(p \<mapsto> svc)\<rparr>,
          pr_scheds := (pr_scheds s)(p \<mapsto> new_sched)\<rparr>" by simp
    have none: "pr_scheds s p = None" using unregistered_no_sched [OF assms(4)] register(2) op(1) by simp
    have "receivers_stay s s'"
      unfolding register(1) s1 receivers_stay_def by (auto simp: none new_sched_def)
    then show ?thesis
      using assms(2) op unfolding register(1) s1
      by (intro serving_inv_move [OF assms(2)]) (auto simp: serving_inv_def)
  next
    case (register_panics op ops)
    from assms(2) register_panics(2) obtain p where "op = Register p" "mg_services (pr_manager s) p = None"
      by (force simp: serving_inv_def Cons_eq_map_conv)
    with register_calm [OF assms(3,2)] register_panics(3) show ?thesis by (metis option.distinct(1))
  next
    case (take i p ps svc m)
    then have "monitor_owns (owned C) (dom (mg_services (pr_manager s))) (Holding i p ps)"
      using assms(2) by (simp add: serving_inv_def)
    with get_service_dom [OF take(3)] show ?thesis
      unfolding take(1) by (intro serving_inv_manager [OF assms(2)])
  next
    case (take_panics i p ps)
    then have "mg_services (pr_manager s) p \<noteq> None" using assms(2) by (auto simp: serving_inv_def)
    with take_panics show ?thesis by (auto simp: get_service_def Let_def)
  next
    case (change i p ps st)
    then have "monitor_owns (owned C) (dom (mg_services (pr_manager s))) (Working i ps)"
      using assms(2) by (simp add: serving_inv_def)
    with change_dom show ?thesis
      unfolding change(1) by (intro serving_inv_manager [OF assms(2)])
  next
    case load_panics
    with assms(3) show ?thesis by (simp add: calm_def)
  qed (use owns assms(3) in \<open>auto simp: calm_def intro!: serving_inv_monitor [OF assms(2)]\<close>)
qed

lemma serving_open:
  assumes "results_inv C s" "\<not> shutdown s"
  shows "pr_stream s \<and> pr_executing s \<and> pr_lost s = []"
  using assms by (auto simp: results_inv_def Let_def shutdown_def)

lemma serving_scheduler:
  assumes "scheduler_step C p s s'" "serving_inv C s" "results_inv C s" "\<not> shutdown s"
  shows "serving_inv C s'"
proof -
  have strm: "pr_stream s" using serving_open assms(3,4) by blast
  have proc: "sd_processor d" if "pr_scheds s p = Some d" for d using assms(2) that by (simp add: serving_inv_def)
  show ?thesis
    using assms(1)
  proof cases
    case (tick d cs t txs e)
    obtain added where e: "e = (pr_executor s)\<lparr>ex_submitted := ex_submitted (pr_executor s) @ txs,
         ex_sending := ex_sending (pr_executor s) @ added,
         ex_queue_size := ex_queue_size (pr_executor s) + of_nat (length added)\<rparr>" "map sc_resolve_tx added = txs"
      using schedule_configs_effect [OF tick(5)] by blast
    have new: "receiving s' (sc_resolve_tx c)" if "c \<in> set added" for c
      using that e(2) tick(1) by (auto simp: receiving_def put_sched_def intro!: exI [of _ p])
    have "receivers_stay s s'"
      unfolding receivers_stay_def
    proof (intro conjI)
      show "sc_resolve_tx ` set (in_hand (pr_executor s'))
          \<subseteq> sc_resolve_tx ` set (in_hand (pr_executor s)) \<union> Collect (receiving s')"
        using new by (auto simp: tick(1) in_hand_def send_all_def e(1))
    qed (use tick(1,2) in \<open>auto simp: put_sched_def\<close>)
    then show ?thesis unfolding tick(1) by (rule serving_inv_frame [OF assms(2), rotated -1]) (simp_all add: put_sched_def)
  next
    case tick_unheard
    with proc show ?thesis by simp
  next
    case (tick_panics d t cs)
    with strm schedule_configs_open [of "pe_v5 C" "cf_region (pe_conf C)" t cs "pr_executor s"] show ?thesis by auto
  qed (rule serving_inv_frame [OF assms(2)]; auto simp: put_sched_def end_sched_def receivers_stay_def)+
qed

lemma finish_in_hand:
  assumes "ex_running e = xs @ c # ys" "case en of Requeued c' \<Rightarrow> sc_resolve_tx c' = sc_resolve_tx c | _ \<Rightarrow> True"
  shows "sc_resolve_tx ` set (in_hand (send_all (finish_check en st pst xs c ys e))) \<subseteq> sc_resolve_tx ` set (in_hand e)"
  using assms by (cases en) (auto simp: in_hand_def send_all_def finish_check_def announce_def)

lemma serving_executor:
  assumes "executor_task_step C s s'" "serving_inv C s" "results_inv C s" "\<not> shutdown s" "calm C"
  shows "serving_inv C s'"
  using assms(1)
proof cases
  case (start c q)
  show ?thesis
    by (rule serving_inv_frame [OF assms(2)])
      (use start in \<open>auto simp: in_hand_def start_check_def intro!: receivers_stay_same\<close>)
next
  case (finish xs c ys x w e st pst)
  have "case e of Requeued c' \<Rightarrow> sc_resolve_tx c' = sc_resolve_tx c | _ \<Rightarrow> True"
    using do_check_same_channel [OF finish(4) [unfolded process_check_def]] by (auto split: check_end.splits)
  from finish_in_hand [OF finish(3) this] show ?thesis
    unfolding finish(1) by (intro serving_inv_frame [OF assms(2)] receivers_stay_same) simp_all
next
  case (check_panics xs c ys x w)
  have "receiving s (sc_resolve_tx c)" using assms(2) check_panics(3) by (auto simp: serving_inv_def in_hand_def)
  with check_panics process_check_returns [of C s c x w] assms(5) serving_open [OF assms(3,4)] show ?thesis
    by (simp add: calm_def)
next
  case close
  with assms(4) show ?thesis by simp
next
  case executor_ends
  with serving_open [OF assms(3,4)] show ?thesis by simp
qed

lemma serving_step:
  assumes "process_step C s s'" "serving_inv C s" "results_inv C s" "provider_inv C s" "\<not> shutdown s" "calm C"
  shows "serving_inv C s' \<or> (shutdown s' \<and> pr_main s' = AwaitEndpoint)"
  using assms(1)
proof cases
  case main
  from main(2) show ?thesis
  proof cases
    case wake
    then show ?thesis by (simp add: shutdown_def cancel_def)
  next
    case await
    with assms(2) show ?thesis by (simp add: serving_inv_def)
  qed
next
  case endpoint
  then show ?thesis
    by (auto elim!: endpoint_step.cases intro!: serving_inv_frame [OF assms(2)] receivers_stay_same)
next
  case consumer
  from consumer(2) show ?thesis
  proof cases
    case monitor_ended
    have "serving_inv C s'"
      unfolding monitor_ended(1)
      by (rule serving_inv_move [OF assms(2)]) (use assms(2) in \<open>auto simp: serving_inv_def intro!: receivers_stay_same\<close>)
    then show ?thesis ..
  qed (use assms(2,5) in \<open>simp_all add: serving_inv_def\<close>)
next
  case monitor
  then show ?thesis using serving_monitor assms(2,4,6) by blast
next
  case services
  from services(2) have "receivers_stay s s' \<and> pr_main s' = pr_main s \<and> pr_monitor s' = pr_monitor s \<and>
      pr_consumer s' = pr_consumer s \<and> mg_services (pr_manager s') = mg_services (pr_manager s) \<and>
      mg_config (pr_manager s') = mg_config (pr_manager s)"
    by cases (auto simp: receivers_stay_def told_to_stop_def split: option.split)
  then have "serving_inv C s'"
    using assms(2) by (intro serving_inv_move [OF assms(2)]) (simp_all add: serving_inv_def)
  then show ?thesis ..
next
  case (scheduler p)
  then show ?thesis using serving_scheduler assms(2,3,5) by blast
next
  case processor
  from processor(2) show ?thesis
    using serving_open [OF assms(3,5)] assms(6) by cases (simp_all add: calm_def)
next
  case executor
  then show ?thesis using serving_executor assms(2,3,5,6) by blast
next
  case worker
  from worker(2) have "serving_inv C s'"
    by cases (auto intro!: serving_inv_frame [OF assms(2)] receivers_stay_same simp: set_channel_def in_hand_def)
  then show ?thesis ..
qed

lemma serving_inv_runs:
  assumes "process_runs C st s" "calm C"
  shows "serving_inv C s \<or> shutdown s"
  using assms(1)
proof (induction rule: process_runs_induct)
  case start
  show ?case by (rule disjI1) (rule serving_inv_start)
next
  case (step s s')
  note run = step.hyps(1)
  have o: "iteration_order (pe_ord C)" using assms(2) by (simp add: calm_def)
  show ?case
  proof (cases "shutdown s")
    case True
    then show ?thesis using shutdown_stays step.hyps(2) by blast
  next
    case False
    with step.IH have "serving_inv C s" by simp
    then show ?thesis
      using serving_step [OF step.hyps(2) _ results_inv_runs [OF run] provider_inv_runs [OF run o] False assms(2)] by blast
  qed
qed

lemma one_calm: "calm (one_env status)"
  unfolding calm_def checks_return_def
  using one_start one_provider(2) sorted_iteration_order by (simp add: one_env_def)



end
