(* ===== verification/ProcessPanics.thy ===== *)
theory ProcessPanics
  imports ProcessSafe
begin

text \<open>
  The panics of a shutdown: the three steps at which a process that is asked to stop can abort, and runs that come to them.  An
  abort takes with it the results that have not been sent to Vector yet.
\<close>

section \<open>Giving up a partition\<close>

lemma give_up_panics_iff:
  assumes "provider_inv C s" "pr_consumer s = GivingUp (Unregister p # ops)"
  shows "apply_op lib (Unregister p) s = None \<longleftrightarrow>
    (\<exists>i ps. pr_monitor s = Holding i p ps \<and> mg_services (pr_manager s) p \<noteq> None)"
proof (cases "mg_services (pr_manager s) p")
  case None
  then show ?thesis by (simp add: apply_op_def unregister_partition_def)
next
  case (Some svc)
  have "pr_services s" using assms by (auto simp: provider_inv_def services_inv_def manager_dropped_def)
  then have "mg_shutdown_open (pr_manager s)" "ps_refs svc = refs_held (pr_monitor s) p"
    using assms(1) Some by (auto simp: provider_inv_def services_inv_def)
  with Some show ?thesis
    by (cases "pr_monitor s") (auto simp: apply_op_def unregister_partition_def)
qed

section \<open>The only panics\<close>

lemma schedule_configs_returns: "schedule_configs v5 region t listening cs e \<noteq> None"
proof (induction cs arbitrary: e)
  case (Cons x cs)
  obtain config tx where x: "x = (config, tx)" by (cases x)
  show ?case
    using Cons.IH [of "queue_check t config Uptime tx e"] Cons.IH [of e]
    by (cases "runs_here v5 t region config") (auto simp: x should_run_cases split: sum.split)
qed simp

lemma manager_config_step:
  assumes "process_step C s s'"
  shows "mg_config (pr_manager s') = mg_config (pr_manager s)"
  using assms
proof cases
  case main
  from main(2) show ?thesis by cases simp_all
next
  case endpoint
  then show ?thesis by (auto elim!: endpoint_step.cases)
next
  case consumer
  from consumer(2) show ?thesis
  proof cases
    case (op op ops s1)
    from op(3) show ?thesis by (cases rule: apply_op_cases) (simp_all add: op(1))
  qed (simp_all add: abort_def)
next
  case monitor
  from monitor(2) show ?thesis
  proof cases
    case (register op ops s1)
    from register(3) show ?thesis by (cases rule: apply_op_cases) (simp_all add: register(1))
  next
    case take
    then show ?thesis using get_service_dom by fastforce
  next
    case change
    then show ?thesis by (simp add: conjunct2 [OF change_dom])
  qed (simp_all add: abort_def)
next
  case services
  from services(2) show ?thesis by cases simp_all
next
  case (scheduler p)
  from scheduler(2) show ?thesis by cases (simp_all add: put_sched_def end_sched_def abort_def)
next
  case processor
  from processor(2) show ?thesis by cases (simp_all add: put_sched_def)
next
  case executor
  from executor(2) show ?thesis by cases (simp_all add: abort_def close_stream_def)
next
  case worker
  from worker(2) show ?thesis by cases (simp_all add: set_channel_def)
qed

lemma manager_config_runs:
  assumes "process_runs C st s"
  shows "mg_config (pr_manager s) = pe_conf C"
  using assms
  by (induction rule: process_runs_induct) (auto simp: start_process_def new_manager_def dest: manager_config_step)

lemma register_returns:
  assumes "calm C" "mg_config (pr_manager s) = pe_conf C"
  shows "apply_op (pe_lib C) (Register p) s \<noteq> None"
proof -
  obtain svc where "start_service (pe_lib C) (mg_config (pr_manager s)) p = Some svc"
    using assms start_service_any unfolding calm_def by metis
  then show ?thesis by (auto simp: apply_op_def register_partition_def split: option.split)
qed

definition panic_cause :: "('w, 'st, 'cl, 'cn, 'db) process_env \<Rightarrow> ('st, 'cl) process \<Rightarrow> bool" where
  "panic_cause C s \<longleftrightarrow>
     (\<exists>p ops i ps. pr_consumer s = GivingUp (Unregister p # ops) \<and> pr_monitor s = Holding i p ps) \<or>
     (\<exists>i p ps. pr_monitor s = Working i (p # ps) \<and> mg_services (pr_manager s) p = None) \<or>
     (\<exists>c \<in> set (ex_running (pr_executor s)). \<not> pr_stream s \<or> \<not> receiving s (sc_resolve_tx c))"

lemma consumer_panic:
  assumes "consumer_step C s s'" "pr_main s' = Aborted" "alive s" "provider_inv C s"
  shows "panic_cause C s"
  using assms(1)
proof cases
  case (op op ops s1)
  from op(3) have "pr_main s1 = pr_main s" by (cases rule: apply_op_cases) simp_all
  with op assms(2,3) show ?thesis by (simp add: alive_def)
next
  case (op_panics op ops)
  then obtain p where op: "op = Unregister p" using assms(4) by (auto simp: provider_inv_def plan_inv_def)
  with op_panics give_up_panics_iff [OF assms(4), of p ops "pe_lib C"] show ?thesis
    unfolding panic_cause_def by auto
qed (use assms(2,3) in \<open>simp_all add: alive_def\<close>)

lemma monitor_panic:
  assumes "monitor_step C s s'" "pr_main s' = Aborted" "alive s" "provider_inv C s" "calm C"
    "mg_config (pr_manager s) = pe_conf C"
  shows "panic_cause C s"
  using assms(1)
proof cases
  case (register op ops s1)
  from register(3) have "pr_main s1 = pr_main s" by (cases rule: apply_op_cases) simp_all
  with register assms(2,3) show ?thesis by (simp add: alive_def)
next
  case (register_panics op ops)
  then obtain p where "op = Register p" using assms(4) by (auto simp: provider_inv_def plan_inv_def Cons_eq_map_conv)
  with register_panics register_returns [OF assms(5,6)] show ?thesis by simp
next
  case load_panics
  with assms(5) show ?thesis by (simp add: calm_def)
next
  case (take_panics i p ps)
  then have "mg_services (pr_manager s) p = None" by (auto simp: get_service_def Let_def split: option.splits)
  with take_panics show ?thesis unfolding panic_cause_def by blast
qed (use assms(2,3) in \<open>simp_all add: alive_def\<close>)

lemma executor_panic:
  assumes "executor_task_step C s s'" "pr_main s' = Aborted" "alive s" "calm C"
  shows "panic_cause C s"
  using assms(1)
proof cases
  case (check_panics xs c ys x w)
  then have "\<not> pr_stream s \<or> \<not> receiving s (sc_resolve_tx c)"
    using process_check_returns [of C s c x w] assms(4) by (auto simp: calm_def)
  with check_panics show ?thesis unfolding panic_cause_def by auto
qed (use assms(2,3) in \<open>simp_all add: alive_def close_stream_def\<close>)


section \<open>Runs that come to a panic\<close>

text \<open>
  A check that ends as a failure with retries left, after the channel was dropped, aborts the process.
\<close>

lemma failing_check_panics:
  assumes "check_outcome (pe_check_url C) (pe_check_robots C) x w c (cf_region (pe_conf C)) (ex_checker (pr_executor s)) = Some (Some r, st)"
    and "cr_status r = Failure" "sc_retry_count c < cf_failure_retries (pe_conf C)" "\<not> pr_stream s"
  shows "process_check C s x w c = None"
proof -
  have "check_outcome (pe_check_url C) (pe_check_robots C) (x\<lparr>xi_queue_open := pr_stream s, xi_rx_open := receiving s\<rparr>) w c
      (cf_region (pe_conf C)) (ex_checker (pr_executor s))
    = check_outcome (pe_check_url C) (pe_check_robots C) x w c (cf_region (pe_conf C)) (ex_checker (pr_executor s))"
    by (simp add: check_outcome_def)
  with assms show ?thesis by (simp add: process_check_def do_check_def Let_def)
qed

lemma retry_panic_runs:
  "process_runs (one_env Failure) () (close_stream one_stopping)"
  "process_step (one_env Failure) (close_stream one_stopping) (abort (close_stream one_stopping))"
  "process_runs (one_env Failure) () (abort (close_stream one_stopping))"
proof -
  let ?c = "close_stream one_stopping"
  have "has_room (one_env Failure) one_stopping" by (simp add: has_room_def one_fields)
  then have "executor_task_step (one_env Failure) one_stopping ?c"
    by (intro executor_task_step.close) (simp_all add: one_fields)
  then have run: "process_runs (one_env Failure) () ?c"
    using one_stopping_runs by (intro runs_executor [OF one_stopping_runs(1)])
  then show "process_runs (one_env Failure) () ?c" .
  have al: "alive ?c" using one_stopping_runs(2) by (simp add: alive_def close_stream_def)
  let ?x = "\<lparr>xi_now = 0, xi_missed_guid = 0, xi_rx_open = (\<lambda>_. True), xi_queue_open = True\<rparr> :: exec_input"
  have "check_outcome (pe_check_url (one_env Failure)) (pe_check_robots (one_env Failure)) ?x () one_check (cf_region (pe_conf (one_env Failure))) ()
      = Some (Some (one_result Failure one_check (cf_region one_conf)), ())"
    by (simp add: check_outcome_def one_env_def one_check_def new_scheduled_check_def from_time_def seconds_def Let_def)
  then have "process_check (one_env Failure) ?c ?x () one_check = None"
    using failing_check_panics [of "one_env Failure" ?x "()" one_check ?c "one_result Failure one_check (cf_region one_conf)" "()"]
    by (simp add: close_stream_def one_result_def one_check_def new_scheduled_check_def)
  moreover have "pr_executing ?c" "ex_running (pr_executor ?c) = [] @ one_check # []"
    by (simp_all add: close_stream_def one_fields)
  ultimately have "executor_task_step (one_env Failure) ?c (abort ?c)" by (intro executor_task_step.check_panics)
  with al show "process_step (one_env Failure) ?c (abort ?c)" by (intro process_step.executor)
  with run show "process_runs (one_env Failure) () (abort ?c)" by (rule process_runs_step)
qed

text \<open>
  Asked to stop while the update task holds the service, the provider gives up the partition of the service.
\<close>

lemma held_service_panic_runs:
  "\<exists>s. process_runs (one_env Failure) () s \<and> pr_main s = Aborted \<and> pr_monitor s = Holding True 0 [] \<and>
     pr_consumer s = GivingUp [Unregister 0]"
proof -
  let ?m0 = "pr_manager one_stopping"
  have svc: "mg_services ?m0 = [0 \<mapsto> one_service]" "pr_monitor one_stopping = Working True [0]"
      "pr_consumer one_stopping = Selecting"
    by (simp_all add: one_stopping_def one_running_def start_process_def)
  obtain held m where held: "get_service 0 ?m0 = Some (held, m)" "mg_services m 0 = Some held" "ps_refs held = 1"
      "dom (mg_services m) = {0}"
    by (simp add: get_service_def svc(1) Let_def one_service_def)
  let ?h = "one_stopping\<lparr>pr_monitor := Holding True 0 [], pr_manager := m\<rparr>"
  have "monitor_step (one_env Failure) one_stopping ?h" by (rule monitor_step.take [OF svc(2) held(1)])
  then have h: "process_runs (one_env Failure) () ?h"
    using one_stopping_runs by (intro runs_monitor [OF one_stopping_runs(1)])
  let ?g = "?h\<lparr>pr_consumer := GivingUp [Unregister 0]\<rparr>"
  have "consumer_step (one_env Failure) ?h ?g"
    using consumer_step.give_up [of ?h "one_env Failure"] one_fields(7)
    by (simp add: svc(3) shutdown_def update_plan_def held(4))
  moreover have "alive ?h" "alive ?g" using one_stopping_runs(2) by (simp_all add: alive_def)
  ultimately have g: "process_runs (one_env Failure) () ?g" by (intro runs_consumer [OF h])
  have "apply_op plain_redis (Unregister 0) ?g = None"
    by (simp add: apply_op_def unregister_partition_def held(2,3))
  then have "consumer_step (one_env Failure) ?g (abort ?g)"
    using consumer_step.op_panics [of ?g "Unregister 0" "[]" "one_env Failure"] by simp
  then have "process_runs (one_env Failure) () (abort ?g)"
    using \<open>alive ?g\<close> by (intro runs_consumer [OF g])
  then show ?thesis by (intro exI [of _ "abort ?g"]) (simp add: abort_def)
qed


text \<open>
  C23: A shutdown can abort.  Although Redis answers, services can be started and checks return, there are runs of a checker with retries
  that is asked to stop and then aborts: one because a check that fails has retries left when the executor no longer listens (its result is
  reported to nobody), one because the update task holds a service at the moment its partition is given up.
\<close>

theorem a_shutdown_can_abort:
  "\<exists>s s'. calm (one_env Failure) \<and> process_runs (one_env Failure) () s \<and> pr_main s = Aborted \<and>
     (\<exists>c \<in> set (ex_running (pr_executor s)). sc_retry_count c < cf_failure_retries (pe_conf (one_env Failure))) \<and>
     ex_resolved (pr_executor s) = [] \<and>
     process_runs (one_env Failure) () s' \<and> pr_main s' = Aborted \<and> pr_monitor s' = Holding True 0 [] \<and>
     pr_consumer s' = GivingUp [Unregister 0]"
proof -
  let ?s = "abort (close_stream one_stopping)"
  have "ex_running (pr_executor ?s) = [one_check]" "pr_main ?s = Aborted" "sc_retry_count one_check = 0"
    by (simp_all add: abort_def close_stream_def one_fields one_check_def new_scheduled_check_def)
  moreover have "ex_resolved (pr_executor ?s) = []"
    by (simp add: abort_def close_stream_def one_stopping_def one_running_def start_check_def cancel_def
        one_executor_def send_all_def queue_check_def announce_def new_executor_def)
  moreover obtain s' where "process_runs (one_env Failure) () s'" "pr_main s' = Aborted" "pr_monitor s' = Holding True 0 []"
      "pr_consumer s' = GivingUp [Unregister 0]"
    using held_service_panic_runs by blast
  ultimately show ?thesis
    using one_calm retry_panic_runs(3) by (intro exI [of _ ?s] exI [of _ s']) simp
qed

end
