(* ===== verification/Startup.thy ===== *)
theory Startup
  imports ProcessPanics
begin

text \<open>
  From \<open>main\<close> to the running process, and from its end to the exit code (\<open>src/src/main.rs\<close>, \<open>app.rs\<close>, \<open>logging.rs\<close>, \<open>metrics.rs\<close>).
  The libraries that are set up on the way are a parameter; whatever fails with a panic is \<open>None\<close>.
\<close>

section \<open>Logging and metrics\<close>

record 'dsn sentry_options =
  so_dsn :: 'dsn
  so_release :: string
  so_environment :: "string option"
  so_attach_stacktrace :: bool

record statsd_builder =
  sb_host :: string
  sb_port :: u16
  sb_queue_size :: nat
  sb_buffer_size :: nat
  sb_default_tags :: "(string \<times> string) list"

record ('dsn, 'rec) startup_lib =
  su_install_crypto :: bool
  su_parse_dsn :: "string \<Rightarrow> 'dsn option"
  su_version :: string
  su_user_attended :: bool
  su_addr_ip :: "string \<Rightarrow> string"
  su_addr_port :: "string \<Rightarrow> u16"
  su_hostname :: "string option"
  su_build_recorder :: "statsd_builder \<Rightarrow> string \<Rightarrow> 'rec option"
  su_set_recorder :: "'rec \<Rightarrow> bool"
  su_available_parallelism :: "usize option"
  su_build_runtime :: "usize \<Rightarrow> bool"
  su_build_client :: "client_config \<Rightarrow> bool"
  su_build_producer :: "producer_setup \<Rightarrow> bool"
  su_sigterm :: bool \<comment> \<open>whether a handler for the signal can be installed\<close>

record 'dsn logging_setup =
  ls_sentry :: "'dsn sentry_options option"
  ls_layer :: log_layer
  ls_filter :: LevelFilter

definition init_logging :: "('dsn, 'rec) startup_lib \<Rightarrow> LoggingConfig \<Rightarrow> 'dsn logging_setup option" where
  "init_logging lib config =
     (let setup = (\<lambda>sentry. \<lparr>ls_sentry = sentry, ls_layer = log_layer_of (lg_log_format config) (su_user_attended lib),
                            ls_filter = level_filter (lg_log_level config)\<rparr>)
      in case lg_sentry_dsn config of
           None \<Rightarrow> Some (setup None)
         | Some dsn \<Rightarrow>
             map_option (\<lambda>dsn. setup (Some \<lparr>so_dsn = dsn, so_release = su_version lib,
                so_environment = lg_sentry_env config, so_attach_stacktrace = True\<rparr>)) (su_parse_dsn lib dsn))"

definition with_default_tag :: "string \<Rightarrow> string \<Rightarrow> statsd_builder \<Rightarrow> statsd_builder" where
  "with_default_tag key v b = b\<lparr>sb_default_tags := sb_default_tags b @ [(key, v)]\<rparr>"

definition statsd_builder_of :: "('dsn, 'rec) startup_lib \<Rightarrow> MetricsConfig \<Rightarrow> statsd_builder" where
  "statsd_builder_of lib config =
     (let builder = \<lparr>sb_host = su_addr_ip lib (mc_statsd_addr config), sb_port = su_addr_port lib (mc_statsd_addr config),
                     sb_queue_size = 5000, sb_buffer_size = 1024, sb_default_tags = []\<rparr>;
          builder = fold (\<lambda>(key, v). with_default_tag key v) (mc_default_tags config) builder
      in case mc_hostname_tag config of
           None \<Rightarrow> builder
         | Some hostname_tag \<Rightarrow>
             (case su_hostname lib of None \<Rightarrow> builder | Some hostname \<Rightarrow> with_default_tag hostname_tag hostname builder))"

definition init_metrics :: "('dsn, 'rec) startup_lib \<Rightarrow> MetricsConfig \<Rightarrow> 'rec option" where
  "init_metrics lib config =
     (case su_build_recorder lib (statsd_builder_of lib config) ''uptime_checker'' of
        None \<Rightarrow> None
      | Some recorder \<Rightarrow> if su_set_recorder lib recorder then Some recorder else None)"

section \<open>From the command line to the tasks\<close>

text \<open>The product of the two numbers wraps around in the release build; a runtime without threads is a panic.\<close>

definition worker_threads :: "('dsn, 'rec) startup_lib \<Rightarrow> Config \<Rightarrow> usize" where
  "worker_threads lib config =
     (case su_available_parallelism lib of None \<Rightarrow> 1 | Some n \<Rightarrow> n) * cf_thread_cpu_scale_factor config"

definition build_runtime :: "('dsn, 'rec) startup_lib \<Rightarrow> Config \<Rightarrow> unit option" where
  "build_runtime lib config =
     (let n = worker_threads lib config in if n = 0 \<or> \<not> su_build_runtime lib n then None else Some ())"

definition client_builds :: "('dsn, 'rec) startup_lib \<Rightarrow> Config \<Rightarrow> bool" where
  "client_builds lib config =
     (case checker_of_config config () of HReqwest c \<Rightarrow> su_build_client lib (rc_client c) | HDummy _ \<Rightarrow> True)"

definition start_manager ::
  "('dsn, 'rec) startup_lib \<Rightarrow> ('cl, 'cn, 'db) redis_lib \<Rightarrow> 'st \<Rightarrow> Config \<Rightarrow> ('st, 'cl) process option" where
  "start_manager lib redis st config =
     (if \<not> client_builds lib config \<or> \<not> su_build_producer lib (producer_of_config config) \<or>
         provider_of_config redis config = None then None
      else Some (start_process config st))"

definition execute ::
  "('dsn, 'rec) startup_lib \<Rightarrow> 'f config_lib \<Rightarrow> ('cl, 'cn, 'db) redis_lib \<Rightarrow> 'st \<Rightarrow> CliApp
     \<Rightarrow> (string + ('st, 'cl) process) option" where
  "execute lib fig redis st app =
     (case extract_config fig app of
        Inl _ \<Rightarrow> None
      | Inr config \<Rightarrow>
          (case init_logging lib (logging_from_config config) of
             None \<Rightarrow> None
           | Some _ \<Rightarrow>
               (case init_metrics lib (cf_metrics config) of
                  None \<Rightarrow> None
                | Some _ \<Rightarrow>
                    (case build_runtime lib config of
                       None \<Rightarrow> None
                     | Some _ \<Rightarrow>
                         (case start_manager lib redis st config of
                            None \<Rightarrow> None
                          | Some s \<Rightarrow> Some (if su_sigterm lib then Inr s else Inl ''signal''))))))"

section \<open>The exit code\<close>

text \<open>
  With the process in between: \<open>C\<close> is its environment.  An error of \<open>execute\<close> is the exit code one; a panic aborts, so that there is none.
\<close>

inductive main_exits ::
  "('dsn, 'rec) startup_lib \<Rightarrow> 'f config_lib \<Rightarrow> ('w, 'st, 'cl, 'cn, 'db) process_env \<Rightarrow> 'st \<Rightarrow> CliApp \<Rightarrow> nat \<Rightarrow> bool"
  for lib fig C st app where
  fails: "su_install_crypto lib \<Longrightarrow> execute lib fig (pe_lib C) st app = Some (Inl err) \<Longrightarrow> main_exits lib fig C st app 1"
| ends: "su_install_crypto lib \<Longrightarrow> extract_config fig app = Inr (pe_conf C) \<Longrightarrow>
    execute lib fig (pe_lib C) st app = Some (Inr s0) \<Longrightarrow> (process_step C)\<^sup>*\<^sup>* s0 s \<Longrightarrow> pr_main s = Stopped \<Longrightarrow>
    main_exits lib fig C st app 0"

lemma main_exits_zero:
  assumes "main_exits lib fig C st app 0"
  obtains s0 s where "extract_config fig app = Inr (pe_conf C)" "execute lib fig (pe_lib C) st app = Some (Inr s0)"
    "(process_step C)\<^sup>*\<^sup>* s0 s" "pr_main s = Stopped"
  using assms
proof cases
  case (ends s0 s)
  show thesis by (rule that) (fact ends)+
qed simp_all

section \<open>What a start needs\<close>

definition sentry_ok :: "('dsn, 'rec) startup_lib \<Rightarrow> Config \<Rightarrow> bool" where
  "sentry_ok lib config \<longleftrightarrow> (\<forall>dsn. cf_sentry_dsn config = Some dsn \<longrightarrow> su_parse_dsn lib dsn \<noteq> None)"

definition recorder_ok :: "('dsn, 'rec) startup_lib \<Rightarrow> Config \<Rightarrow> bool" where
  "recorder_ok lib config \<longleftrightarrow>
     (\<exists>r. su_build_recorder lib (statsd_builder_of lib (cf_metrics config)) ''uptime_checker'' = Some r \<and> su_set_recorder lib r)"

lemma init_logging_iff: "init_logging lib (logging_from_config config) \<noteq> None \<longleftrightarrow> sentry_ok lib config"
  by (cases "cf_sentry_dsn config") (auto simp: init_logging_def logging_from_config_def sentry_ok_def Let_def)

lemma init_metrics_iff: "init_metrics lib (cf_metrics config) \<noteq> None \<longleftrightarrow> recorder_ok lib config"
  by (auto simp: init_metrics_def recorder_ok_def split: option.split)

lemma build_runtime_iff:
  "build_runtime lib config \<noteq> None \<longleftrightarrow> worker_threads lib config \<noteq> 0 \<and> su_build_runtime lib (worker_threads lib config)"
  by (simp add: build_runtime_def Let_def)

lemma provider_iff:
  "provider_of_config redis config \<noteq> None \<longleftrightarrow>
     cf_checker_number config < cf_total_checkers config \<and>
     (\<exists>cl. build_redis_client redis (cf_redis_host config) (cf_redis_enable_cluster config) (cf_redis_timeouts_ms config)
        (cf_redis_readonly config) = Inr cl)"
  by (auto simp: provider_of_config_def determine_owned_partitions_def new_config_provider_def not_le
      split: option.splits sum.splits if_splits)

lemma start_manager_iff:
  "start_manager lib redis st config \<noteq> None \<longleftrightarrow>
     client_builds lib config \<and> su_build_producer lib (producer_of_config config) \<and> provider_of_config redis config \<noteq> None"
  by (auto simp: start_manager_def)

lemma execute_started:
  "execute lib fig redis st app = Some (Inr s) \<Longrightarrow> extract_config fig app = Inr config \<Longrightarrow>
     provider_of_config redis config \<noteq> None \<and> s = start_process config st"
  by (auto simp: execute_def start_manager_def split: option.splits if_splits)

text \<open>No threads per core, and also numbers whose product wraps around to zero, end the start with a panic.\<close>

lemma no_threads_panics:
  assumes "cf_thread_cpu_scale_factor config = 0"
  shows "build_runtime lib config = None"
  by (simp add: build_runtime_def worker_threads_def assms)


text \<open>
  The exit code zero means that the work was done: the process was started with a provider, was stopped in order, and every result that was reported and is valid
  had been handed to the configured producer's target, Vector or Kafka, once and in order.
\<close>

theorem exit_zero_delivers:
  assumes "main_exits lib fig C st app 0"
  shows "\<exists>s. process_runs C st s \<and> pr_main s = Stopped \<and>
    concat (pr_batches s) = delivered C (pr_executor s) \<and>
    rp_messages (ex_producer (pr_executor s)) = kafka_messages C (pr_executor s)"
proof -
  obtain s0 s where r: "extract_config fig app = Inr (pe_conf C)" "execute lib fig (pe_lib C) st app = Some (Inr s0)"
      "(process_step C)\<^sup>*\<^sup>* s0 s" "pr_main s = Stopped"
    by (rule main_exits_zero [OF assms])
  have "provider_of_config (pe_lib C) (pe_conf C) \<noteq> None" "s0 = start_process (pe_conf C) st"
    using execute_started [OF r(2,1)] by blast+
  with r(3) have runs: "process_runs C st s" by (simp add: process_runs_def)
  from stopped_delivers [OF runs r(4)]
  have "concat (pr_batches s) = delivered C (pr_executor s) \<and>
    rp_messages (ex_producer (pr_executor s)) = kafka_messages C (pr_executor s)" by blast
  with runs r(4) show ?thesis by (intro exI [of _ s]) simp
qed

text \<open>A start on a machine with two cores, with all libraries in order.\<close>

definition plain_startup :: "(unit, unit) startup_lib" where
  "plain_startup =
     \<lparr>su_install_crypto = True, su_parse_dsn = \<lambda>_. Some (), su_version = ''1'', su_user_attended = False,
      su_addr_ip = (\<lambda>_. ''127.0.0.1''), su_addr_port = (\<lambda>_. 8126), su_hostname = None,
      su_build_recorder = \<lambda>_ _. Some (), su_set_recorder = \<lambda>_. True, su_available_parallelism = Some 2,
      su_build_runtime = \<lambda>_. True, su_build_client = \<lambda>_. True, su_build_producer = \<lambda>_. True, su_sigterm = True\<rparr>"

definition plain_figment :: "Config \<Rightarrow> unit config_lib" where
  "plain_figment config =
     \<lparr>fg_defaults = \<lambda>_. (), fg_yaml_file = \<lambda>_. (), fg_env_prefixed = \<lambda>_. (), fg_log_level = \<lambda>_ _. (),
      fg_log_format = \<lambda>_ _. (), fg_merge = \<lambda>_ _. (), fg_extract = \<lambda>_. Inr config\<rparr>"

theorem exit_zero_delivers_witness:
  "main_exits plain_startup (plain_figment one_conf) (one_env Success) () \<lparr>app_config = None, app_log_level = None, app_log_format = None\<rparr> 0 \<and>
   (\<exists>s. process_runs (one_env Success) () s \<and> pr_main s = Stopped)"
proof -
  let ?app = "\<lparr>app_config = None, app_log_level = None, app_log_format = None\<rparr>"
  have conf: "extract_config (plain_figment one_conf) ?app = Inr one_conf"
    by (simp add: extract_config_def plain_figment_def)
  have c: "cf_sentry_dsn one_conf = None" "cf_thread_cpu_scale_factor one_conf = 1" "cf_checker_mode one_conf = CheckerReqwest"
    by (simp_all add: one_conf_def default_config_def)
  have "execute plain_startup (plain_figment one_conf) plain_redis () ?app = Some (Inr (start_process one_conf ()))"
    using one_provider(1)
    by (simp add: execute_def conf c init_logging_def init_metrics_def build_runtime_def worker_threads_def start_manager_def
        client_builds_def checker_of_config_def plain_startup_def logging_from_config_def Let_def split: option.split)
  moreover have "(process_step (one_env Success))\<^sup>*\<^sup>* (start_process one_conf ()) one_stopped"
    using one_stopped_runs by (simp add: process_runs_def)
  ultimately have "main_exits plain_startup (plain_figment one_conf) (one_env Success) () ?app 0"
    using one_stopped_fields(1) conf
    by (intro main_exits.ends) (simp_all add: plain_startup_def c)
  with exit_zero_delivers [OF this] show ?thesis by blast
qed

end
