(* ===== verification/Metrics.thy ===== *)
theory Metrics
  imports CheckExecutor RustStd
begin

text \<open>
  The metrics of the executor (\<open>src/src/check_executor.rs\<close>): what one execution and one step of the executor record, with all labels.
  A floating-point value is given by the whole number of nanoseconds, or the counter, it is converted from.
\<close>

section \<open>What is recorded\<close>

type_synonym labels = "(string \<times> string) list"

datatype metric_value =
    Increment nat
  | SecondsOf nat \<comment> \<open>a duration, in nanoseconds\<close>
  | Level u64

datatype metric_kind = Counter | Gauge | Histogram

record metric =
  mt_kind :: metric_kind
  mt_name :: string
  mt_labels :: labels
  mt_value :: metric_value

section \<open>The metrics of a result\<close>

fun status_label :: "CheckStatus \<Rightarrow> string" where
  "status_label Success = ''success''"
| "status_label Failure = ''failure''"
| "status_label MissedWindow = ''missed_window''"
| "status_label DisallowedByRobots = ''disallowed_by_robots''"

definition status_code_label :: "CheckResult \<Rightarrow> string" where
  "status_code_label result =
     (case Option.bind (cr_request_info result) http_status_code of
        None \<Rightarrow> ''none''
      | Some status \<Rightarrow> show_nat (unat status))"

definition bool_label :: "bool \<Rightarrow> string" where
  "bool_label b = (if b then ''true'' else ''false'')"

definition result_labels :: "CheckResult \<Rightarrow> bool \<Rightarrow> bool \<Rightarrow> labels" where
  "result_labels result is_retry will_retry =
     [(''status'', status_label (cr_status result)),
      (''failure_reason'', case cr_status_reason result of None \<Rightarrow> ''ok'' | Some r \<Rightarrow> reason_as_str (status_type r)),
      (''status_code'', status_code_label result),
      (''uptime_region'', cr_region result),
      (''is_retry'', bool_label is_retry),
      (''will_retry'', bool_label will_retry)]"

text \<open>A negative duration counts as none at all.\<close>

definition to_std_or_default :: "time_delta \<Rightarrow> nat" where
  "to_std_or_default d = nat d"

definition record_result_metrics :: "CheckResult \<Rightarrow> bool \<Rightarrow> bool \<Rightarrow> metric list" where
  "record_result_metrics result is_retry will_retry =
     (let ls = result_labels result is_retry will_retry;
          timer = (''histogram'', ''timer'') # ls
      in (case cr_duration result of
            None \<Rightarrow> []
          | Some d \<Rightarrow>
              [\<lparr>mt_kind = Histogram, mt_name = ''check_result.duration'', mt_labels = timer,
                mt_value = SecondsOf (to_std_or_default d)\<rparr>]) @
         [\<lparr>mt_kind = Histogram, mt_name = ''check_result.delay'', mt_labels = timer,
           mt_value = SecondsOf (to_std_or_default (cr_actual_check_time result - cr_scheduled_check_time result))\<rparr>,
          \<lparr>mt_kind = Counter, mt_name = ''check_result.processed'', mt_labels = ls, mt_value = Increment 1\<rparr>])"

text \<open>What \<open>do_check\<close> records: nothing when a robots check passes.\<close>

definition do_check_metrics where
  "do_check_metrics check_url check_robots failure_retries region x w scheduled_check st =
     (case check_outcome check_url check_robots x w scheduled_check region st of
        Some (Some check_result, _) \<Rightarrow>
          record_result_metrics check_result (0 < sc_retry_count scheduled_check)
            (cr_status check_result = Failure \<and> sc_retry_count scheduled_check < failure_retries)
      | _ \<Rightarrow> [])"

section \<open>The metrics of the loop\<close>

definition executor_gauge :: "string \<Rightarrow> string \<Rightarrow> u64 \<Rightarrow> metric" where
  "executor_gauge name region n =
     \<lparr>mt_kind = Gauge, mt_name = name, mt_labels = [(''uptime_region'', region)], mt_value = Level n\<rparr>"

definition start_gauges :: "ExecutorConfig \<Rightarrow> ('st, 'pst) executor \<Rightarrow> metric list" where
  "start_gauges conf s =
     [executor_gauge ''executor.queue_size'' (ec_region conf) (ex_queue_size s - 1),
      executor_gauge ''executor.num_running'' (ec_region conf) (ex_num_running s + 1)]"

definition finish_gauge :: "ExecutorConfig \<Rightarrow> ('st, 'pst) executor \<Rightarrow> metric" where
  "finish_gauge conf s = executor_gauge ''executor.num_running'' (ec_region conf) (ex_num_running s - 1)"

text \<open>Runs of the executor with everything they record, in order.\<close>

inductive metered_run ::
  "('w \<Rightarrow> ScheduledCheck \<Rightarrow> string \<Rightarrow> 'st \<Rightarrow> (CheckResult \<times> 'st) option)
     \<Rightarrow> ('w \<Rightarrow> ScheduledCheck \<Rightarrow> string \<Rightarrow> 'st \<Rightarrow> (CheckResult option \<times> 'st) option)
     \<Rightarrow> (CheckResult \<Rightarrow> 'pst \<Rightarrow> ((ExtractCodeError + unit) \<times> 'pst) option)
     \<Rightarrow> ExecutorConfig \<Rightarrow> 'st \<Rightarrow> 'pst \<Rightarrow> ('st, 'pst) executor \<Rightarrow> metric list \<Rightarrow> bool"
  for check_url check_robots produce conf st0 pst0 where
  init: "metered_run check_url check_robots produce conf st0 pst0 (new_executor st0 pst0) []"
| submit: "metered_run check_url check_robots produce conf st0 pst0 s ms \<Longrightarrow> tx \<notin> set (ex_submitted s) \<Longrightarrow>
    metered_run check_url check_robots produce conf st0 pst0 (queue_check tick config kind tx s) ms"
| arrive: "metered_run check_url check_robots produce conf st0 pst0 s ms \<Longrightarrow> ex_sending s = xs @ c # ys \<Longrightarrow>
    metered_run check_url check_robots produce conf st0 pst0 (send_check xs c ys s) ms"
| start: "metered_run check_url check_robots produce conf st0 pst0 s ms \<Longrightarrow> ex_queue s = c # q \<Longrightarrow> may_start conf s \<Longrightarrow>
    metered_run check_url check_robots produce conf st0 pst0 (start_check c q s) (ms @ start_gauges conf s)"
| finish: "metered_run check_url check_robots produce conf st0 pst0 s ms \<Longrightarrow> ex_running s = xs @ c # ys \<Longrightarrow>
    do_check check_url check_robots produce (ec_failure_retries conf) (ec_region conf) x w c
      (ex_checker s) (ex_producer s) = Some (e, st, pst) \<Longrightarrow>
    metered_run check_url check_robots produce conf st0 pst0 (finish_check e st pst xs c ys s)
      (ms @ do_check_metrics check_url check_robots (ec_failure_retries conf) (ec_region conf) x w c (ex_checker s)
         @ [finish_gauge conf s])"
| stop: "metered_run check_url check_robots produce conf st0 pst0 s ms \<Longrightarrow>
    metered_run check_url check_robots produce conf st0 pst0 (cancel s) ms"

lemma metered_reachable:
  "metered_run check_url check_robots produce conf st0 pst0 s ms \<Longrightarrow>
   executor_reachable check_url check_robots produce conf st0 pst0 s"
  by (induction rule: metered_run.induct)
    (blast intro: executor_reachable.intros executor_step.intros)+

text \<open>Every run of the executor is metered.\<close>

lemma reachable_metered:
  "executor_reachable check_url check_robots produce conf st0 pst0 s \<Longrightarrow>
   \<exists>ms. metered_run check_url check_robots produce conf st0 pst0 s ms"
proof (induction rule: executor_reachable.induct)
  case init
  show ?case by (intro exI) (rule metered_run.init)
next
  case (step s s')
  then obtain ms where ms: "metered_run check_url check_robots produce conf st0 pst0 s ms" by blast
  from step.hyps(2) show ?case
    by cases (use ms in \<open>blast intro: metered_run.intros\<close>)+
qed

section \<open>The task monitor\<close>

text \<open>The means that \<open>tokio_metrics\<close> computes over an interval, by name.\<close>

definition task_means :: "string list" where
  "task_means = [''first_poll_delay'', ''idle_duration'', ''poll_duration'', ''scheduled_duration'', ''slow_poll_duration'',
     ''fast_poll_duration'', ''long_delay_duration'', ''short_delay_duration'']"

definition record_task_metrics :: "('t \<Rightarrow> string \<Rightarrow> nat) \<Rightarrow> 't \<Rightarrow> string \<Rightarrow> metric list" where
  "record_task_metrics mean interval region =
     map (\<lambda>name. \<lparr>mt_kind = Gauge, mt_name = ''executor_task.mean_'' @ name, mt_labels = [(''uptime_region'', region)],
                  mt_value = SecondsOf (mean interval name)\<rparr>) task_means"

section \<open>Reading the metrics\<close>

text \<open>What a dashboard reads: the sum of a counter over the series that are selected, and the last value of a gauge.\<close>

definition amount :: "metric \<Rightarrow> nat" where
  "amount m = (case mt_value m of Increment n \<Rightarrow> n | _ \<Rightarrow> 0)"

definition counted :: "string \<Rightarrow> (labels \<Rightarrow> bool) \<Rightarrow> metric list \<Rightarrow> nat" where
  "counted name sel ms = sum_list (map amount (filter (\<lambda>m. mt_name m = name \<and> sel (mt_labels m)) ms))"

definition gauge_reads :: "string \<Rightarrow> metric list \<Rightarrow> u64" where
  "gauge_reads name ms =
     foldl (\<lambda>v m. if mt_name m = name then (case mt_value m of Level n \<Rightarrow> n | _ \<Rightarrow> v) else v) 0 ms"

definition final_with :: "CheckStatus \<Rightarrow> labels \<Rightarrow> bool" where
  "final_with status ls \<longleftrightarrow>
     map_of ls ''status'' = Some (status_label status) \<and> map_of ls ''will_retry'' = Some ''false''"

definition retried :: "labels \<Rightarrow> bool" where
  "retried ls \<longleftrightarrow> map_of ls ''will_retry'' = Some ''true''"

definition reported_with :: "CheckStatus \<Rightarrow> (nat \<times> CheckResult option) list \<Rightarrow> nat" where
  "reported_with status rs = length (filter (\<lambda>(tx, res). map_option cr_status res = Some status) rs)"

lemma status_label_inject [simp]: "status_label a = status_label b \<longleftrightarrow> a = b"
  by (cases a; cases b) simp_all

lemma counted_append [simp]: "counted name sel (ms @ ms') = counted name sel ms + counted name sel ms'"
  by (simp add: counted_def)

lemma counted_Nil [simp]: "counted name sel [] = 0"
  by (simp add: counted_def)

lemma counted_result:
  "counted ''check_result.processed'' sel (record_result_metrics r is_retry will_retry)
     = (if sel (result_labels r is_retry will_retry) then 1 else 0)"
  by (cases "cr_duration r") (simp_all add: counted_def record_result_metrics_def amount_def Let_def)

lemma counted_gauge [simp]:
  "counted ''check_result.processed'' sel (start_gauges conf s) = 0"
  "counted ''check_result.processed'' sel [finish_gauge conf s] = 0"
  by (simp_all add: counted_def start_gauges_def finish_gauge_def executor_gauge_def amount_def)

lemma selected_labels [simp]:
  "final_with status (result_labels r is_retry will_retry) \<longleftrightarrow> cr_status r = status \<and> \<not> will_retry"
  "retried (result_labels r is_retry will_retry) \<longleftrightarrow> will_retry"
  by (simp_all add: final_with_def retried_def result_labels_def bool_label_def)

section \<open>The metrics agree with what happens\<close>

text \<open>What an execution records tells how it ends.\<close>

lemma do_check_metered:
  assumes "do_check check_url check_robots produce failure_retries region x w c st pst = Some (e, st', pst')"
  shows "case e of
      Requeued c' \<Rightarrow> c' = c\<lparr>sc_retry_count := sc_retry_count c + 1\<rparr> \<and> sc_retry_count c < failure_retries \<and> (\<exists>r. do_check_metrics check_url check_robots failure_retries region x w c st
        = record_result_metrics r (0 < sc_retry_count c) True)
    | Resolved _ (Some r) \<Rightarrow> do_check_metrics check_url check_robots failure_retries region x w c st
        = record_result_metrics r (0 < sc_retry_count c) False
    | _ \<Rightarrow> do_check_metrics check_url check_robots failure_retries region x w c st = []"
  using assms
  by (auto simp: do_check_def do_check_metrics_def record_result_def Let_def
      split: option.splits sum.splits if_splits prod.splits)

lemma gauge_reads_steps [simp]:
  "gauge_reads ''executor.num_running'' (ms @ start_gauges conf s) = ex_num_running s + 1"
  "gauge_reads ''executor.num_running'' (ms @ [finish_gauge conf s]) = ex_num_running s - 1"
  "gauge_reads ''executor.num_running'' (ms @ ms' @ [finish_gauge conf s]) = ex_num_running s - 1"
  by (simp_all add: gauge_reads_def start_gauges_def finish_gauge_def executor_gauge_def)

definition retry_credit :: "ExecutorConfig \<Rightarrow> ScheduledCheck \<Rightarrow> nat" where
  "retry_credit conf c = unat (ec_failure_retries conf) - unat (sc_retry_count c)"

definition accounted :: "ExecutorConfig \<Rightarrow> ('st, 'pst) executor \<Rightarrow> metric list \<Rightarrow> bool" where
  "accounted conf s ms \<longleftrightarrow>
     (\<forall>status. counted ''check_result.processed'' (final_with status) ms = reported_with status (ex_resolved s)) \<and>
     counted ''check_result.processed'' retried ms + sum_list (map (retry_credit conf) (in_hand s))
       \<le> unat (ec_failure_retries conf) * length (ex_submitted s) \<and>
     gauge_reads ''executor.num_running'' ms = ex_num_running s"

lemma unat_inc:
  fixes a b :: u16
  assumes "a < b"
  shows "unat (a + 1) = Suc (unat a)"
proof -
  have "unat a < unat b" "unat b < 2 ^ 16"
    using assms unsigned_less [of b] by (simp_all add: word_less_nat_alt)
  then show ?thesis by (simp add: unat_word_ariths)
qed

lemma accounted_finish:
  assumes "accounted conf s ms" "ex_running s = xs @ c # ys"
    and "do_check check_url check_robots produce (ec_failure_retries conf) (ec_region conf) x w c
      (ex_checker s) (ex_producer s) = Some (e, st, pst)"
  shows "accounted conf (finish_check e st pst xs c ys s)
      (ms @ do_check_metrics check_url check_robots (ec_failure_retries conf) (ec_region conf) x w c (ex_checker s)
         @ [finish_gauge conf s])"
proof -
  note rec = do_check_metered [OF assms(3)]
  note upd = finish_check_def announce_def in_hand_def Let_def
  show ?thesis
  proof (cases e)
    case (Requeued c')
    obtain r where r: "do_check_metrics check_url check_robots (ec_failure_retries conf) (ec_region conf) x w c (ex_checker s)
        = record_result_metrics r (0 < sc_retry_count c) True"
      using rec Requeued by auto
    have "sc_retry_count c < ec_failure_retries conf" "c' = c\<lparr>sc_retry_count := sc_retry_count c + 1\<rparr>"
      using rec Requeued by auto
    moreover from this(1) have "unat (sc_retry_count c + 1) = Suc (unat (sc_retry_count c))"
      by (rule unat_inc)
    ultimately have credit: "Suc (retry_credit conf c') = retry_credit conf c"
      by (simp add: retry_credit_def word_less_nat_alt)
    show ?thesis
      using assms(1,2) credit by (auto simp: accounted_def r counted_result Requeued upd)
  next
    case (Resolved tx res)
    then show ?thesis
      using assms(1,2) rec by (cases res) (auto simp: accounted_def counted_result reported_with_def upd)
  next
    case Unreported
    then show ?thesis using assms(1,2) rec by (auto simp: accounted_def upd)
  qed
qed

lemma accounted_run:
  "metered_run check_url check_robots produce conf st0 pst0 s ms \<Longrightarrow> accounted conf s ms"
proof (induction rule: metered_run.induct)
  case init
  show ?case by (simp add: accounted_def new_executor_def in_hand_def reported_with_def gauge_reads_def)
next
  case (submit s ms tx tick config kind)
  then show ?case
    by (simp add: accounted_def queue_check_def announce_def in_hand_def retry_credit_def new_scheduled_check_def)
next
  case (arrive s ms xs c ys)
  then show ?case by (simp add: accounted_def send_check_def in_hand_def)
next
  case (start s ms c q)
  then show ?case
    by (simp add: accounted_def start_check_def in_hand_def)
next
  case (finish s ms xs c ys x w e st pst)
  then show ?case by (blast intro: accounted_finish)
next
  case (stop s ms)
  then show ?case by (simp add: accounted_def cancel_def in_hand_def)
qed

text \<open>
  C25: The metrics agree with what happens.  Whatever a run of the executor records, the counter of processed checks that will not be retried is, for every
  status, the number of checks that were reported with this status; no more retries are counted than the limit allows for
  the checks that were queued; and the gauge of running checks last read their number.
\<close>

theorem metrics_account:
  assumes "metered_run check_url check_robots produce conf st0 pst0 s ms"
  shows "counted ''check_result.processed'' (final_with status) ms
      = length (filter (\<lambda>(tx, res). map_option cr_status res = Some status) (ex_resolved s)) \<and>
    counted ''check_result.processed'' retried ms \<le> unat (ec_failure_retries conf) * length (ex_submitted s) \<and>
    gauge_reads ''executor.num_running'' ms = of_nat (length (ex_running s))"
proof -
  have "executor_inv conf s" by (rule executor_inv_reachable [OF metered_reachable [OF assms]])
  with accounted_run [OF assms] show ?thesis
    by (auto simp: accounted_def reported_with_def executor_inv_def)
qed

text \<open>A run in which the only check comes too late.\<close>

theorem metrics_account_witness:
  "\<exists>s ms. metered_run dummy_check_url dummy_check_robots noop_produce
      \<lparr>ec_concurrency = 1, ec_checker_parallel = False, ec_failure_retries = 2, ec_region = ''us'', ec_record_task_metrics = False\<rparr>
      new_dummy () s ms \<and>
    counted ''check_result.processed'' (final_with MissedWindow) ms = 1 \<and> gauge_reads ''executor.num_running'' ms = 0"
proof -
  let ?conf = "\<lparr>ec_concurrency = 1, ec_checker_parallel = False, ec_failure_retries = 2, ec_region = ''us'',
      ec_record_task_metrics = False\<rparr>"
  let ?run = "metered_run dummy_check_url dummy_check_robots noop_produce ?conf new_dummy ()"
  let ?c = "new_scheduled_check Uptime (from_time 0) default_check_config False 9"
  let ?x = "plain_exec_input (seconds 1000)"
  let ?w = "\<lparr>in_now = 0, in_trace_id = 0, in_guid = 0, in_span_id = 0\<rparr>"
  let ?r = "missed_from (seconds 1000) 1 ?c ''us''"
  let ?s1 = "queue_check (from_time 0) default_check_config Uptime 9 (new_executor new_dummy ())"
  let ?s2 = "send_check [] ?c [] ?s1"
  let ?s3 = "start_check ?c [] ?s2"
  let ?s4 = "finish_check (Resolved 9 (Some ?r)) new_dummy () [] ?c [] ?s3"
  have "?run ?s1 []" by (intro metered_run.submit metered_run.init) (simp add: new_executor_def)
  then have "?run ?s2 []" by (rule metered_run.arrive) (simp add: queue_check_def announce_def new_executor_def)
  then have "?run ?s3 ([] @ start_gauges ?conf ?s2)"
    by (rule metered_run.start) (simp_all add: queue_check_def announce_def send_check_def new_executor_def may_start_def)
  then obtain ms where ms: "?run ?s4 ms"
  proof (rule that [OF metered_run.finish])
    show "ex_running ?s3 = [] @ ?c # []"
      by (simp add: start_check_def send_check_def queue_check_def announce_def new_executor_def)
    show "do_check dummy_check_url dummy_check_robots noop_produce (ec_failure_retries ?conf) (ec_region ?conf) ?x ?w ?c
        (ex_checker ?s3) (ex_producer ?s3) = Some (Resolved 9 (Some ?r), new_dummy, ())"
      by (simp add: do_check_def check_outcome_def plain_exec_input_def new_scheduled_check_def from_time_def seconds_def
          default_check_config_def missed_from_def record_result_def noop_produce_def start_check_def send_check_def
          queue_check_def announce_def new_executor_def)
  qed
  have "ex_resolved ?s4 = [(9, Some ?r)]" "ex_running ?s4 = []" "cr_status ?r = MissedWindow"
    by (simp_all add: finish_check_def Let_def start_check_def send_check_def queue_check_def announce_def new_executor_def
        missed_from_def)
  with metrics_account [OF ms, of MissedWindow] ms show ?thesis by (intro exI [of _ ?s4] exI [of _ ms]) simp
qed

end
