(* ===== verification/ProcessMarks.thy ===== *)
theory ProcessMarks
  imports ProcessResults
begin

text \<open>
  The watermarks of a running process: the tick processors of \<open>src/src/scheduler.rs\<close> next to the tasks.  What they store in
  Redis is what the next process starts from, whenever this one ends, be it killed.
\<close>

section \<open>The tick processors\<close>

text \<open>
  The bundles that were handed to the processor of a scheduler (all of them, for the statements), those in its channel, the batch it is
  awaiting, the last tick of the batch that is complete, and the watermark.
\<close>

record marker =
  mk_sent :: "ExecutionBundle list"
  mk_channel :: "ExecutionBundle list"
  mk_batch :: "ExecutionBundle list"
  mk_last :: "Tick option"
  mk_stored :: "datetime option"
  mk_ended :: bool

definition new_marker :: marker where
  "new_marker = \<lparr>mk_sent = [], mk_channel = [], mk_batch = [], mk_last = None, mk_stored = None, mk_ended = False\<rparr>"

definition send_bundle :: "ExecutionBundle \<Rightarrow> marker \<Rightarrow> marker" where
  "send_bundle b k = k\<lparr>mk_sent := mk_sent k @ [b], mk_channel := mk_channel k @ [b]\<rparr>"

definition take_batch :: "marker \<Rightarrow> marker" where
  "take_batch k = k\<lparr>mk_batch := take HANDLE_BATCH_SIZE (mk_channel k), mk_channel := drop HANDLE_BATCH_SIZE (mk_channel k)\<rparr>"

definition resolved :: "('st, 'cl) process \<Rightarrow> nat set" where
  "resolved s = fst ` set (ex_resolved (pr_executor s))"

text \<open>
  Awaiting a bundle ends when every check of it was resolved or lost.  A lost one ends the batch, and the processor when no bundle of the
  batch was complete.  After the batch the tick is written; a write can fail without ending the processor.
\<close>

inductive marker_step :: "('st, 'cl) process \<Rightarrow> marker \<Rightarrow> marker \<Rightarrow> bool" for s where
  recv_many: "\<not> mk_ended k \<Longrightarrow> mk_batch k = [] \<Longrightarrow> mk_last k = None \<Longrightarrow> mk_channel k \<noteq> [] \<Longrightarrow> marker_step s k (take_batch k)"
| bundle_done: "\<not> mk_ended k \<Longrightarrow> mk_batch k = b # bs \<Longrightarrow> set (eb_checks b) \<subseteq> resolved s \<Longrightarrow>
    marker_step s k (k\<lparr>mk_batch := bs, mk_last := Some (eb_tick b)\<rparr>)"
| check_lost: "\<not> mk_ended k \<Longrightarrow> mk_batch k = b # bs \<Longrightarrow> set (eb_checks b) \<subseteq> resolved s \<union> set (pr_lost s) \<Longrightarrow>
    set (eb_checks b) \<inter> set (pr_lost s) \<noteq> {} \<Longrightarrow>
    marker_step s k (k\<lparr>mk_batch := [], mk_ended := (mk_last k = None)\<rparr>)"
| written: "\<not> mk_ended k \<Longrightarrow> mk_batch k = [] \<Longrightarrow> mk_last k = Some t \<Longrightarrow> i64_min \<le> tick_time t \<Longrightarrow> tick_time t \<le> i64_max \<Longrightarrow>
    marker_step s k (k\<lparr>mk_last := None, mk_stored := Some (tick_time t)\<rparr>)"
| not_written: "\<not> mk_ended k \<Longrightarrow> mk_batch k = [] \<Longrightarrow> mk_last k = Some t \<Longrightarrow>
    marker_step s k (k\<lparr>mk_last := None\<rparr>)"
| write_fatal: "\<not> mk_ended k \<Longrightarrow> mk_batch k = [] \<Longrightarrow> mk_last k = Some t \<Longrightarrow>
    marker_step s k (k\<lparr>mk_last := None, mk_ended := True\<rparr>)"

text \<open>The steps that hand a bundle to a processor.\<close>

definition ticks :: "('st, 'cl) process \<Rightarrow> ('st, 'cl) process \<Rightarrow> bool" where
  "ticks s s' \<longleftrightarrow> (\<exists>p d d'. pr_scheds s p = Some d \<and> sd_phase d = Ticking \<and> pr_scheds s' p = Some d' \<and> sd_phase d' = AtCheck)"

text \<open>
  The process with its markers: a scheduler's ticks are its successive seconds, and its bundle is the channels of the checks it queued.
\<close>

inductive marked_step ::
  "('w, 'st, 'cl, 'cn, 'db) process_env \<Rightarrow> (u16 \<Rightarrow> datetime) \<Rightarrow> ('st, 'cl) process \<times> (u16 \<Rightarrow> marker)
     \<Rightarrow> ('st, 'cl) process \<times> (u16 \<Rightarrow> marker) \<Rightarrow> bool" for C start where
  tick: "alive s \<Longrightarrow> pr_scheds s p = Some d \<Longrightarrow> sd_phase d = Ticking \<Longrightarrow> fresh_channels (pr_executor s) cs \<Longrightarrow>
    t = nth_tick (start p) 0 (length (mk_sent (m p))) \<Longrightarrow>
    schedule_configs (pe_v5 C) (cf_region (pe_conf C)) t (pr_stream s) cs (pr_executor s) = Some (Inr (txs, e)) \<Longrightarrow>
    sd_processor d \<Longrightarrow>
    marked_step C start (s, m)
      ((put_sched p (d\<lparr>sd_phase := AtCheck, sd_waiting := sd_waiting d @ txs\<rparr>) s)\<lparr>pr_executor := send_all e\<rparr>,
       m(p := send_bundle \<lparr>eb_tick = t, eb_checks = txs\<rparr> (m p)))"
| mark: "alive s \<Longrightarrow> pr_scheds s p = Some d \<Longrightarrow> sd_processor d \<Longrightarrow> marker_step s (m p) k \<Longrightarrow>
    marked_step C start (s, m) (s, m(p := k))"
| other: "process_step C s s' \<Longrightarrow> \<not> ticks s s' \<Longrightarrow> marked_step C start (s, m) (s', m)"

definition marked_runs where
  "marked_runs C start st s m \<longleftrightarrow>
     provider_of_config (pe_lib C) (pe_conf C) \<noteq> None \<and>
     (marked_step C start)\<^sup>*\<^sup>* (start_process (pe_conf C) st, \<lambda>_. new_marker) (s, m)"

lemma marked_runs_step: "marked_runs C start st s m \<Longrightarrow> marked_step C start (s, m) (s', m') \<Longrightarrow> marked_runs C start st s' m'"
  unfolding marked_runs_def by auto

lemma marked_runs_induct [consumes 1, case_names start step]:
  assumes "marked_runs C start st s m" "P (start_process (pe_conf C) st) (\<lambda>_. new_marker)"
    and "\<And>s m s' m'. marked_runs C start st s m \<Longrightarrow> marked_step C start (s, m) (s', m') \<Longrightarrow> P s m \<Longrightarrow> P s' m'"
  shows "P s m"
proof -
  have p: "provider_of_config (pe_lib C) (pe_conf C) \<noteq> None" using assms(1) by (simp add: marked_runs_def)
  from assms(1) have "(marked_step C start)\<^sup>*\<^sup>* (start_process (pe_conf C) st, \<lambda>_. new_marker) (s, m)" by (simp add: marked_runs_def)
  then show ?thesis
    by (induction "(s, m)" arbitrary: s m rule: rtranclp_induct) (use p assms(2,3) in \<open>auto simp: marked_runs_def\<close>)
qed

text \<open>The markers only watch: without them it is a run of the process, and every run of the process whose ticks are in order has them.\<close>

lemma marked_step_process:
  assumes "marked_step C start (s, m) (s', m')"
  shows "s' = s \<or> process_step C s s'"
  using assms
proof cases
  case (tick p d cs t txs e)
  then have "scheduler_step C p s s'" using scheduler_step.tick [of s p d cs C t txs e] by simp
  with tick show ?thesis using process_step.scheduler by blast
qed simp_all

lemma marked_process_runs:
  assumes "marked_runs C start st s m"
  shows "process_runs C st s"
  using assms
proof (induction rule: marked_runs_induct)
  case start
  show ?case using assms by (simp add: marked_runs_def process_runs_def)
next
  case (step s m s' m')
  from marked_step_process [OF step(2)] step(3) show ?case by (auto intro: process_runs_step)
qed

section \<open>What is never taken back\<close>

lemma history_step:
  assumes "process_step C s s'"
  shows "resolved s \<subseteq> resolved s'" "set (pr_lost s) \<subseteq> set (pr_lost s')"
proof -
  have "resolved s \<subseteq> resolved s' \<and> set (pr_lost s) \<subseteq> set (pr_lost s')"
    using assms
  proof cases
    case main
    from main(2) show ?thesis by cases (simp_all add: resolved_def cancel_def)
  next
    case endpoint
    then show ?thesis by (auto elim!: endpoint_step.cases simp: resolved_def)
  next
    case consumer
    from consumer(2) show ?thesis by cases (auto simp: resolved_def abort_def dest!: apply_opD)
  next
    case monitor
    from monitor(2) show ?thesis by cases (auto simp: resolved_def abort_def dest!: apply_opD)
  next
    case services
    from services(2) show ?thesis by cases (simp_all add: resolved_def)
  next
    case (scheduler p)
    from scheduler(2) show ?thesis
      by cases (auto simp: resolved_def put_sched_def end_sched_def abort_def send_all_def dest!: schedule_configs_effect)
  next
    case processor
    from processor(2) show ?thesis by cases (simp_all add: resolved_def put_sched_def)
  next
    case executor
    from executor(2) show ?thesis
    proof cases
      case (finish xs c ys x w e st pst)
      then show ?thesis
        by (cases e) (auto simp: resolved_def finish_check_def announce_def send_all_def Let_def)
    qed (auto simp: resolved_def start_check_def abort_def close_stream_def)
  next
    case worker
    from worker(2) show ?thesis by cases (simp_all add: resolved_def set_channel_def)
  qed
  then show "resolved s \<subseteq> resolved s'" "set (pr_lost s) \<subseteq> set (pr_lost s')" by simp_all
qed

section \<open>A watermark has nothing undone before it\<close>

text \<open>Of what a processor was handed, the bundles before its batch and its channel are done, and only their ticks are written.\<close>

definition marker_ok :: "datetime \<Rightarrow> nat set \<Rightarrow> marker \<Rightarrow> bool" where
  "marker_ok start R k \<longleftrightarrow>
     (\<exists>past. mk_sent k = past @ mk_batch k @ mk_channel k \<and> (\<forall>b \<in> set past. set (eb_checks b) \<subseteq> R) \<and>
        (\<forall>t. mk_last k = Some t \<longrightarrow> t \<in> eb_tick ` set past) \<and>
        (\<forall>w. mk_stored k = Some w \<longrightarrow> w \<in> (tick_time \<circ> eb_tick) ` set past)) \<and>
     map eb_tick (mk_sent k) = map (nth_tick start 0) [0..<length (mk_sent k)]"

lemma marker_ok_new: "marker_ok start R new_marker"
  by (simp add: marker_ok_def new_marker_def)

lemma marker_ok_mono: "marker_ok start R k \<Longrightarrow> R \<subseteq> R' \<Longrightarrow> marker_ok start R' k"
  unfolding marker_ok_def by (elim conjE exE, intro conjI exI) (assumption+, blast+)

lemma marker_ok_send:
  assumes "marker_ok start R k"
  shows "marker_ok start R (send_bundle \<lparr>eb_tick = nth_tick start 0 (length (mk_sent k)), eb_checks = txs\<rparr> k)"
  using assms by (auto simp: marker_ok_def send_bundle_def)

lemma marker_ok_step:
  assumes "marker_step s k k'" "marker_ok start (resolved s) k" "pr_lost s = []"
  shows "marker_ok start (resolved s) k'"
proof -
  obtain past where past: "mk_sent k = past @ mk_batch k @ mk_channel k" "\<forall>b \<in> set past. set (eb_checks b) \<subseteq> resolved s"
      "\<forall>t. mk_last k = Some t \<longrightarrow> t \<in> eb_tick ` set past"
      "\<forall>w. mk_stored k = Some w \<longrightarrow> w \<in> (tick_time \<circ> eb_tick) ` set past"
    and ts: "map eb_tick (mk_sent k) = map (nth_tick start 0) [0..<length (mk_sent k)]"
    using assms(2) unfolding marker_ok_def by blast
  from assms(1) show ?thesis
  proof cases
    case recv_many
    then show ?thesis
      using past ts unfolding marker_ok_def take_batch_def by (intro conjI exI [of _ past]) simp_all
  next
    case (bundle_done b bs)
    then show ?thesis
      using past ts unfolding marker_ok_def by (intro conjI exI [of _ "past @ [b]"]) auto
  next
    case (check_lost b bs)
    with assms(3) show ?thesis by simp
  next
    case (written t)
    then show ?thesis
      using past ts unfolding marker_ok_def by (intro conjI exI [of _ past]) (auto simp: image_image)
  next
    case (not_written t)
    then show ?thesis using past ts unfolding marker_ok_def by (intro conjI exI [of _ past]) auto
  next
    case (write_fatal t)
    then show ?thesis using past ts unfolding marker_ok_def by (intro conjI exI [of _ past]) auto
  qed
qed

lemma markers_ok:
  assumes "marked_runs C start st s m" "pr_lost s = []"
  shows "marker_ok (start p) (resolved s) (m p)"
  using assms
proof (induction arbitrary: p rule: marked_runs_induct)
  case start
  show ?case by (rule marker_ok_new)
next
  case (step s m s' m' q)
  have kept: "resolved s \<subseteq> resolved s'" "pr_lost s = []"
    using marked_step_process [OF step(2)] history_step [of C s s'] step(4) by auto
  have ok: "marker_ok (start q) (resolved s) (m q)" for q by (rule step(3) [OF kept(2)])
  from step(2) show ?case
  proof cases
    case (tick p d cs t txs e)
    have "marker_ok (start q) (resolved s) (m' q)"
      using marker_ok_send [OF ok] ok tick by simp
    then show ?thesis using kept(1) by (rule marker_ok_mono)
  next
    case (mark p d k)
    then show ?thesis using marker_ok_step [OF mark(6) ok kept(2)] ok by simp
  next
    case other
    then show ?thesis using marker_ok_mono [OF ok kept(1)] by simp
  qed
qed

lemma undone_after_watermark:
  assumes "marker_ok start R k" "mk_stored k = Some w" "b \<in> set (mk_sent k)" "\<not> set (eb_checks b) \<subseteq> R"
  shows "\<exists>i j. i < j \<and> w = start + seconds (int i) \<and> eb_tick b = nth_tick start 0 j"
proof -
  obtain past where past: "mk_sent k = past @ mk_batch k @ mk_channel k" "\<forall>b \<in> set past. set (eb_checks b) \<subseteq> R"
      "w \<in> (tick_time \<circ> eb_tick) ` set past"
    and ts: "map eb_tick (mk_sent k) = map (nth_tick start 0) [0..<length (mk_sent k)]"
    using assms(1,2) unfolding marker_ok_def by blast
  have nth: "eb_tick (mk_sent k ! l) = nth_tick start 0 l" if "l < length (mk_sent k)" for l
    using arg_cong [OF ts, of "\<lambda>xs. xs ! l"] that by simp
  obtain i where i: "i < length past" "w = tick_time (eb_tick (past ! i))" using past(3) by (auto simp: in_set_conv_nth)
  then have "w = start + seconds (int i)"
    using nth [of i] past(1) by (simp add: nth_append nth_tick_time)
  moreover obtain j where j: "j < length (mk_sent k)" "b = mk_sent k ! j" using assms(3) by (auto simp: in_set_conv_nth)
  moreover have "i < j"
  proof (rule ccontr)
    assume "\<not> i < j"
    then have "b \<in> set past" using i(1) j(2) past(1) by (simp add: nth_append)
    with past(2) assms(4) show False by blast
  qed
  ultimately show ?thesis using nth by blast
qed

text \<open>Nothing is lost before the shutdown.\<close>

lemma serving_loses_nothing:
  "process_runs C st s \<Longrightarrow> \<not> shutdown s \<Longrightarrow> pr_lost s = []"
  using results_inv_runs [of C st s] by (auto simp: results_inv_def shutdown_def Let_def)

text \<open>
  C5: A checker can be killed at any moment of its service, and nothing is forgotten.  As long as no check was lost (none is until the executor drops its channel
  in a shutdown), take the watermark that is stored in Redis for a partition, and the process that starts from it: every check that was queued and has not been resolved belongs to a
  tick that the new process has again.
\<close>

theorem killed_anytime:
  assumes "marked_runs C start st s m" "pr_lost s = []" "start p mod nanos_per_sec = 0"
    and "mk_stored (m p) = Some w" "scheduler_start (Some w) now = Inr start'"
    and "b \<in> set (mk_sent (m p))" "tx \<in> set (eb_checks b)" "tx \<notin> fst ` set (ex_resolved (pr_executor s))"
  shows "\<exists>k. nth_tick start' start_at k = eb_tick b"
proof -
  have "\<not> set (eb_checks b) \<subseteq> resolved s" using assms(7,8) by (auto simp: resolved_def)
  then obtain i j where ij: "i < j" "w = start p + seconds (int i)" "eb_tick b = nth_tick (start p) 0 j"
    using undone_after_watermark [OF markers_ok [OF assms(1,2)] assms(4,6)] by blast
  obtain t where t: "start' = min (w + tick_frequency) t" "t mod nanos_per_sec = 0"
    using assms(5) by (auto simp: scheduler_start_def trunc_to_second_def Let_def split: sum.splits if_splits)
  have grid: "start' mod nanos_per_sec = 0"
    using t assms(3) ij(2) by (auto simp: min_def tick_frequency_def seconds_def)
  have "start' \<le> start p + seconds (int j)"
    using t(1) ij(1,2) by (auto simp: min_def tick_frequency_def seconds_def)
  define gap where "gap = start p + seconds (int j) - start'"
  have "0 \<le> gap" using \<open>start' \<le> _\<close> by (simp add: gap_def)
  moreover have "nanos_per_sec dvd gap"
    using grid assms(3) by (auto simp: gap_def seconds_def mod_eq_0_iff_dvd intro: dvd_diff dvd_add)
  ultimately obtain n where "gap = seconds (int n)"
    using pos_imp_zdiv_nonneg_iff [of nanos_per_sec gap]
    by (metis dvd_div_mult_self nonneg_int_cases seconds_def zero_less_numeral)
  then have "start p + seconds (int j) = start' + seconds (int n)" by (simp add: gap_def)
  then have "nth_tick start' start_at n = eb_tick b"
    by (simp add: ij(3) nth_tick_def interval_tick_def duration_since_def tick_frequency_def seconds_def)
  then show ?thesis ..
qed

section \<open>Runs with markers\<close>

lemmas marked_other = marked_runs_step [OF _ marked_step.other]

definition tick_of :: "u16 \<Rightarrow> sched \<Rightarrow> nat list \<Rightarrow> (unit, ResultsProducer) executor \<Rightarrow> (unit, unit) process \<Rightarrow> (unit, unit) process" where
  "tick_of p d txs e s = (put_sched p (d\<lparr>sd_phase := AtCheck, sd_waiting := sd_waiting d @ txs\<rparr>) s)\<lparr>pr_executor := send_all e\<rparr>"

text \<open>A scheduler that is at its check goes on and ticks.\<close>

lemma marked_tick:
  assumes "marked_runs C start () s m" "alive s" "pr_scheds s p = Some d" "sd_phase d = AtCheck" "\<not> sd_token d" "sd_processor d"
    and "fresh_channels (pr_executor s) cs" "t = nth_tick (start p) 0 (length (mk_sent (m p)))"
    and "schedule_configs (pe_v5 C) (cf_region (pe_conf C)) t (pr_stream s) cs (pr_executor s) = Some (Inr (txs, e))"
  shows "marked_runs C start () (tick_of p d txs e s) (m(p := send_bundle \<lparr>eb_tick = t, eb_checks = txs\<rparr> (m p)))"
proof -
  let ?d = "d\<lparr>sd_phase := Ticking\<rparr>"
  let ?s = "put_sched p ?d s"
  have "scheduler_step C p s ?s" by (rule scheduler_step.go_on [OF assms(3-5)])
  then have "process_step C s ?s" using assms(2) by (intro process_step.scheduler)
  moreover have "\<not> ticks s ?s" using assms(3,4) by (auto simp: ticks_def put_sched_def)
  ultimately have run: "marked_runs C start () ?s m" by (rule marked_other [OF assms(1)])
  have "marked_step C start (?s, m)
      ((put_sched p (?d\<lparr>sd_phase := AtCheck, sd_waiting := sd_waiting ?d @ txs\<rparr>) ?s)\<lparr>pr_executor := send_all e\<rparr>,
       m(p := send_bundle \<lparr>eb_tick = t, eb_checks = txs\<rparr> (m p)))"
    by (rule marked_step.tick [where cs = cs]) (use assms in \<open>simp_all add: alive_def put_sched_def\<close>)
  then have "marked_step C start (?s, m) (tick_of p d txs e s, m(p := send_bundle \<lparr>eb_tick = t, eb_checks = txs\<rparr> (m p)))"
    by (simp add: tick_of_def put_sched_def)
  with run show ?thesis by (rule marked_runs_step)
qed

lemma marked_mark:
  "marked_runs C start () s m \<Longrightarrow> alive s \<Longrightarrow> pr_scheds s p = Some d \<Longrightarrow> sd_processor d \<Longrightarrow> marker_step s (m p) k \<Longrightarrow>
   marked_runs C start () s (m(p := k))"
  by (rule marked_runs_step, assumption, rule marked_step.mark)

lemma one_booted_marked: "marked_runs (one_env status) start () one_booted (\<lambda>_. new_marker)"
proof -
  have s0: "marked_runs (one_env status) start () (start_process one_conf ()) (\<lambda>_. new_marker)"
    using one_provider(1) by (simp add: marked_runs_def)
  obtain s1 s2 s3 where steps: "process_step (one_env status) (start_process one_conf ()) s1" "process_step (one_env status) s1 s2"
      "process_step (one_env status) s2 s3" "process_step (one_env status) s3 one_booted"
      "pr_scheds s1 = Map.empty" "pr_scheds s2 = [0 \<mapsto> new_sched]" "pr_scheds s3 = [0 \<mapsto> new_sched]"
    using one_boot_steps by blast
  have "\<not> ticks (start_process one_conf ()) s1" "\<not> ticks s1 s2" "\<not> ticks s2 s3" "\<not> ticks s3 one_booted"
    by (auto simp: ticks_def steps start_process_def new_sched_def split: if_splits)
  from marked_other [OF marked_other [OF marked_other [OF marked_other [OF s0 steps(1) this(1)] steps(2) this(2)] steps(3) this(3)] steps(4) this(4)]
  show ?thesis .
qed

text \<open>Two ticks: nothing is due at the first, one check is at the second.\<close>

definition one_sched :: "nat list \<Rightarrow> sched" where
  "one_sched txs = \<lparr>sd_phase = AtCheck, sd_token = False, sd_processor = True, sd_waiting = txs\<rparr>"

definition second_check :: ScheduledCheck where
  "second_check = new_scheduled_check Uptime (nth_tick 0 0 1) default_check_config False 9"

definition first_tick :: "(unit, unit) process" where
  "first_tick = tick_of 0 (one_sched []) [] (pr_executor one_booted) one_booted"

definition two_ticks :: "(unit, unit) process" where
  "two_ticks = tick_of 0 (one_sched []) [9] (queue_check (nth_tick 0 0 1) default_check_config Uptime 9 (pr_executor first_tick)) first_tick"

definition first_bundle :: ExecutionBundle where
  "first_bundle = \<lparr>eb_tick = nth_tick 0 0 0, eb_checks = []\<rparr>"

definition second_bundle :: ExecutionBundle where
  "second_bundle = \<lparr>eb_tick = nth_tick 0 0 1, eb_checks = [9]\<rparr>"

lemma first_tick_fields:
  "alive one_booted" "alive first_tick" "pr_scheds one_booted 0 = Some (one_sched [])" "pr_scheds first_tick 0 = Some (one_sched [])"
  "pr_stream one_booted" "pr_stream first_tick" "pr_executor one_booted = new_executor () new_results_producer"
  "pr_executor first_tick = new_executor () new_results_producer"
  by (simp_all add: alive_def first_tick_def tick_of_def one_booted_def put_sched_def start_process_def one_sched_def new_sched_def
      send_all_def new_executor_def)

lemma two_ticks_fields:
  "alive two_ticks" "pr_scheds two_ticks 0 = Some (one_sched [9])" "ex_queue (pr_executor two_ticks) = [second_check]"
  "ex_resolved (pr_executor two_ticks) = []" "pr_lost two_ticks = []" "pr_stream two_ticks" "pr_executing two_ticks"
  "pr_main two_ticks = Serving" "ex_running (pr_executor two_ticks) = []" "ex_submitted (pr_executor two_ticks) = [9]"
  by (simp_all add: two_ticks_def tick_of_def put_sched_def one_sched_def queue_check_def announce_def send_all_def
      first_tick_fields new_executor_def second_check_def alive_def)
    (simp_all add: first_tick_def tick_of_def one_booted_def put_sched_def start_process_def)

lemma first_tick_run:
  "marked_runs (one_env status) (\<lambda>_. 0) () first_tick ((\<lambda>_. new_marker)(0 := send_bundle first_bundle new_marker))"
  using marked_tick [OF one_booted_marked, of 0 "one_sched []" "[]" "nth_tick 0 0 0" "\<lambda>_. 0" status "[]" "pr_executor one_booted"]
  by (simp add: first_tick_fields one_sched_def fresh_channels_def first_tick_def first_bundle_def new_marker_def)

lemma second_tick_run:
  assumes "marked_runs (one_env status) (\<lambda>_. 0) () first_tick m" "mk_sent (m 0) = [first_bundle]"
  shows "marked_runs (one_env status) (\<lambda>_. 0) () two_ticks (m(0 := send_bundle second_bundle (m 0)))"
proof -
  have "schedule_configs (pe_v5 (one_env status)) (cf_region one_conf) (nth_tick 0 0 1) True [(default_check_config, 9)]
      (new_executor () new_results_producer)
    = Some (Inr ([9], queue_check (nth_tick 0 0 1) default_check_config Uptime 9 (new_executor () new_results_producer)))"
    by (simp add: default_check_config_def)
  then show ?thesis
    using marked_tick [OF assms(1), of 0 "one_sched []" "[(default_check_config, 9)]" "nth_tick 0 0 1" "[9]"]
    by (simp add: first_tick_fields one_sched_def fresh_channels_def two_ticks_def second_bundle_def assms(2) new_executor_def)
qed

text \<open>The first tick is written before the second comes.\<close>

lemma written_run:
  "\<exists>m. marked_runs (one_env status) (\<lambda>_. 0) () two_ticks m \<and> mk_stored (m 0) = Some 0 \<and> mk_sent (m 0) = [first_bundle, second_bundle]"
proof -
  let ?k1 = "send_bundle first_bundle new_marker"
  let ?k2 = "take_batch ?k1"
  let ?k3 = "?k2\<lparr>mk_batch := [], mk_last := Some (eb_tick first_bundle)\<rparr>"
  let ?k4 = "?k3\<lparr>mk_last := None, mk_stored := Some (tick_time (eb_tick first_bundle))\<rparr>"
  note f = first_tick_fields(2,4)
  note upd = new_marker_def send_bundle_def take_batch_def HANDLE_BATCH_SIZE_def first_bundle_def
  have p: "sd_processor (one_sched [])" by (simp add: one_sched_def)
  let ?m = "\<lambda>k. (\<lambda>_. new_marker)(0 := k)"
  have 2: "marked_runs (one_env status) (\<lambda>_. 0) () first_tick (?m ?k2)"
    using marked_mark [OF first_tick_run f p, of ?k2] marker_step.recv_many [of ?k1 first_tick] by (simp add: upd)
  have 3: "marked_runs (one_env status) (\<lambda>_. 0) () first_tick (?m ?k3)"
    using marked_mark [OF 2 f p, of ?k3] marker_step.bundle_done [of ?k2 first_bundle "[]" first_tick] by (simp add: upd)
  have 4: "marked_runs (one_env status) (\<lambda>_. 0) () first_tick (?m ?k4)"
    using marked_mark [OF 3 f p, of ?k4] marker_step.written [of ?k3 "eb_tick first_bundle" first_tick]
    by (simp add: upd nth_tick_time i64_min_def i64_max_def seconds_def)
  have "mk_sent ?k4 = [first_bundle]" "mk_stored ?k4 = Some 0" by (simp_all add: upd nth_tick_time seconds_def)
  with second_tick_run [OF 4] show ?thesis by (intro exI [of _ "?m (send_bundle second_bundle ?k4)"]) (simp add: send_bundle_def)
qed

theorem killed_anytime_witness:
  "\<exists>m. marked_runs (one_env Success) (\<lambda>_. 0) () two_ticks m \<and> mk_stored (m 0) = Some 0 \<and>
     scheduler_start (Some 0) (seconds 5) = Inr (seconds 1) \<and>
     (\<exists>k. nth_tick (seconds 1) 0 k = eb_tick second_bundle) \<and> 9 \<notin> fst ` set (ex_resolved (pr_executor two_ticks))"
proof -
  obtain m where m: "marked_runs (one_env Success) (\<lambda>_. 0) () two_ticks m" "mk_stored (m 0) = Some 0"
      "mk_sent (m 0) = [first_bundle, second_bundle]"
    using written_run by blast
  have start: "scheduler_start (Some 0) (seconds 5) = Inr (seconds 1)"
    by (simp add: scheduler_start_def trunc_to_second_def tick_frequency_def seconds_def i64_min_def i64_max_def)
  from killed_anytime [OF m(1) two_ticks_fields(5) _ m(2) start, of second_bundle 9 0] m start show ?thesis
    by (auto simp: second_bundle_def two_ticks_fields(4))
qed

section \<open>A stop that forgets a check\<close>

text \<open>Asked to stop, the executor drops its channel, with the check of the second tick in it, before it starts the check.\<close>

definition dropped :: "(unit, unit) process" where
  "dropped = close_stream (two_ticks\<lparr>pr_main := AwaitEndpoint, pr_executor := cancel (pr_executor two_ticks)\<rparr>)"

definition third_tick :: "(unit, unit) process" where
  "third_tick = tick_of 0 (one_sched [9]) [] (pr_executor dropped) dropped"

definition third_bundle :: ExecutionBundle where
  "third_bundle = \<lparr>eb_tick = nth_tick 0 0 2, eb_checks = []\<rparr>"

lemma dropped_fields:
  "alive dropped" "pr_scheds dropped 0 = Some (one_sched [9])" "pr_lost dropped = [9]" "resolved dropped = {}"
  by (simp_all add: dropped_def close_stream_def cancel_def two_ticks_fields alive_def second_check_def new_scheduled_check_def resolved_def)

lemma third_tick_fields:
  "alive third_tick" "pr_scheds third_tick 0 = Some (one_sched [9])" "pr_lost third_tick = [9]" "resolved third_tick = {}"
  using dropped_fields
  by (simp_all add: third_tick_def tick_of_def put_sched_def send_all_def one_sched_def alive_def resolved_def)

lemma dropped_run:
  assumes "marked_runs (one_env Success) (\<lambda>_. 0) () two_ticks m"
  shows "marked_runs (one_env Success) (\<lambda>_. 0) () dropped m"
proof -
  let ?s = "two_ticks\<lparr>pr_main := AwaitEndpoint, pr_executor := cancel (pr_executor two_ticks)\<rparr>"
  have "main_step two_ticks ?s" by (rule main_step.wake [where w = Terminated]) (simp_all add: two_ticks_fields woken_def)
  then have "process_step (one_env Success) two_ticks ?s" using two_ticks_fields(1) by (intro process_step.main)
  moreover have "\<not> ticks two_ticks ?s" by (auto simp: ticks_def)
  ultimately have run: "marked_runs (one_env Success) (\<lambda>_. 0) () ?s m" by (rule marked_other [OF assms])
  have "executor_task_step (one_env Success) ?s dropped"
    unfolding dropped_def
    by (rule executor_task_step.close) (simp_all add: two_ticks_fields shutdown_def cancel_def has_room_def)
  moreover have "alive ?s" by (simp add: alive_def)
  ultimately have "process_step (one_env Success) ?s dropped" by (intro process_step.executor)
  moreover have "\<not> ticks ?s dropped" by (auto simp: ticks_def dropped_def close_stream_def)
  ultimately show ?thesis by (rule marked_other [OF run])
qed

lemma third_tick_run:
  assumes "marked_runs (one_env Success) (\<lambda>_. 0) () dropped m" "mk_sent (m 0) = [first_bundle, second_bundle]"
  shows "marked_runs (one_env Success) (\<lambda>_. 0) () third_tick (m(0 := send_bundle third_bundle (m 0)))"
  using marked_tick [OF assms(1), of 0 "one_sched [9]" "[]" "nth_tick 0 0 2" "[]" "pr_executor dropped"]
  by (simp add: dropped_fields one_sched_def fresh_channels_def third_tick_def third_bundle_def assms(2) numeral_2_eq_2)

text \<open>
  C22: A stop can forget a check.  There is a run in which nothing fails, the process is asked to stop, and the watermark in Redis
  ends up after a tick of which a check was dropped with the executor's channel: the check is resolved by nobody, and no later process makes up for it.
  (The batch ends at the lost check, but the tick processor goes on with the next one.)
\<close>

theorem stop_forgets_checks:
  "\<exists>s m. marked_runs (one_env Success) (\<lambda>_. 0) () s m \<and> \<not> pe_faults (one_env Success) \<and> alive s \<and>
     mk_stored (m 0) = Some (seconds 2) \<and>
     (\<exists>b \<in> set (mk_sent (m 0)). tick_time (eb_tick b) = seconds 1 \<and> 9 \<in> set (eb_checks b)) \<and>
     9 \<in> set (pr_lost s) \<and> 9 \<notin> fst ` set (ex_resolved (pr_executor s))"
proof -
  let ?m = "\<lambda>k. (\<lambda>_. new_marker)(0 := k)"
  let ?k0 = "send_bundle second_bundle (send_bundle first_bundle new_marker)"
  let ?k1 = "take_batch ?k0"
  let ?k2 = "?k1\<lparr>mk_batch := [second_bundle], mk_last := Some (eb_tick first_bundle)\<rparr>"
  let ?k3 = "?k2\<lparr>mk_batch := [], mk_ended := False\<rparr>"
  let ?k4 = "?k3\<lparr>mk_last := None, mk_stored := Some 0\<rparr>"
  let ?k5 = "send_bundle third_bundle ?k4"
  let ?k6 = "take_batch ?k5"
  let ?k7 = "?k6\<lparr>mk_batch := [], mk_last := Some (eb_tick third_bundle)\<rparr>"
  let ?k8 = "?k7\<lparr>mk_last := None, mk_stored := Some (seconds 2)\<rparr>"
  note upd = new_marker_def send_bundle_def take_batch_def HANDLE_BATCH_SIZE_def
  note bs = first_bundle_def second_bundle_def third_bundle_def
  note d = dropped_fields(1,2) and t = third_tick_fields(1,2)
  have p: "sd_processor (one_sched [9])" by (simp add: one_sched_def)
  have "marked_runs (one_env Success) (\<lambda>_. 0) () two_ticks (?m ?k0)"
    using second_tick_run [OF first_tick_run] by (simp add: upd)
  then have 0: "marked_runs (one_env Success) (\<lambda>_. 0) () dropped (?m ?k0)" by (rule dropped_run)
  have 1: "marked_runs (one_env Success) (\<lambda>_. 0) () dropped (?m ?k1)"
    using marked_mark [OF 0 d p, of ?k1] marker_step.recv_many [of ?k0 dropped] by (simp add: upd)
  have 2: "marked_runs (one_env Success) (\<lambda>_. 0) () dropped (?m ?k2)"
    using marked_mark [OF 1 d p, of ?k2] marker_step.bundle_done [of ?k1 first_bundle "[second_bundle]" dropped] by (simp add: upd bs)
  have 3: "marked_runs (one_env Success) (\<lambda>_. 0) () dropped (?m ?k3)"
    using marked_mark [OF 2 d p, of ?k3] marker_step.check_lost [of ?k2 second_bundle "[]" dropped]
    by (simp add: upd bs dropped_fields)
  have 4: "marked_runs (one_env Success) (\<lambda>_. 0) () dropped (?m ?k4)"
    using marked_mark [OF 3 d p, of ?k4] marker_step.written [of ?k3 "eb_tick first_bundle" dropped]
    by (simp add: upd bs nth_tick_time i64_min_def i64_max_def seconds_def)
  have 5: "marked_runs (one_env Success) (\<lambda>_. 0) () third_tick (?m ?k5)"
    using third_tick_run [OF 4] by (simp add: upd)
  have 6: "marked_runs (one_env Success) (\<lambda>_. 0) () third_tick (?m ?k6)"
    using marked_mark [OF 5 t p, of ?k6] marker_step.recv_many [of ?k5 third_tick] by (simp add: upd)
  have 7: "marked_runs (one_env Success) (\<lambda>_. 0) () third_tick (?m ?k7)"
    using marked_mark [OF 6 t p, of ?k7] marker_step.bundle_done [of ?k6 third_bundle "[]" third_tick] by (simp add: upd bs)
  have 8: "marked_runs (one_env Success) (\<lambda>_. 0) () third_tick (?m ?k8)"
    using marked_mark [OF 7 t p, of ?k8] marker_step.written [of ?k7 "eb_tick third_bundle" third_tick]
    by (simp add: upd bs nth_tick_time i64_min_def i64_max_def seconds_def)
  moreover have "\<exists>b \<in> set (mk_sent ?k8). tick_time (eb_tick b) = seconds 1 \<and> 9 \<in> set (eb_checks b)"
    by (rule bexI [of _ second_bundle]) (simp_all add: upd bs nth_tick_time)
  moreover have "9 \<notin> fst ` set (ex_resolved (pr_executor third_tick))" using third_tick_fields(4) by (simp add: resolved_def)
  ultimately show ?thesis
    using third_tick_fields by (intro exI [of _ third_tick] exI [of _ "?m ?k8"]) (simp add: upd)
qed

end
