(* ===== verification/ConfigTests.thy ===== *)
theory ConfigTests
  imports ConfigProvider
begin

text \<open>
  The unit tests of the check configurations, of their store, of the manager and of the partitions of a checker, replayed on the model: every
  \<open>assert!\<close> of a test is a conjunct of a definition of the same name, and the lemmas prove them.

  The name-based UUIDs in the tests are given by a table with their true values (SHA-1 of the name space and the name).  The tests that look for
  a line of the log have the outcome as their statement, since the log is not part of the model.
\<close>

section \<open>The name-based UUIDs in the tests\<close>

definition v5_table :: "((u128 \<times> u128) \<times> u128) list" where
  "v5_table =
     [((SUBSCRIPTION_SLOT_NAMESPACE, 0), 131432984532610442093537409164159491852),
      ((SUBSCRIPTION_SLOT_NAMESPACE, 64), 273005243636425873514782296084986473260),
      ((SUBSCRIPTION_SLOT_NAMESPACE, 174), 41901387103834486879158714247489563300),
      ((SUBSCRIPTION_SLOT_NAMESPACE, 9382), 259137501125446035260442533487405508800),
      ((SUBSCRIPTION_SLOT_NAMESPACE, 9737), 171974458404517944019854058196789661615),
      ((SUBSCRIPTION_SLOT_NAMESPACE, 15071), 324204259727849425605453904758417088801),
      ((SUBSCRIPTION_SHOULD_RUN_NAMESPACE, 0), 167740747376864361028845225483706889374),
      ((SUBSCRIPTION_SHOULD_RUN_NAMESPACE, 1), 258747126787407162903333399663284716090),
      ((SUBSCRIPTION_SHOULD_RUN_NAMESPACE, 2), 10108594554956747581266417703658639564),
      ((SUBSCRIPTION_SHOULD_RUN_NAMESPACE, 9), 289269739926264330738655303337420531718),
      ((SUBSCRIPTION_SHOULD_RUN_NAMESPACE, 1000000), 167929365113848652986964778682284225249),
      ((SUBSCRIPTION_SHOULD_RUN_NAMESPACE, 1000001), 118837280768721714618680193613069377422),
      ((SUBSCRIPTION_SHOULD_RUN_NAMESPACE, 1000003), 115863372511602916228676116346506265980)]"

definition test_v5 :: uuid_v5 where
  "test_v5 namespace name =
     (case find (\<lambda>((n, u), _). n = namespace \<and> uuid_bytes u = name) v5_table of Some (_, v) \<Rightarrow> v | None \<Rightarrow> 0)"

section \<open>Check configurations\<close>

definition config_with :: "u128 \<Rightarrow> CheckInterval \<Rightarrow> check_config" where
  "config_with u i = default_check_config\<lparr>cc_subscription_id := u, cc_interval := i\<rparr>"

text \<open>\<open>all_slots.skip(first).step_by(n)\<close>.\<close>

definition step_by :: "nat \<Rightarrow> nat \<Rightarrow> nat list" where
  "step_by first n = range_step_by first MAX_CHECK_INTERVAL_SECS n"

definition test_slots :: bool where
  "test_slots \<longleftrightarrow>
     slots test_v5 (config_with 64 OneMinute) = Some (step_by 0 60) \<and>
     slots test_v5 (config_with 15071 SixtyMinutes) = Some [1] \<and>
     slots test_v5 (config_with 174 FiveMinutes) = Some (step_by 0 (60 * 5)) \<and>
     slots test_v5 (config_with 9737 FiveMinutes) = Some (step_by 15 (60 * 5))"

definition test_ids :: "u128 list" where
  "test_ids = [9, 0, 2, 1000000, 1000003, 1000001]"

definition run_interval_test :: "check_config \<Rightarrow> int \<Rightarrow> int \<Rightarrow> int \<Rightarrow> int \<Rightarrow> string list \<Rightarrow> bool" where
  "run_interval_test base_config interval interval_count offset_type offset_count should_run_order \<longleftrightarrow>
     (let tick = from_time (seconds (interval * interval_count + offset_type * offset_count))
      in list_all (\<lambda>(i, subscription_id).
           (let config = base_config\<lparr>cc_subscription_id := subscription_id\<rparr>;
                expected_region = should_run_order ! (i mod length should_run_order)
            in should_run test_v5 config tick expected_region = Some True \<and>
               list_all (\<lambda>other_region. should_run test_v5 config tick other_region = Some False)
                 (filter (\<lambda>r. r \<noteq> expected_region) should_run_order)))
         (enumerate 0 test_ids))"

definition round_robin :: "u128 \<Rightarrow> CheckInterval \<Rightarrow> string list \<Rightarrow> check_config" where
  "round_robin u i regions =
     (config_with u i)\<lparr>cc_active_regions := Some regions, cc_region_schedule_mode := Some RoundRobin\<rparr>"

definition test_should_run :: "datetime \<Rightarrow> bool" where
  "test_should_run now \<longleftrightarrow>
     (let tick = from_time now;
          multi_region_config = round_robin 0 OneMinute [''us_west'', ''us_east'', ''eu_west''];
          large_interval = round_robin 0 TwentyMinutes [''us_west'', ''us_east'', ''eu_west'']
      in should_run test_v5 default_check_config tick ''us_west'' = Some True \<and>
         should_run test_v5 (default_check_config\<lparr>cc_region_schedule_mode := Some RoundRobin\<rparr>) tick ''us_west'' = Some True \<and>
         should_run test_v5 (default_check_config\<lparr>cc_active_regions := Some [''us_west'', ''us_east'']\<rparr>) tick ''us_west'' = Some True \<and>
         should_run test_v5 (round_robin 0 OneMinute []) tick ''us_west'' = Some True \<and>
         should_run test_v5 (round_robin 1 OneMinute []) tick ''us_west'' = Some True \<and>
         should_run test_v5 (round_robin 0 OneMinute [''us_west'']) (from_time (seconds 1)) ''us_west'' = Some True \<and>
         should_run test_v5 (round_robin 0 OneMinute [''us_west'']) (from_time (seconds 61)) ''us_west'' = Some True \<and>
         should_run test_v5 (round_robin 1 OneMinute [''us_west'']) (from_time (seconds 1)) ''us_west'' = Some True \<and>
         should_run test_v5 (round_robin 1 OneMinute [''us_west'']) (from_time (seconds 61)) ''us_west'' = Some True \<and>
         should_run test_v5 (round_robin 0 OneMinute [''us_west'']) (from_time (seconds 1)) ''other_region'' = Some False \<and>
         should_run test_v5 (round_robin 0 OneMinute [''us_west'']) (from_time (seconds 61)) ''other_region'' = Some False \<and>
         should_run test_v5 (round_robin 1 OneMinute [''us_west'']) (from_time (seconds 1)) ''other_region'' = Some False \<and>
         should_run test_v5 (round_robin 1 OneMinute [''us_west'']) (from_time (seconds 61)) ''other_region'' = Some False \<and>
         run_interval_test multi_region_config 60 0 1 1 [''us_west'', ''us_east'', ''eu_west''] \<and>
         run_interval_test multi_region_config 60 1 1 1 [''us_east'', ''eu_west'', ''us_west''] \<and>
         run_interval_test multi_region_config 60 2 1 1 [''eu_west'', ''us_west'', ''us_east''] \<and>
         run_interval_test multi_region_config 60 3 1 1 [''us_west'', ''us_east'', ''eu_west''] \<and>
         run_interval_test multi_region_config 60 0 1 29 [''us_west'', ''us_east'', ''eu_west''] \<and>
         run_interval_test multi_region_config 60 0 1 59 [''us_west'', ''us_east'', ''eu_west''] \<and>
         run_interval_test multi_region_config 60 1 1 23 [''us_east'', ''eu_west'', ''us_west''] \<and>
         run_interval_test multi_region_config 60 1 1 59 [''us_east'', ''eu_west'', ''us_west''] \<and>
         run_interval_test multi_region_config 60 2 1 25 [''eu_west'', ''us_west'', ''us_east''] \<and>
         run_interval_test multi_region_config 60 2 1 51 [''eu_west'', ''us_west'', ''us_east''] \<and>
         run_interval_test multi_region_config 60 3 1 20 [''us_west'', ''us_east'', ''eu_west''] \<and>
         run_interval_test multi_region_config 60 3 1 40 [''us_west'', ''us_east'', ''eu_west''] \<and>
         run_interval_test multi_region_config 60 12345 60 0 [''us_west'', ''us_east'', ''eu_west''] \<and>
         run_interval_test multi_region_config 60 12345 60 1 [''us_east'', ''eu_west'', ''us_west''] \<and>
         run_interval_test multi_region_config 60 12345 60 2 [''eu_west'', ''us_west'', ''us_east''] \<and>
         run_interval_test multi_region_config 60 12345 60 3 [''us_west'', ''us_east'', ''eu_west''] \<and>
         run_interval_test large_interval (60 * 20) 0 60 0 [''us_west'', ''us_east'', ''eu_west''] \<and>
         run_interval_test large_interval (60 * 20) 1 60 5 [''us_east'', ''eu_west'', ''us_west''] \<and>
         run_interval_test large_interval (60 * 20) 2 60 10 [''eu_west'', ''us_west'', ''us_east''] \<and>
         run_interval_test large_interval (60 * 20) 3 60 11 [''us_west'', ''us_east'', ''eu_west''] \<and>
         run_interval_test large_interval (60 * 60) 13423 60 15 [''us_west'', ''us_east'', ''eu_west''] \<and>
         run_interval_test large_interval (60 * 60) 13423 60 39 [''us_east'', ''eu_west'', ''us_west''] \<and>
         run_interval_test large_interval (60 * 60) 13423 60 40 [''eu_west'', ''us_west'', ''us_east''] \<and>
         run_interval_test large_interval (60 * 60) 13423 60 59 [''eu_west'', ''us_west'', ''us_east''] \<and>
         run_interval_test large_interval (60 * 60) 13423 60 60 [''us_west'', ''us_east'', ''eu_west''])"

section \<open>The store\<close>

definition test_tick_for_time :: bool where
  "test_tick_for_time \<longleftrightarrow>
     tick_index (from_time (seconds 0)) = 0 \<and>
     tick_index (from_time (seconds 60)) = 60 \<and>
     tick_index (from_time (seconds (60 * 60))) = 0 \<and>
     tick_index (from_time (seconds (60 * 60 * 24))) = 0"

definition slot_at :: "ConfigStore \<Rightarrow> nat \<Rightarrow> check_config set" where
  "slot_at store i = tick_buckets store ! i"

definition minute_slots :: "nat list" where
  "minute_slots = map (\<lambda>c. 60 * c) [0..<60]"

definition test_add_config :: "instant \<Rightarrow> instant \<Rightarrow> bool" where
  "test_add_config now1 now2 \<longleftrightarrow>
     (let config = config_with 64 OneMinute; five_minute_config = config_with 9382 FiveMinutes
      in case add_config test_v5 now1 config new_store of
           None \<Rightarrow> False
         | Some store \<Rightarrow>
             card (dom (configs store)) = 1 \<and> card (slot_at store 0) = 1 \<and> card (slot_at store 60) = 1 \<and>
             (case add_config test_v5 now2 five_minute_config store of
                None \<Rightarrow> False
              | Some store \<Rightarrow>
                  card (dom (configs store)) = 2 \<and>
                  (\<forall>slot\<in>set minute_slots.
                     config \<in> slot_at store slot \<and>
                     (if slot mod 300 = 0 then card (slot_at store slot) = 2 \<and> five_minute_config \<in> slot_at store slot
                      else card (slot_at store slot) = 1))))"

definition test_add_duplicate_config :: "instant \<Rightarrow> instant \<Rightarrow> bool" where
  "test_add_duplicate_config now1 now2 \<longleftrightarrow>
     (let config = config_with 174 OneMinute
      in case add_config test_v5 now1 config new_store of
           None \<Rightarrow> False
         | Some store \<Rightarrow>
             (\<forall>slot\<in>set minute_slots. card (slot_at store slot) = 1 \<and> config \<in> slot_at store slot) \<and>
             (let config = config_with 174 FiveMinutes
              in case add_config test_v5 now2 config store of
                   None \<Rightarrow> False
                 | Some store \<Rightarrow>
                     (\<forall>slot\<in>set minute_slots.
                        if slot mod 300 = 0 then card (slot_at store slot) = 1 \<and> config \<in> slot_at store slot
                        else card (slot_at store slot) = 0)))"

definition test_remove_config :: "(nat \<Rightarrow> instant) \<Rightarrow> bool" where
  "test_remove_config now \<longleftrightarrow>
     (let config = default_check_config; five_minute_config = config_with 9382 FiveMinutes
      in case Option.bind (Option.bind (add_config test_v5 (now 0) config new_store)
                (add_config test_v5 (now 1) five_minute_config))
                (remove_config test_v5 (now 2) (cc_subscription_id config)) of
           None \<Rightarrow> False
         | Some store \<Rightarrow>
             card (dom (configs store)) = 1 \<and> card (slot_at store 0) = 1 \<and> card (slot_at store 60) = 0 \<and>
             card (slot_at store (60 * 5)) = 1 \<and>
             (case remove_config test_v5 (now 3) (cc_subscription_id five_minute_config) store of
                None \<Rightarrow> False
              | Some store \<Rightarrow>
                  card (dom (configs store)) = 0 \<and> card (slot_at store 0) = 0 \<and> card (slot_at store (60 * 5)) = 0))"

definition test_get_configs :: "(nat \<Rightarrow> instant) \<Rightarrow> datetime \<Rightarrow> bool" where
  "test_get_configs now time \<longleftrightarrow>
     (let config = config_with 64 OneMinute; five_minute_config = config_with 9382 FiveMinutes
      in case Option.bind (add_config test_v5 (now 0) config new_store)
                (add_config test_v5 (now 1) five_minute_config) of
           None \<Rightarrow> False
         | Some store \<Rightarrow>
             (case get_configs \<lparr>tick_index = 0, tick_time = time\<rparr> store of
                None \<Rightarrow> False
              | Some found \<Rightarrow> card found = 2 \<and> config \<in> found \<and> five_minute_config \<in> found) \<and>
             get_configs \<lparr>tick_index = 1, tick_time = time\<rparr> store = Some {})"

definition test_last_update :: "instant \<Rightarrow> bool" where
  "test_last_update now \<longleftrightarrow>
     get_last_update new_store = None \<and>
     (case add_config test_v5 now default_check_config new_store of
        None \<Rightarrow> False
      | Some store \<Rightarrow>
          get_last_update store = Some now \<and>
          (let now = now + seconds 1
           in case remove_config test_v5 now (cc_subscription_id default_check_config) store of
                None \<Rightarrow> False
              | Some store \<Rightarrow> get_last_update store = Some now))"

section \<open>Partitions of a checker\<close>

definition run_determine_owned_partition_test :: "u16 \<Rightarrow> u16 \<Rightarrow> u16 \<Rightarrow> u16 list \<Rightarrow> bool" where
  "run_determine_owned_partition_test total_partitions checker_number total_pods expected_partitions \<longleftrightarrow>
     determine_owned_partitions
       (default_config\<lparr>cf_config_provider_redis_total_partitions := total_partitions,
          cf_checker_number := checker_number, cf_total_checkers := total_pods\<rparr>)
     = Some (set expected_partitions)"

definition test_determine_owned_partitions :: bool where
  "test_determine_owned_partitions \<longleftrightarrow>
     run_determine_owned_partition_test 2 0 1 [0, 1] \<and>
     run_determine_owned_partition_test 2 0 2 [0] \<and>
     run_determine_owned_partition_test 2 1 2 [1] \<and>
     run_determine_owned_partition_test 100 1 10 [1, 11, 21, 31, 41, 51, 61, 71, 81, 91] \<and>
     run_determine_owned_partition_test 100 9 10 [9, 19, 29, 39, 49, 59, 69, 79, 89, 99]"

definition test_determine_owned_partitions_checker_number_too_high :: bool where
  "test_determine_owned_partitions_checker_number_too_high \<longleftrightarrow>
     determine_owned_partitions
       (default_config\<lparr>cf_config_provider_redis_total_partitions := 2, cf_checker_number := 1, cf_total_checkers := 1\<rparr>) = None"

section \<open>The manager\<close>

text \<open>A manager whose stopped services somebody receives, and does nothing with; \<open>None\<close> is a panic of the test.\<close>

definition start_without_consumer :: "Config \<Rightarrow> unit Manager" where
  "start_without_consumer conf = new_manager conf"

definition registered :: "u16 \<Rightarrow> unit Manager option" where
  "registered part = register_partition plain_redis part (start_without_consumer default_config)"

definition service_number :: "u16 \<Rightarrow> unit Manager \<Rightarrow> u16 option" where
  "service_number part m = map_option (\<lambda>(svc, _). ps_partition svc) (get_service part m)"

definition test_manager_get_service :: bool where
  "test_manager_get_service \<longleftrightarrow> Option.bind (registered 0) (service_number 0) = Some 0"

definition test_manager_get_service_fail :: bool where
  "test_manager_get_service_fail \<longleftrightarrow> registered 0 \<noteq> None \<and> Option.bind (registered 0) (get_service 1) = None"

definition test_manager_register_partition :: bool where
  "test_manager_register_partition \<longleftrightarrow> Option.bind (registered 1) (service_number 1) = Some 1"

definition test_manager_double_register_partition :: bool where
  "test_manager_double_register_partition \<longleftrightarrow>
     registered 1 \<noteq> None \<and> Option.bind (registered 1) (register_partition plain_redis 1) = registered 1"

definition test_manager_unregister_partition :: bool where
  "test_manager_unregister_partition \<longleftrightarrow>
     (case Option.bind (registered 0) (unregister_partition 0) of None \<Rightarrow> False | Some m \<Rightarrow> get_service 0 m = None)"

definition test_manager_unregister_unregistered_partition :: bool where
  "test_manager_unregister_unregistered_partition \<longleftrightarrow>
     (let m = start_without_consumer default_config in unregister_partition 1 m = Some m)"

text \<open>A reference that \<open>get_service\<close> gives is dropped at the end of the closure.\<close>

definition test_manager_update_partitions :: "(u16 set \<Rightarrow> u16 list) \<Rightarrow> bool" where
  "test_manager_update_partitions ord \<longleftrightarrow>
     (let new_partitions = {0, 1, 2, 3}; updated_partitions = {1, 3}
      in case Option.bind (registered 0) (update_partitions plain_redis ord new_partitions) of
           None \<Rightarrow> False
         | Some m \<Rightarrow>
             (\<forall>part\<in>new_partitions. service_number part m = Some part) \<and>
             (case update_partitions plain_redis ord updated_partitions m of
                None \<Rightarrow> False
              | Some m \<Rightarrow>
                  (\<forall>part\<in>updated_partitions. service_number part m = Some part) \<and>
                  (\<forall>part\<in>new_partitions - updated_partitions. \<not> has_service part m)))"

section \<open>The tests of the configurations pass\<close>

lemma test_v5_values:
  "test_v5 SUBSCRIPTION_SLOT_NAMESPACE (uuid_bytes 0) = 131432984532610442093537409164159491852"
  "test_v5 SUBSCRIPTION_SLOT_NAMESPACE (uuid_bytes 64) = 273005243636425873514782296084986473260"
  "test_v5 SUBSCRIPTION_SLOT_NAMESPACE (uuid_bytes 174) = 41901387103834486879158714247489563300"
  "test_v5 SUBSCRIPTION_SLOT_NAMESPACE (uuid_bytes 9382) = 259137501125446035260442533487405508800"
  "test_v5 SUBSCRIPTION_SLOT_NAMESPACE (uuid_bytes 9737) = 171974458404517944019854058196789661615"
  "test_v5 SUBSCRIPTION_SLOT_NAMESPACE (uuid_bytes 15071) = 324204259727849425605453904758417088801"
  "test_v5 SUBSCRIPTION_SHOULD_RUN_NAMESPACE (uuid_bytes 0) = 167740747376864361028845225483706889374"
  "test_v5 SUBSCRIPTION_SHOULD_RUN_NAMESPACE (uuid_bytes 1) = 258747126787407162903333399663284716090"
  "test_v5 SUBSCRIPTION_SHOULD_RUN_NAMESPACE (uuid_bytes 2) = 10108594554956747581266417703658639564"
  "test_v5 SUBSCRIPTION_SHOULD_RUN_NAMESPACE (uuid_bytes 9) = 289269739926264330738655303337420531718"
  "test_v5 SUBSCRIPTION_SHOULD_RUN_NAMESPACE (uuid_bytes 1000000) = 167929365113848652986964778682284225249"
  "test_v5 SUBSCRIPTION_SHOULD_RUN_NAMESPACE (uuid_bytes 1000001) = 118837280768721714618680193613069377422"
  "test_v5 SUBSCRIPTION_SHOULD_RUN_NAMESPACE (uuid_bytes 1000003) = 115863372511602916228676116346506265980"
  by code_simp+

lemma test_slots_passes: test_slots
  by (simp add: test_slots_def step_by_def range_step_by.simps first_slot_def config_with_def default_check_config_def test_v5_values, code_simp)

text \<open>Whose turn it is, as arithmetic on natural numbers.\<close>

lemma turn_of_round_robin:
  fixes u :: u128
  assumes "seed = unat (test_v5 SUBSCRIPTION_SHOULD_RUN_NAMESPACE (uuid_bytes u))" "0 \<le> s"
    "seed + nat (s div int (interval_secs i)) < 2 ^ 128" "rs \<noteq> []"
  shows "should_run test_v5 (round_robin u i rs) (from_time (seconds s)) r =
    Some (rs ! ((seed + nat (s div int (interval_secs i))) mod length rs) = r)"
proof -
  have c: "cc_subscription_id (round_robin u i rs) = u" "cc_interval (round_robin u i rs) = i"
      "cc_region_schedule_mode (round_robin u i rs) = Some RoundRobin" "cc_active_regions (round_robin u i rs) = Some rs"
    by (simp_all add: round_robin_def config_with_def)
  have "unat (region_turn test_v5 (round_robin u i rs) (from_time (seconds s))) = seed + nat (s div int (interval_secs i))"
    using region_turn_seconds [of s test_v5 "round_robin u i rs"] assms(2,3) by (simp add: c assms(1))
  then show ?thesis using should_run_scheduled [OF c(3,4) assms(4)] by simp
qed

lemma rotate_2: "rotate 2 [a, b, c] = [c, a, b]"
  by (simp add: numeral_2_eq_2)

text \<open>The three regions take turns; in interval \<open>n\<close> the first identifier has the region \<open>n mod 3\<close>.\<close>

lemma run_interval_test_round_robin:
  assumes s: "0 \<le> interval * interval_count + offset_type * offset_count"
    and n: "n = nat ((interval * interval_count + offset_type * offset_count) div int (interval_secs i))" "n < 2 ^ 64"
    and order: "a \<noteq> b" "b \<noteq> c" "c \<noteq> a" "rs = rotate (n mod 3) [a, b, c]"
  shows "run_interval_test (round_robin u i [a, b, c]) interval interval_count offset_type offset_count rs"
proof -
  have u: "(round_robin u i [a, b, c])\<lparr>cc_subscription_id := v\<rparr> = round_robin v i [a, b, c]" for v
    by (simp add: round_robin_def config_with_def)
  define s where "s = interval * interval_count + offset_type * offset_count"
  have turn: "should_run test_v5 (round_robin v i [a, b, c]) (from_time (seconds s)) r =
      Some ([a, b, c] ! ((unat (test_v5 SUBSCRIPTION_SHOULD_RUN_NAMESPACE (uuid_bytes v)) mod 3 + n mod 3) mod 3) = r)"
    if "unat (test_v5 SUBSCRIPTION_SHOULD_RUN_NAMESPACE (uuid_bytes v)) + 2 ^ 64 \<le> 2 ^ 128" for v r
    using turn_of_round_robin [OF refl, of s v i "[a, b, c]" r] that assms(1,3) n
    by (simp add: s_def n mod_add_eq)
  have "n mod 3 = 0 \<or> n mod 3 = 1 \<or> n mod 3 = 2" by presburger
  then have "n mod 3 = 0 \<and> rs = [a, b, c] \<or> n mod 3 = 1 \<and> rs = [b, c, a] \<or> n mod 3 = 2 \<and> rs = [c, a, b]"
    unfolding order(4) by (elim disjE) (simp_all add: rotate_2)
  then show ?thesis
    unfolding run_interval_test_def Let_def s_def [symmetric] u
    using order(1-3) by (elim disjE conjE) (simp_all add: test_ids_def test_v5_values turn)
qed

lemma regions_differ [simp]: "''us_west'' \<noteq> ''us_east''" "''us_east'' \<noteq> ''eu_west''" "''eu_west'' \<noteq> ''us_west''"
  by simp_all

lemma test_should_run_passes: "test_should_run now"
proof -
  note turns = run_interval_test_round_robin [OF _ refl]
  have one: "should_run test_v5 (round_robin v i [a]) t r = Some (a = r)" for v i a t r
    by (simp add: should_run_scheduled round_robin_def config_with_def)
  have none: "should_run test_v5 (round_robin v i []) t r = Some True" for v i t r
    by (simp add: should_run_def round_robin_def config_with_def)
  have unset: "cc_active_regions k = None \<Longrightarrow> should_run v5 k t r = Some True" for v5 k t r
    by (simp add: should_run_def)
  show ?thesis
    unfolding test_should_run_def Let_def
    by (intro conjI turns) (simp_all add: one none unset rotate_2 default_check_config_def)
qed

section \<open>The tests of the store pass\<close>

text \<open>The store holds the configurations of a list.\<close>

definition stores :: "check_config list \<Rightarrow> ConfigStore \<Rightarrow> bool" where
  "stores cs s \<longleftrightarrow> store_inv test_v5 s \<and> distinct (map cc_subscription_id cs) \<and>
     configs s = map_of (map (\<lambda>c. (cc_subscription_id c, c)) cs)"

lemma stores_new: "stores [] new_store"
  by (simp add: stores_def store_inv_new) (simp add: new_store_def)

lemma map_of_remove:
  "(map_of (map (\<lambda>c. (key c, c)) cs))(k := None) = map_of (map (\<lambda>c. (key c, c)) (filter (\<lambda>c. key c \<noteq> k) cs))"
proof
  show "((map_of (map (\<lambda>c. (key c, c)) cs))(k := None)) x = map_of (map (\<lambda>c. (key c, c)) (filter (\<lambda>c. key c \<noteq> k) cs)) x" for x
    by (induction cs) auto
qed

lemma stores_add:
  assumes "stores cs s"
  obtains s' where "add_config test_v5 now c s = Some s'" "last_update s' = Some now"
    "stores (c # filter (\<lambda>d. cc_subscription_id d \<noteq> cc_subscription_id c) cs) s'"
proof -
  from assms have s: "store_inv test_v5 s" "distinct (map cc_subscription_id cs)"
      "configs s = map_of (map (\<lambda>c. (cc_subscription_id c, c)) cs)"
    by (simp_all add: stores_def)
  obtain s' where s': "add_config test_v5 now c s = Some s'" "store_inv test_v5 s'"
      "configs s' = (configs s)(cc_subscription_id c \<mapsto> c)" "last_update s' = Some now"
    by (rule add_config_ok [OF s(1)])
  have "configs s' = ((configs s)(cc_subscription_id c := None))(cc_subscription_id c \<mapsto> c)" by (simp add: s'(3))
  also have "\<dots> = map_of (map (\<lambda>c. (cc_subscription_id c, c)) (c # filter (\<lambda>d. cc_subscription_id d \<noteq> cc_subscription_id c) cs))"
    unfolding s(3) map_of_remove by simp
  finally show thesis
    using s'(1,2,4) s(2) by (intro that) (auto simp: stores_def distinct_map_filter)
qed

lemma stores_remove:
  assumes "stores cs s" "k \<in> cc_subscription_id ` set cs"
  obtains s' where "remove_config test_v5 now k s = Some s'" "last_update s' = Some now"
    "stores (filter (\<lambda>d. cc_subscription_id d \<noteq> k) cs) s'"
proof -
  from assms(1) have s: "store_inv test_v5 s" "distinct (map cc_subscription_id cs)"
      "configs s = map_of (map (\<lambda>c. (cc_subscription_id c, c)) cs)"
    by (simp_all add: stores_def)
  obtain s' where s': "remove_config test_v5 now k s = Some s'" "store_inv test_v5 s'"
      "configs s' = (configs s)(k := None)"
      "last_update s' = (if configs s k = None then last_update s else Some now)"
    by (rule remove_config_ok [OF s(1)])
  have "configs s k \<noteq> None" using assms(2) by (simp add: s(3) map_of_eq_None_iff image_image)
  then have "last_update s' = Some now" by (simp only: s'(4) if_False)
  moreover have "stores (filter (\<lambda>d. cc_subscription_id d \<noteq> k) cs) s'"
    unfolding stores_def s'(3) s(3) map_of_remove using s'(2) distinct_map_filter [OF s(2)] by (intro conjI refl)
  ultimately show thesis using s'(1) by (intro that)
qed

lemma stores_dom: "stores cs s \<Longrightarrow> card (dom (configs s)) = length cs"
  by (simp add: stores_def dom_map_of_conv_image_fst image_image distinct_map card_image distinct_card)

lemma stores_slot:
  assumes "stores cs s" "j < 3600"
  shows "slot_at s j = set (filter (\<lambda>c. j mod interval_secs (cc_interval c) = first_slot test_v5 c) cs)"
proof -
  from assms(1) have s: "store_inv test_v5 s" "distinct (map cc_subscription_id cs)"
      "configs s = map_of (map (\<lambda>c. (cc_subscription_id c, c)) cs)"
    by (simp_all add: stores_def)
  have "configs s (cc_subscription_id c) = Some c \<longleftrightarrow> c \<in> set cs" for c
    unfolding s(3) using s(2) by (subst map_of_eq_Some_iff) (auto simp: comp_def)
  then show ?thesis
    using store_inv_buckets [OF s(1)] assms(2) by (auto simp: slot_at_def slot_of_def)
qed

lemma stores_slot_card:
  assumes "stores cs s" "j < 3600"
  shows "card (slot_at s j) = length (filter (\<lambda>c. j mod interval_secs (cc_interval c) = first_slot test_v5 c) cs)"
proof -
  have "distinct cs" using assms(1) by (auto simp: stores_def distinct_map)
  then show ?thesis unfolding stores_slot [OF assms] by (intro distinct_card) simp
qed

lemma first_slots [simp]:
  "first_slot test_v5 (config_with 64 OneMinute) = 0" "first_slot test_v5 (config_with 174 OneMinute) = 0"
  "first_slot test_v5 (config_with 174 FiveMinutes) = 0" "first_slot test_v5 (config_with 9382 FiveMinutes) = 0"
  "first_slot test_v5 default_check_config = 52"
  by (simp_all add: first_slot_def config_with_def default_check_config_def test_v5_values)

lemma config_with_sel [simp]:
  "cc_subscription_id (config_with u i) = u" "cc_interval (config_with u i) = i"
  "config_with u i = config_with v j \<longleftrightarrow> u = v \<and> i = j"
  "cc_subscription_id default_check_config = 0" "cc_interval default_check_config = OneMinute"
  by (auto simp: config_with_def default_check_config_def)

lemma minute_slotsD: "slot \<in> set minute_slots \<Longrightarrow> slot < 3600 \<and> slot mod 60 = 0"
  by (auto simp: minute_slots_def)

lemma test_tick_for_time_passes: test_tick_for_time
  by (simp add: test_tick_for_time_def from_time_def)

lemma test_add_config_passes: "test_add_config now1 now2"
proof -
  obtain s1 where s1: "add_config test_v5 now1 (config_with 64 OneMinute) new_store = Some s1" "stores [config_with 64 OneMinute] s1"
    by (rule stores_add [OF stores_new]) simp
  obtain s2 where s2: "add_config test_v5 now2 (config_with 9382 FiveMinutes) s1 = Some s2"
      "stores [config_with 9382 FiveMinutes, config_with 64 OneMinute] s2"
    by (rule stores_add [OF s1(2), where now = "now2" and c = "config_with 9382 FiveMinutes"]) simp
  show ?thesis
    by (simp add: test_add_config_def s1(1) s2(1) stores_dom [OF s1(2)] stores_dom [OF s2(2)] stores_slot [OF s1(2)]
      stores_slot_card [OF s1(2)] stores_slot [OF s2(2)] stores_slot_card [OF s2(2)] minute_slotsD card_insert_if Let_def)
qed

lemma test_add_duplicate_config_passes: "test_add_duplicate_config now1 now2"
proof -
  obtain s1 where s1: "add_config test_v5 now1 (config_with 174 OneMinute) new_store = Some s1" "stores [config_with 174 OneMinute] s1"
    by (rule stores_add [OF stores_new]) simp
  obtain s2 where s2: "add_config test_v5 now2 (config_with 174 FiveMinutes) s1 = Some s2" "stores [config_with 174 FiveMinutes] s2"
    by (rule stores_add [OF s1(2), where now = "now2" and c = "config_with 174 FiveMinutes"]) simp
  show ?thesis
    by (simp add: test_add_duplicate_config_def s1(1) s2(1) stores_slot [OF s1(2)] stores_slot_card [OF s1(2)]
      stores_slot [OF s2(2)] stores_slot_card [OF s2(2)] minute_slotsD)
qed

lemma test_remove_config_passes: "test_remove_config now"
proof -
  obtain s1 where s1: "add_config test_v5 (now 0) default_check_config new_store = Some s1" "stores [default_check_config] s1"
    by (rule stores_add [OF stores_new]) simp
  obtain s2 where s2: "add_config test_v5 (now (Suc 0)) (config_with 9382 FiveMinutes) s1 = Some s2"
      "stores [config_with 9382 FiveMinutes, default_check_config] s2"
    by (rule stores_add [OF s1(2), where now = "now (Suc 0)" and c = "config_with 9382 FiveMinutes"]) simp
  obtain s3 where s3: "remove_config test_v5 (now 2) 0 s2 = Some s3" "stores [config_with 9382 FiveMinutes] s3"
    by (rule stores_remove [OF s2(2), of 0]) simp_all
  obtain s4 where s4: "remove_config test_v5 (now 3) 9382 s3 = Some s4" "stores [] s4"
    by (rule stores_remove [OF s3(2), of 9382]) simp_all
  show ?thesis
    by (simp add: test_remove_config_def Let_def s1(1) s2(1) s3(1) s4(1) stores_dom [OF s3(2)] stores_dom [OF s4(2)]
      stores_slot_card [OF s3(2)] stores_slot_card [OF s4(2)])
qed

lemma test_get_configs_passes: "test_get_configs now time"
proof -
  obtain s1 where s1: "add_config test_v5 (now 0) (config_with 64 OneMinute) new_store = Some s1" "stores [config_with 64 OneMinute] s1"
    by (rule stores_add [OF stores_new]) simp
  obtain s2 where s2: "add_config test_v5 (now (Suc 0)) (config_with 9382 FiveMinutes) s1 = Some s2"
      "stores [config_with 9382 FiveMinutes, config_with 64 OneMinute] s2"
    by (rule stores_add [OF s1(2), where now = "now (Suc 0)" and c = "config_with 9382 FiveMinutes"]) simp
  have "length (tick_buckets s2) = 3600" using s2(2) store_inv_length unfolding stores_def by blast
  then have "get_configs \<lparr>tick_index = i, tick_time = time\<rparr> s2 = Some (slot_at s2 i)" if "i < 3600" for i
    using that by (simp add: get_configs_def slot_at_def)
  from this [of 0] this [of "Suc 0"] show ?thesis
    by (simp add: test_get_configs_def Let_def s1(1) s2(1) stores_slot [OF s2(2)])
qed

lemma test_last_update_passes: "test_last_update now"
proof -
  obtain s1 where s1: "add_config test_v5 now default_check_config new_store = Some s1" "last_update s1 = Some now"
      "stores [default_check_config] s1"
    by (rule stores_add [OF stores_new]) simp
  obtain s2 where s2: "remove_config test_v5 (now + seconds 1) 0 s1 = Some s2" "last_update s2 = Some (now + seconds 1)"
    by (rule stores_remove [OF s1(3), of 0]) simp_all
  show ?thesis
    by (simp add: test_last_update_def Let_def s1(1,2) s2 get_last_update_def) (simp add: new_store_def)
qed

section \<open>The tests of the partitions and of the manager pass\<close>

lemma test_determine_owned_partitions_passes: test_determine_owned_partitions
  by (simp add: test_determine_owned_partitions_def run_determine_owned_partition_test_def determine_owned_partitions_def
    range_step_by.simps word_le_nat_alt)

lemma too_high_passes: test_determine_owned_partitions_checker_number_too_high
  by (simp add: test_determine_owned_partitions_checker_number_too_high_def determine_owned_partitions_def)

lemma registered_ok:
  obtains m svc where "registered p = Some m" "mg_services m = [p \<mapsto> svc]" "ps_partition svc = p" "ps_refs svc = 0"
    "manager_ok plain_redis m"
proof -
  have ok: "manager_ok plain_redis (new_manager default_config)" by (rule plain_manager_ok)
  then obtain svc where svc: "start_service plain_redis default_config p = Some svc"
    using manager_ok_start [OF ok, of p] by (auto simp: new_manager_def)
  let ?m = "(new_manager default_config)\<lparr>mg_services := [p \<mapsto> svc]\<rparr>"
  have "registered p = Some ?m"
    by (simp add: registered_def start_without_consumer_def register_partition_def new_manager_def svc)
  moreover have "ps_partition svc = p" "ps_refs svc = 0" using started_service [OF svc] by simp_all
  moreover have "manager_ok plain_redis ?m"
    using ok \<open>ps_refs svc = 0\<close> by (simp add: manager_ok_def new_manager_def)
  ultimately show thesis by (intro that [of ?m svc]) simp_all
qed

lemma manager_tests:
  test_manager_get_service test_manager_get_service_fail test_manager_register_partition test_manager_double_register_partition
  test_manager_unregister_partition test_manager_unregister_unregistered_partition
proof -
  obtain m0 svc0 where m0: "registered 0 = Some m0" "mg_services m0 = [0 \<mapsto> svc0]" "ps_partition svc0 = 0" "ps_refs svc0 = 0"
      "manager_ok plain_redis m0" by (rule registered_ok)
  obtain m1 svc1 where m1: "registered 1 = Some m1" "mg_services m1 = [1 \<mapsto> svc1]" "ps_partition svc1 = 1" by (rule registered_ok)
  show test_manager_get_service test_manager_get_service_fail test_manager_register_partition
      test_manager_double_register_partition test_manager_unregister_partition
    using m0(5)
    by (simp_all add: test_manager_get_service_def test_manager_get_service_fail_def test_manager_register_partition_def
      test_manager_double_register_partition_def test_manager_unregister_partition_def m0 m1 service_number_def get_service_def
      register_partition_def unregister_partition_def manager_ok_def Let_def)
  show test_manager_unregister_unregistered_partition
    by (simp add: test_manager_unregister_unregistered_partition_def start_without_consumer_def new_manager_def
      unregister_partition_def)
qed

text \<open>Every service has the number it is registered under, before and after an update.\<close>

lemma service_numbers_update:
  assumes "iteration_order ord" "manager_ok plain_redis m" "update_partitions plain_redis ord new m = Some m'"
    "\<forall>p svc. mg_services m p = Some svc \<longrightarrow> ps_partition svc = p"
  shows "\<forall>p svc. mg_services m' p = Some svc \<longrightarrow> ps_partition svc = p"
  using assms(3,4) started_service [of plain_redis "mg_config m"] unfolding update_partitions_eq [OF assms(1,2)]
  by (auto simp: map_add_def restrict_map_def split: option.splits if_splits)

lemma service_number_known:
  assumes "\<forall>p svc. mg_services m p = Some svc \<longrightarrow> ps_partition svc = p" "part \<in> dom (mg_services m)"
  shows "service_number part m = Some part"
  using assms by (auto simp: service_number_def get_service_def Let_def)

lemma update_ok:
  assumes "iteration_order ord" "manager_ok lib m"
  obtains m' where "update_partitions lib ord new m = Some m'" "manager_ok lib m'" "dom (mg_services m') = new"
  using manager_ok_update [OF assms update_partitions_eq [OF assms, of new]]
  by (intro that [OF update_partitions_eq [OF assms, of new]]) simp_all

lemma test_manager_update_partitions_passes:
  assumes ord: "iteration_order ord"
  shows "test_manager_update_partitions ord"
proof -
  obtain m svc where m: "registered 0 = Some m" "mg_services m = [0 \<mapsto> svc]" "ps_partition svc = 0" "manager_ok plain_redis m"
    by (rule registered_ok)
  obtain m' where m': "update_partitions plain_redis ord {0, 1, 2, 3} m = Some m'" "manager_ok plain_redis m'"
      "dom (mg_services m') = {0, 1, 2, 3}"
    by (rule update_ok [OF ord m(4)])
  obtain m'' where m'': "update_partitions plain_redis ord {1, 3} m' = Some m''" "dom (mg_services m'') = {1, 3}"
    by (rule update_ok [OF ord m'(2)])
  have n: "\<forall>p svc. mg_services m' p = Some svc \<longrightarrow> ps_partition svc = p"
    using m(2,3) by (intro service_numbers_update [OF ord m(4) m'(1)]) simp
  note n' = service_numbers_update [OF ord m'(2) m''(1) n]
  have "\<not> has_service p m''" if "p \<in> {0, 1, 2, 3} - {1, 3}" for p
  proof -
    have "p \<notin> dom (mg_services m'')" unfolding m''(2) using that by blast
    then show ?thesis by (simp add: has_service_def domIff)
  qed
  then have "\<forall>part\<in>{0, 1, 2, 3} - {1, 3}. \<not> has_service part m''" by (rule ballI)
  then show ?thesis
    unfolding test_manager_update_partitions_def Let_def
    using service_number_known [OF n] service_number_known [OF n'] m'(3) m''(2) by (simp add: m(1) m'(1) m''(1))
qed

end
