(* ===== verification/WireTests.thy ===== *)
theory WireTests
  imports WireFormat
begin

text \<open>
  The unit tests that read and write what the program exchanges, replayed on the model: the examples of a check configuration
  (\<open>src/src/types/check_config.rs\<close>) and the assertion of \<open>src/src/assertions/mod.rs\<close>.  A document is given as its tree, in the order of its fields:
  reading MessagePack and JSON texts is the libraries' part.
\<close>

section \<open>Identifiers in hexadecimal\<close>

definition hex_digit :: "char \<Rightarrow> nat option" where
  "hex_digit c =
     (case digit_of c of
        Some d \<Rightarrow> Some d
      | None \<Rightarrow> map_option (\<lambda>i. 10 + i) (find (\<lambda>i. ''abcdef'' ! i = c) [0..<6]))"

fun hex_value :: "nat \<Rightarrow> string \<Rightarrow> nat option" where
  "hex_value acc [] = Some acc"
| "hex_value acc (c # cs) = (case hex_digit c of None \<Rightarrow> None | Some d \<Rightarrow> hex_value (16 * acc + d) cs)"

definition parse_simple_uuid :: "string \<Rightarrow> u128 option" where
  "parse_simple_uuid s = (if length s = 32 then map_option of_nat (hex_value 0 s) else None)"

definition test_formats :: config_formats where
  "test_formats = plain_formats\<lparr>cg_parse_uuid := parse_simple_uuid\<rparr>"

section \<open>Check configurations\<close>

definition test_serialize_msgpack_roundtrip_simple :: bool where
  "test_serialize_msgpack_roundtrip_simple \<longleftrightarrow>
     dec_config test_formats
       (WObj [(''subscription_id'', WText ''d7629c6c82be4f679ee78a0d977856d2''),
             (''url'', WText ''http://sentry.io''),
             (''interval_seconds'', WNum 300),
             (''timeout_ms'', WNum 500),
             (''active_regions'', WArr [WText ''us-west'',
                   WText ''europe'']),
             (''region_schedule_mode'', WText ''round_robin'')])
     = Some \<lparr>cc_subscription_id = 286296036838896169143967799614549546706, cc_interval = FiveMinutes,
         cc_timeout = 500 * 1000000, cc_url = ''http://sentry.io'', cc_request_method = Get,
         cc_request_headers = [], cc_request_body = [], cc_trace_sampling = False,
         cc_active_regions = Some [''us-west'', ''europe''], cc_region_schedule_mode = Some RoundRobin, cc_assertion = None,
         cc_capture_response_on_failure = True\<rparr>"

definition test_serialize_msgpack_roundtrip_post :: bool where
  "test_serialize_msgpack_roundtrip_post \<longleftrightarrow>
     dec_config test_formats
       (WObj [(''subscription_id'', WText ''d7629c6c82be4f679ee78a0d977856d2''),
             (''url'', WText ''http://sentry.io''),
             (''interval_seconds'', WNum 300),
             (''timeout_ms'', WNum 500),
             (''request_method'', WText ''POST''),
             (''request_headers'', WArr [WArr [WText ''Authorization'',
                         WText ''Bearer 12345''],
                   WArr [WText ''Content-Type'',
                         WText ''application/json''],
                   WArr [WText ''X-My-Custom-Header'',
                         WText ''example value'']]),
             (''request_body'', WText ''{\"key\": \"value\"}''),
             (''active_regions'', WArr [WText ''us-west'',
                   WText ''europe'']),
             (''region_schedule_mode'', WText ''round_robin'')])
     = Some \<lparr>cc_subscription_id = 286296036838896169143967799614549546706, cc_interval = FiveMinutes,
         cc_timeout = 500 * 1000000, cc_url = ''http://sentry.io'', cc_request_method = Post,
         cc_request_headers = [(''Authorization'', ''Bearer 12345''), (''Content-Type'', ''application/json''), (''X-My-Custom-Header'', ''example value'')], cc_request_body = ''{\"key\": \"value\"}'', cc_trace_sampling = False,
         cc_active_regions = Some [''us-west'', ''europe''], cc_region_schedule_mode = Some RoundRobin, cc_assertion = None,
         cc_capture_response_on_failure = True\<rparr>"

section \<open>Assertions\<close>

definition test_serialize_roundtrip :: bool where
  "test_serialize_roundtrip \<longleftrightarrow>
     (let s = WObj [(''root'', WObj [(''op'', WText ''or''),
                      (''children'', WArr [WObj [(''op'', WText ''and''),
                                  (''children'', WArr [WObj [(''op'', WText ''json_path''),
                                              (''value'', WText ''$[?length(@.prop1) > 4]''),
                                              (''operator'', WObj [(''cmp'', WText ''always'')]),
                                              (''operand'', WObj [(''jsonpath_op'', WText ''none'')])],
                                        WObj [(''op'', WText ''header_check''),
                                              (''key_op'', WObj [(''cmp'', WText ''equals'')]),
                                              (''key_operand'', WObj [(''header_op'', WText ''glob''),
                                                    (''pattern'', WObj [(''value'', WText ''x-header-[a-zA-Z]+-[1-9][0-9]*'')])]),
                                              (''value_op'', WObj [(''cmp'', WText ''not_equal'')]),
                                              (''value_operand'', WObj [(''header_op'', WText ''literal''),
                                                    (''value'', WText ''2'')])],
                                        WObj [(''op'', WText ''header_check''),
                                              (''key_op'', WObj [(''cmp'', WText ''equals'')]),
                                              (''key_operand'', WObj [(''header_op'', WText ''glob''),
                                                    (''pattern'', WObj [(''value'', WText ''x-header-[a-zA-Z]+-[1-9][0-9]*'')])]),
                                              (''value_op'', WObj [(''cmp'', WText ''always'')]),
                                              (''value_operand'', WObj [(''header_op'', WText ''none'')])],
                                        WObj [(''op'', WText ''status_code_check''),
                                              (''value'', WNum 0),
                                              (''operator'', WObj [(''cmp'', WText ''greater_than'')])],
                                        WObj [(''op'', WText ''status_code_check''),
                                              (''value'', WNum 100),
                                              (''operator'', WObj [(''cmp'', WText ''less_than'')])]])],
                            WObj [(''op'', WText ''not''),
                                  (''operand'', WObj [(''op'', WText ''and''),
                                        (''children'', WArr [WObj [(''op'', WText ''status_code_check''),
                                                    (''value'', WNum 200),
                                                    (''operator'', WObj [(''cmp'', WText ''not_equal'')])]])])],
                            WObj [(''op'', WText ''or''),
                                  (''children'', WArr [WObj [(''op'', WText ''status_code_check''),
                                              (''value'', WNum 201),
                                              (''operator'', WObj [(''cmp'', WText ''equals'')])],
                                        WObj [(''op'', WText ''status_code_check''),
                                              (''value'', WNum 202),
                                              (''operator'', WObj [(''cmp'', WText ''equals'')])]])]])])]
      in case dec_assertion s of None \<Rightarrow> False | Some j \<Rightarrow> enc_assertion j = s)"

section \<open>The tests pass\<close>

lemma parse_example [simp]:
  "parse_simple_uuid ''d7629c6c82be4f679ee78a0d977856d2'' = Some 286296036838896169143967799614549546706"
  by (simp add: parse_simple_uuid_def hex_digit_def digit_of_def upt_rec)

lemma test_formats_sel [simp]:
  "cg_parse_uuid test_formats = parse_simple_uuid" "cg_of_millis test_formats = (\<lambda>n. Some (n * 1000000))"
  by (simp_all add: test_formats_def plain_formats_def)

lemma test_serialize_msgpack_roundtrip_simple_passes: test_serialize_msgpack_roundtrip_simple
  by (simp add: test_serialize_msgpack_roundtrip_simple_def dec_config_def read_simps dec_mode_def dec_option_def
    i64_min_def i64_max_def)

lemma test_serialize_msgpack_roundtrip_post_passes: test_serialize_msgpack_roundtrip_post
  by (simp add: test_serialize_msgpack_roundtrip_post_def dec_config_def read_simps dec_mode_def dec_method_def dec_option_def
    i64_min_def i64_max_def)

lemma test_serialize_roundtrip_passes: test_serialize_roundtrip
  by code_simp

end
