(* ===== verification/IpFilter.thy ===== *)
theory IpFilter
  imports UCPrelude
begin

text \<open>
  The filter that keeps the HTTP client away from reserved addresses
  (\<open>src/src/checker/ip_filter.rs\<close>).  Membership of an address in a network is third-party code
  (\<open>ipnet\<close>): it is the parameter \<open>contains\<close>, and the named hypothesis \<open>contains_law\<close> states its
  documented behaviour, the comparison of the prefix bits within one address family.
\<close>

datatype IpAddr = V4 "32 word" | V6 "128 word"

datatype IpNet = V4Net "32 word" nat | V6Net "128 word" nat

text \<open>Addresses from their groups of digits.\<close>

definition ip4 :: "nat \<Rightarrow> nat \<Rightarrow> nat \<Rightarrow> nat \<Rightarrow> nat \<Rightarrow> IpNet" where
  "ip4 a b c d len = V4Net (of_nat (((a * 256 + b) * 256 + c) * 256 + d)) len"

definition ip6 :: "nat list \<Rightarrow> nat \<Rightarrow> IpNet" where
  "ip6 groups len = V6Net (of_nat (foldl (\<lambda>x g. x * 65536 + g) 0 groups)) len"

definition PRIVATE_RANGES :: "IpNet list" where
  "PRIVATE_RANGES =
    [ip4 0 0 0 0 8,
     ip4 10 0 0 0 8,
     ip4 100 64 0 0 10,
     ip4 127 0 0 0 8,
     ip4 169 254 0 0 16,
     ip4 172 16 0 0 12,
     ip4 192 0 0 0 29,
     ip4 192 0 2 0 24,
     ip4 192 88 99 0 24,
     ip4 192 168 0 0 16,
     ip4 198 18 0 0 15,
     ip4 198 51 100 0 24,
     ip4 224 0 0 0 4,
     ip4 240 0 0 0 4,
     ip4 255 255 255 255 32,
     ip6 [0, 0, 0, 0, 0, 0xffff, 0, 0] 104,
     ip6 [0, 0, 0, 0, 0, 0xffff, 0xa00, 0] 104,
     ip6 [0, 0, 0, 0, 0, 0xffff, 0x6440, 0] 106,
     ip6 [0, 0, 0, 0, 0, 0xffff, 0x7f00, 0] 104,
     ip6 [0, 0, 0, 0, 0, 0xffff, 0xa9fe, 0] 112,
     ip6 [0, 0, 0, 0, 0, 0xffff, 0xac10, 0] 108,
     ip6 [0, 0, 0, 0, 0, 0xffff, 0xc000, 0] 125,
     ip6 [0, 0, 0, 0, 0, 0xffff, 0xc000, 0x200] 120,
     ip6 [0, 0, 0, 0, 0, 0xffff, 0xc058, 0x6300] 120,
     ip6 [0, 0, 0, 0, 0, 0xffff, 0xc0a8, 0] 112,
     ip6 [0, 0, 0, 0, 0, 0xffff, 0xc612, 0] 111,
     ip6 [0, 0, 0, 0, 0, 0xffff, 0xc633, 0x6400] 120,
     ip6 [0, 0, 0, 0, 0, 0xffff, 0xe000, 0] 100,
     ip6 [0, 0, 0, 0, 0, 0xffff, 0xf000, 0] 100,
     ip6 [0, 0, 0, 0, 0, 0xffff, 0xffff, 0xffff] 128,
     ip6 [0, 0, 0, 0, 0, 0, 0, 1] 128,
     ip6 [0, 0, 0, 0, 0xffff, 0, 0, 0] 96,
     ip6 [0x64, 0xff9b, 0, 0, 0, 0, 0, 0] 96,
     ip6 [0x64, 0xff9b, 1, 0, 0, 0, 0, 0] 48,
     ip6 [0x100, 0, 0, 0, 0, 0, 0, 0] 64,
     ip6 [0x2001, 0, 0, 0, 0, 0, 0, 0] 32,
     ip6 [0x2001, 0x20, 0, 0, 0, 0, 0, 0] 28,
     ip6 [0x2001, 0xdb8, 0, 0, 0, 0, 0, 0] 32,
     ip6 [0x2002, 0, 0, 0, 0, 0, 0, 0] 16,
     ip6 [0xfc00, 0, 0, 0, 0, 0, 0, 0] 7,
     ip6 [0xfe80, 0, 0, 0, 0, 0, 0, 0] 10,
     ip6 [0xff00, 0, 0, 0, 0, 0, 0, 0] 8]"

definition is_external_ip :: "(IpNet \<Rightarrow> IpAddr \<Rightarrow> bool) \<Rightarrow> IpAddr \<Rightarrow> bool" where
  "is_external_ip contains ip =
     (if list_ex (\<lambda>network. contains network ip) PRIVATE_RANGES then False else True)"

section \<open>Addresses and their IPv4-mapped forms\<close>

definition contains_law :: "(IpNet \<Rightarrow> IpAddr \<Rightarrow> bool) \<Rightarrow> bool" where
  "contains_law contains =
     ((\<forall>n len a. len \<le> 32 \<longrightarrow> contains (V4Net n len) (V4 a) =
         (unat a div 2 ^ (32 - len) = unat n div 2 ^ (32 - len))) \<and>
      (\<forall>n len a. len \<le> 128 \<longrightarrow> contains (V6Net n len) (V6 a) =
         (unat a div 2 ^ (128 - len) = unat n div 2 ^ (128 - len))) \<and>
      (\<forall>n len a. \<not> contains (V4Net n len) (V6 a)) \<and>
      (\<forall>n len a. \<not> contains (V6Net n len) (V4 a)))"

definition mapped :: "32 word \<Rightarrow> 128 word" where
  "mapped a = of_nat (0xffff * 2 ^ 32 + unat a)"

lemma unat_bound32: "unat (a :: 32 word) < 2 ^ 32"
  by (rule less_le_trans [OF unsigned_less]) simp

lemma unat_mapped: "unat (mapped a) = 0xffff * 2 ^ 32 + unat a"
proof -
  have "0xffff * 2 ^ 32 + unat a < 2 ^ LENGTH(128)" using unat_bound32 [of a] by simp
  then show ?thesis unfolding mapped_def by (simp only: unsigned_of_nat take_bit_nat_eq_self of_nat_id)
qed

lemma mapped_div: "k \<le> 32 \<Longrightarrow> unat (mapped a) div 2 ^ k = 0xffff * 2 ^ (32 - k) + unat a div 2 ^ k"
proof -
  assume k: "k \<le> 32"
  then have "(2::nat) ^ (32 - k + k) = 2 ^ 32" by simp
  then have "(0xffff * 2 ^ (32 - k)) * 2 ^ k = 0xffff * (2::nat) ^ 32"
    by (simp only: mult.assoc power_add [symmetric])
  then have "unat (mapped a) = (0xffff * 2 ^ (32 - k)) * 2 ^ k + unat a" by (simp add: unat_mapped)
  then show ?thesis by simp
qed

lemma mapped_div_high: "unat (mapped a) div 2 ^ (32 + k) = 0xffff div 2 ^ k"
proof -
  have "unat (mapped a) div 2 ^ 32 = 0xffff"
    using mapped_div [of 32 a] unat_bound32 [of a] by simp
  then show ?thesis by (simp add: power_add div_mult2_eq)
qed

text \<open>A mapped network contains a mapped address exactly when the plain ones do.\<close>

lemma contains_mapped:
  assumes "contains_law contains" "len \<le> 32"
  shows "contains (V6Net (mapped n) (96 + len)) (V6 (mapped a)) = contains (V4Net n len) (V4 a)"
  using assms mapped_div [of "32 - len"] by (simp add: contains_law_def)

lemma not_contains_high:
  assumes "contains_law contains" "len \<le> 96"
    "unat n div 2 ^ 32 div 2 ^ (96 - len) \<noteq> 0xffff div 2 ^ (96 - len)"
  shows "\<not> contains (V6Net n len) (V6 (mapped a))"
proof -
  have e: "128 - len = 32 + (96 - len)" using assms(2) by simp
  have "unat n div 2 ^ (128 - len) = unat n div 2 ^ 32 div 2 ^ (96 - len)"
    by (simp only: e power_add div_mult2_eq)
  moreover have "unat (mapped a) div 2 ^ (128 - len) = 0xffff div 2 ^ (96 - len)"
    by (simp only: e mapped_div_high)
  ultimately show ?thesis using assms by (simp add: contains_law_def)
qed

lemma list_ex_mapped:
  "contains_law contains \<Longrightarrow> list_all (\<lambda>(n, len). len \<le> 32) rs \<Longrightarrow>
     list_ex (\<lambda>w. contains w (V6 (mapped a))) (map (\<lambda>(n, len). V6Net (mapped (of_nat n)) (96 + len)) rs)
     = list_ex (\<lambda>w. contains w (V4 a)) (map (\<lambda>(n, len). V4Net (of_nat n) len) rs)"
  by (induction rs) (auto simp: contains_mapped)

definition mapped_ranges :: "(nat \<times> nat) list" where
  "mapped_ranges =
    [(0, 8), (0x0a000000, 8), (0x64400000, 10), (0x7f000000, 8), (0xa9fe0000, 16), (0xac100000, 12),
     (0xc0000000, 29), (0xc0000200, 24), (0xc0586300, 24), (0xc0a80000, 16), (0xc6120000, 15),
     (0xc6336400, 24), (0xe0000000, 4), (0xf0000000, 4), (0xffffffff, 32)]"

definition other_ranges :: "(nat \<times> nat) list" where
  "other_ranges =
    [(0xffff * 2 ^ 48, 96), (0x0064ff9b * 2 ^ 96, 96), (0x0064ff9b0001 * 2 ^ 80, 48),
     (0x100 * 2 ^ 112, 64), (0x2001 * 2 ^ 112, 32), (0x20010020 * 2 ^ 96, 28),
     (0x20010db8 * 2 ^ 96, 32), (0x2002 * 2 ^ 112, 16), (0xfc00 * 2 ^ 112, 7),
     (0xfe80 * 2 ^ 112, 10), (0xff00 * 2 ^ 112, 8)]"

lemma private_ranges_split:
  "PRIVATE_RANGES = map (\<lambda>(n, len). V4Net (of_nat n) len) mapped_ranges
     @ map (\<lambda>(n, len). V6Net (mapped (of_nat n)) (96 + len)) mapped_ranges
     @ V6Net 1 128 # map (\<lambda>(n, len). V6Net (of_nat n) len) other_ranges"
  by (simp add: PRIVATE_RANGES_def mapped_ranges_def other_ranges_def ip4_def ip6_def mapped_def)

text \<open>
  An IPv4 address and its IPv4-mapped IPv6 form are treated alike: the filter lets the one through
  exactly when it lets the other through, so the mapped form is no way around the filter.
\<close>

theorem mapped_address_treated_alike:
  assumes "contains_law contains"
  shows "is_external_ip contains (V6 (mapped a)) = is_external_ip contains (V4 a)"
proof -
  have v4v6: "\<not> contains (V4Net n len) (V6 x)" "\<not> contains (V6Net n' len') (V4 y)" for n len x n' len' y
    using assms by (simp_all add: contains_law_def)
  have other: "\<not> list_ex (\<lambda>w. contains w (V6 (mapped a))) (map (\<lambda>(n, len). V6Net (of_nat n) len) other_ranges)"
    by (simp add: other_ranges_def not_contains_high [OF assms] unsigned_of_nat)
  have one: "\<not> contains (V6Net 1 128) (V6 (mapped a))"
    using assms by (simp add: contains_law_def unat_mapped)
  have "list_ex (\<lambda>w. contains w (V6 (mapped a)))
          (map (\<lambda>(n, len). V6Net (mapped (of_nat n)) (96 + len)) mapped_ranges)
      = list_ex (\<lambda>w. contains w (V4 a)) (map (\<lambda>(n, len). V4Net (of_nat n) len) mapped_ranges)"
    by (rule list_ex_mapped [OF assms]) (simp add: mapped_ranges_def)
  then show ?thesis
    using other one v4v6 unfolding is_external_ip_def private_ranges_split
    by (auto simp: list_ex_iff)
qed

text \<open>The membership test that the law describes.\<close>

fun prefix_contains :: "IpNet \<Rightarrow> IpAddr \<Rightarrow> bool" where
  "prefix_contains (V4Net n len) (V4 a) = (unat a div 2 ^ (32 - len) = unat n div 2 ^ (32 - len))"
| "prefix_contains (V6Net n len) (V6 a) = (unat a div 2 ^ (128 - len) = unat n div 2 ^ (128 - len))"
| "prefix_contains _ _ = False"

theorem mapped_address_treated_alike_witness:
  "contains_law prefix_contains \<and>
   is_external_ip prefix_contains (V6 (mapped 0x0a000001)) = is_external_ip prefix_contains (V4 0x0a000001)"
proof -
  have law: "contains_law prefix_contains" by (simp add: contains_law_def)
  from mapped_address_treated_alike [OF law] law show ?thesis by blast
qed

text \<open>
  The test network 203.0.113.0/24 of the reserved list is missing: its addresses are let through.
\<close>

theorem test_net_3_not_blocked:
  assumes "contains_law contains" "unat a div 256 = 0xcb0071"
  shows "is_external_ip contains (V4 a)"
proof -
  have d: "unat a div 2 ^ k = 0xcb0071 div 2 ^ (k - 8)" if "8 \<le> k" for k
  proof -
    have "(2::nat) ^ k = 256 * 2 ^ (k - 8)" using that power_add [of "2::nat" 8 "k - 8"] by simp
    then show ?thesis by (simp add: div_mult2_eq assms(2))
  qed
  have v4: "contains (V4Net n len) (V4 a) = (unat a div 2 ^ (32 - len) = unat n div 2 ^ (32 - len))"
    if "len \<le> 32" for n len using assms(1) that by (simp add: contains_law_def)
  have v6: "\<not> contains (V6Net n' len') (V4 y)" for n' len' y
    using assms(1) by (simp add: contains_law_def)
  have small: "unat a \<noteq> 4294967295" "unat a div 8 \<noteq> 402653184" using assms(2) by auto
  show ?thesis
    using d [of 8] d [of 16] d [of 17] d [of 20] d [of 22] d [of 24] d [of 28] small
    by (simp add: is_external_ip_def PRIVATE_RANGES_def ip4_def ip6_def v4 v6 unsigned_of_nat)
qed

theorem test_net_3_not_blocked_witness: "is_external_ip prefix_contains (V4 0xcb007105)"
  by (rule test_net_3_not_blocked) (simp_all add: contains_law_def)

end
