(* ===== verification/AssertTests.thy ===== *)
theory AssertTests
  imports AssertEval Checker
begin

text \<open>
  The unit tests of \<open>src/src/assertions/compiled.rs\<close>, replayed on the model: every \<open>assert!\<close> of a test is a conjunct of a definition of the same name,
  and the theorems evaluate them.

  The libraries' part in a test is a table: the globs and paths that do not compile, the texts that a glob matches, and what a path selects in a
  document.  The test of the exhausted gas depends on what the JSONPath engine charges, and is not among them.
\<close>

section \<open>The libraries in the tests\<close>

text \<open>A selected value: a number or a text, as written in the document, or another one.\<close>

datatype test_json = JDocument string | JNumber string | JText string | JOther

record test_tables =
  tt_matches :: "(string \<times> string) list"
  tt_broken_globs :: "string list"
  tt_broken_paths :: "(string \<times> JsonPathError) list"
  tt_selected :: "((string \<times> string) \<times> test_json list) list"

definition bytes_string :: "u8 list \<Rightarrow> string" where
  "bytes_string bs = map (\<lambda>b. char_of (unat b)) bs"

fun number_f64 :: "test_json \<Rightarrow> f64 option" where
  "number_f64 (JNumber s) = (case parse_f64 s of Inr f \<Rightarrow> Some f | Inl _ \<Rightarrow> None)"
| "number_f64 _ = None"

fun number_i64 :: "test_json \<Rightarrow> i64 option" where
  "number_i64 (JNumber s) = (case parse_i64 s of Inr i \<Rightarrow> Some i | Inl _ \<Rightarrow> None)"
| "number_i64 _ = None"

fun text_of_json :: "test_json \<Rightarrow> string option" where
  "text_of_json (JText s) = Some s"
| "text_of_json _ = None"

fun selected :: "((string \<times> string) \<times> test_json list) list \<Rightarrow> string \<Rightarrow> test_json \<Rightarrow> test_json list" where
  "selected tab q (JDocument d) = (case map_of tab (q, d) of Some js \<Rightarrow> js | None \<Rightarrow> [])"
| "selected tab q _ = []"

definition test_externals :: "test_tables \<Rightarrow> (string, string, test_json) externals" where
  "test_externals T =
     \<lparr>pattern_build = \<lambda>g _. if g \<in> set (tt_broken_globs T) then Inl g else Inr g,
      pattern_is_match = \<lambda>p s. (p, s) \<in> set (tt_matches T),
      parse_json_path = \<lambda>p _. (case map_of (tt_broken_paths T) p of Some e \<Rightarrow> Inl e | None \<Rightarrow> Inr p),
      js_path_process = \<lambda>q j g. (Inr (selected (tt_selected T) q j), g),
      json_path_error_to_string = \<lambda>_. [], json_from_slice = \<lambda>b. Inr (JDocument (bytes_string b)),
      json_as_f64 = number_f64, json_as_i64 = number_i64, json_as_str = text_of_json, json_to_string = \<lambda>_. [],
      header_to_str = \<lambda>b. Some (bytes_string b)\<rparr>"

definition no_tables :: test_tables where
  "no_tables = \<lparr>tt_matches = [], tt_broken_globs = [], tt_broken_paths = [], tt_selected = []\<rparr>"

definition MAX_ASSERTION_OPS :: u32 where "MAX_ASSERTION_OPS = 16"
definition ASSERTION_MAX_GAS :: u32 where "ASSERTION_MAX_GAS = 100"

text \<open>A response with headers and a body given as texts.\<close>

definition test_response :: "u16 \<Rightarrow> (string \<times> string) list \<Rightarrow> string \<Rightarrow> response_data" where
  "test_response status headers body =
     \<lparr>rd_status = status, rd_headers = map (\<lambda>(k, v). (k, string_bytes v)) headers, rd_body = string_bytes body\<rparr>"

text \<open>Compiling and evaluating, unwrapped: \<open>None\<close> where the test would panic.\<close>

definition evaluated :: "test_tables \<Rightarrow> Assertion \<Rightarrow> u16 \<Rightarrow> (string \<times> string) list \<Rightarrow> string \<Rightarrow> EvalResult option" where
  "evaluated T assert status headers body =
     (case compile (test_externals T) assert MAX_ASSERTION_OPS of
        Inl _ \<Rightarrow> None
      | Inr c \<Rightarrow>
          (case eval (test_externals T) c (test_response status headers body) ASSERTION_MAX_GAS of
             Inl _ \<Rightarrow> None | Inr r \<Rightarrow> Some r))"

definition result_of :: "test_tables \<Rightarrow> Assertion \<Rightarrow> u16 \<Rightarrow> (string \<times> string) list \<Rightarrow> string \<Rightarrow> bool option" where
  "result_of T assert status headers body = map_option er_result (evaluated T assert status headers body)"

section \<open>Status codes and booleans\<close>

definition test_status_comparators_and :: bool where
  "test_status_comparators_and \<longleftrightarrow>
     (let assert = \<lparr>root = OpAnd [OpStatusCodeCheck 100 GreaterThan, OpStatusCodeCheck 300 LessThan, OpStatusCodeCheck 200 Equals, OpStatusCodeCheck 400 NotEqual]\<rparr>
      in result_of no_tables assert 200 [] [] = Some True \<and>
         result_of no_tables assert 105 [] [] = Some False \<and>
         result_of no_tables assert 95 [] [] = Some False \<and>
         result_of no_tables assert 299 [] [] = Some False \<and>
         result_of no_tables assert 305 [] [] = Some False)"

definition test_status_comparators_or :: bool where
  "test_status_comparators_or \<longleftrightarrow>
     (let assert = \<lparr>root = OpOr [OpStatusCodeCheck 100 LessThan, OpStatusCodeCheck 300 GreaterThan, OpStatusCodeCheck 200 Equals]\<rparr>
      in result_of no_tables assert 200 [] [] = Some True \<and>
         result_of no_tables assert 105 [] [] = Some False \<and>
         result_of no_tables assert 95 [] [] = Some True \<and>
         result_of no_tables assert 299 [] [] = Some False \<and>
         result_of no_tables assert 305 [] [] = Some True)"

definition test_booleans_nesting :: bool where
  "test_booleans_nesting \<longleftrightarrow>
     (let assert = \<lparr>root = OpOr
        [OpAnd [OpStatusCodeCheck 0 GreaterThan, OpStatusCodeCheck 100 LessThan],
         OpNot (OpAnd [OpStatusCodeCheck 200 NotEqual]),
         OpOr [OpStatusCodeCheck 201 Equals, OpStatusCodeCheck 202 Equals]]\<rparr>
      in result_of no_tables assert 0 [] [] = Some False \<and>
         result_of no_tables assert 15 [] [] = Some True \<and>
         result_of no_tables assert 100 [] [] = Some False \<and>
         result_of no_tables assert 200 [] [] = Some True \<and>
         result_of no_tables assert 201 [] [] = Some True \<and>
         result_of no_tables assert 202 [] [] = Some True \<and>
         result_of no_tables assert 203 [] [] = Some False)"

section \<open>JSONPath\<close>

definition test_json_path :: bool where
  "test_json_path \<longleftrightarrow>
     (let body = ''[{\"prop1\":\"a\"},{\"prop1\":\"aa\"},{\"prop1\":\"aaaa\"},{\"prop1\":\"aaaaa\"}]'';
          tables = no_tables\<lparr>tt_matches := [(''a*a'', ''aaaaa'')], tt_selected := [((''$[?length(@.prop1) > 4].prop1'', body), [JText ''aaaaa'']),
            ((''$[?glob(@.prop1, \"a[a-z]*\")]'', body), [JOther, JOther, JOther, JOther])]\<rparr>
      in result_of tables \<lparr>root = OpJsonPath ''$[?length(@.prop1) > 4].prop1'' Equals (JOGlob \<lparr>glob_value = ''a*a''\<rparr>)\<rparr> 200 [] body = Some True \<and>
         result_of tables \<lparr>root = OpJsonPath ''$[?length(@.prop1) > 10].prop1'' Equals (JOGlob \<lparr>glob_value = ''a*a''\<rparr>)\<rparr> 200 [] body = Some False \<and>
         result_of tables \<lparr>root = OpJsonPath ''$[?glob(@.prop1, \"a[a-z]*\")]'' Always JONone\<rparr> 200 [] body = Some True \<and>
         result_of tables \<lparr>root = OpJsonPath ''$[?glob(@.prop1, \"A[A-Z]*\")].prop1'' Always JONone\<rparr> 200 [] body = Some False)"

definition test_json_path_object :: bool where
  "test_json_path_object \<longleftrightarrow>
     (let body = ''{\"prop1\":{\"id\":\"123\"}}'';
          tables = no_tables\<lparr>tt_selected := [((''$.prop1.id'', body), [JText ''123''])]\<rparr>
      in result_of tables \<lparr>root = OpJsonPath ''$.prop1.id'' Equals (JOLiteral ''123'')\<rparr> 200 [] body = Some True \<and>
         result_of tables \<lparr>root = OpJsonPath ''$.prop1.id'' Equals (JOLiteral ''124'')\<rparr> 200 [] body = Some False)"

definition test_json_path_coerce :: bool where
  "test_json_path_coerce \<longleftrightarrow>
     (let body = ''{\"prop1\":{\"id1\":123,\"id2\":123.1,\"id3\":\"123\"}}'';
          tables = no_tables\<lparr>tt_selected := [((''$.prop1.id1'', body), [JNumber ''123'']), ((''$.prop1.id2'', body), [JNumber ''123.1'']),
            ((''$.prop1.id3'', body), [JText ''123''])]\<rparr>
      in result_of tables \<lparr>root = OpJsonPath ''$.prop1.id1'' Equals (JOLiteral ''123'')\<rparr> 200 [] body = Some True \<and>
         result_of tables \<lparr>root = OpJsonPath ''$.prop1.id2'' Equals (JOLiteral ''123.1'')\<rparr> 200 [] body = Some True \<and>
         result_of tables \<lparr>root = OpJsonPath ''$.prop1.id3'' Equals (JOLiteral ''123'')\<rparr> 200 [] body = Some True \<and>
         result_of tables \<lparr>root = OpJsonPath ''$.prop1.id'' Equals (JOLiteral ''onetwothree'')\<rparr> 200 [] body = Some False)"

definition test_json_path_arrays :: bool where
  "test_json_path_arrays \<longleftrightarrow>
     (let body = ''[{\"prop\":{\"id\":\"123\"}},{\"prop\":{\"id\":\"123\"}}]''; body2 = ''[{\"prop\":{\"id\":\"123\"}},{\"prop\":{\"id\":\"124\"}}]'';
          tables = no_tables\<lparr>tt_selected := [((''$[*].prop.id'', body), [JText ''123'', JText ''123'']),
            ((''$[*].prop.id'', body2), [JText ''123'', JText ''124''])]\<rparr>
      in result_of tables \<lparr>root = OpJsonPath ''$[*].prop.id'' Equals (JOLiteral ''123'')\<rparr> 200 [] body = Some True \<and>
         result_of tables \<lparr>root = OpJsonPath ''$[*].prop.id'' NotEqual (JOLiteral ''124'')\<rparr> 200 [] body2 = Some False)"

section \<open>Headers\<close>

definition test_header_regex :: bool where
  "test_header_regex \<longleftrightarrow>
     (let hmap = [(''x-header-good'', ''0''), (''x-header-good-a'', ''1''), (''x-header-good-1'', ''2'')];
          tables = no_tables\<lparr>tt_matches := [(''*-good-[0-9]'', ''x-header-good-1'')]\<rparr>
      in result_of tables \<lparr>root = OpHeaderCheck Equals (HOGlob \<lparr>glob_value = ''*-good-[0-9]''\<rparr>) Always HONone\<rparr> 200 hmap [] = Some True \<and>
         result_of tables \<lparr>root = OpOr [OpHeaderCheck Equals (HOGlob \<lparr>glob_value = ''*-good-[0-9]''\<rparr>) Equals (HOLiteral ''2'')]\<rparr> 200 hmap [] = Some True \<and>
         result_of tables \<lparr>root = OpHeaderCheck Equals (HOGlob \<lparr>glob_value = ''*-good-[0-9]''\<rparr>) Equals (HOGlob \<lparr>glob_value = ''[0-9][0-9]''\<rparr>)\<rparr> 200 hmap [] = Some False)"

section \<open>Errors and their paths\<close>

text \<open>The texts with quotes are given by their codes: \<open>$[?glob(@.prop1, "'a']")]\<close> and \<open>'a']\<close>.\<close>

definition test_broken_jsonpath_glob :: bool where
  "test_broken_jsonpath_glob \<longleftrightarrow>
     (let path = (map char_of [36, 91, 63, 103, 108, 111, 98, 40, 64, 46, 112, 114, 111, 112, 49, 44, 32, 34, 39, 97, 39, 93, 34, 41, 93 :: nat]); glob = (map char_of [39, 97, 39, 93 :: nat])
      in case compile (test_externals (no_tables\<lparr>tt_broken_paths := [(path, JPInvalidGlob glob ''unclosed'')]\<rparr>))
           \<lparr>root = OpJsonPath path Always JONone\<rparr> MAX_ASSERTION_OPS of
           Inl (InvalidGlob _ _ _) \<Rightarrow> True
         | _ \<Rightarrow> False)"

text \<open>The test computes the path and does not assert it; here it is part of the statement.\<close>

definition test_compile_error_paths :: bool where
  "test_compile_error_paths \<longleftrightarrow>
     (case compile (test_externals (no_tables\<lparr>tt_broken_paths := [(''asdf'', PestError (Pos 0) ''expected'' ''asdf'')]\<rparr>))
        \<lparr>root = OpAnd
           [OpStatusCodeCheck 200 Always, OpStatusCodeCheck 200 Always,
            OpNot (OpOr [OpStatusCodeCheck 200 Always, OpJsonPath ''asdf'' Always JONone]),
            OpStatusCodeCheck 200 Always]\<rparr> MAX_ASSERTION_OPS of
        Inl (JsonPathParser found _ _ _) \<Rightarrow> found = [0, 2, 0, 1]
      | _ \<Rightarrow> False)"

definition test_runtime_error_paths :: bool where
  "test_runtime_error_paths \<longleftrightarrow>
     (let body = ''{ \"status\": { \"foo\": 123 } }'';
          E = test_externals (no_tables\<lparr>tt_selected := [((''$.status'', body), [JOther])]\<rparr>)
      in case compile E
           \<lparr>root = OpAnd
              [OpStatusCodeCheck 200 Always, OpAnd [OpStatusCodeCheck 200 Always],
               OpNot (OpJsonPath ''$.status'' Equals (JOLiteral ''123''))]\<rparr> MAX_ASSERTION_OPS of
           Inl _ \<Rightarrow> False
         | Inr c \<Rightarrow>
             (case eval E c (test_response 200 [] body) MAX_ASSERTION_OPS of
                Inl (InvalidTypeComparison found _) \<Rightarrow> found = [0, 2, 0]
              | _ \<Rightarrow> False))"

definition test_broken_header_glob :: bool where
  "test_broken_header_glob \<longleftrightarrow>
     (let glob = (map char_of [39, 97, 39, 93 :: nat])
      in case compile (test_externals (no_tables\<lparr>tt_broken_globs := [glob]\<rparr>))
           \<lparr>root = OpHeaderCheck Equals (HOGlob \<lparr>glob_value = glob\<rparr>) Always HONone\<rparr> MAX_ASSERTION_OPS of
           Inl (InvalidGlob _ _ _) \<Rightarrow> True
         | _ \<Rightarrow> False)"

section \<open>What explains a failure\<close>

definition test_failing_path_or :: bool where
  "test_failing_path_or \<longleftrightarrow>
     (let hmap = [(''4'', ''*''), (''2'', ''*''), (''5'', ''*'')];
          assert = \<lparr>root = OpNot (OpOr [OpHeaderCheck Equals (HOLiteral ''1'') Always HONone, OpHeaderCheck Equals (HOLiteral ''2'') Always HONone,
                            OpHeaderCheck Equals (HOLiteral ''3'') Always HONone])\<rparr>
      in case evaluated no_tables assert 200 hmap [] of
           None \<Rightarrow> False
         | Some r \<Rightarrow>
             \<not> er_result r \<and> reason_path r = ChildIndex 0 (ChildIndex 1 Leaf) \<and>
             (case extract_failure_data (reason_path r) (root assert) of
                Some (OpNot (OpOr children)) \<Rightarrow> children \<noteq> [] \<and> children ! 0 = OpHeaderCheck Equals (HOLiteral ''2'') Always HONone
              | _ \<Rightarrow> False))"

definition test_failing_path_and :: bool where
  "test_failing_path_and \<longleftrightarrow>
     (let hmap = [(''1'', ''*''), (''2'', ''*''), (''3'', ''*'')];
          assert = \<lparr>root = OpAnd [OpHeaderCheck Equals (HOLiteral ''1'') Always HONone, OpHeaderCheck Equals (HOLiteral ''2'') Always HONone,
                     OpHeaderCheck Equals (HOLiteral ''4'') Always HONone]\<rparr>
      in case evaluated no_tables assert 200 hmap [] of
           None \<Rightarrow> False
         | Some r \<Rightarrow>
             \<not> er_result r \<and> reason_path r = ChildIndex 2 Leaf \<and>
             (case extract_failure_data (reason_path r) (root assert) of
                Some (OpAnd children) \<Rightarrow> children \<noteq> [] \<and> children ! 0 = OpHeaderCheck Equals (HOLiteral ''4'') Always HONone
              | _ \<Rightarrow> False))"

definition test_failing_path_nesting :: bool where
  "test_failing_path_nesting \<longleftrightarrow>
     (let hmap = [(''1'', ''*''), (''2'', ''*''), (''3'', ''*'')];
          assert = \<lparr>root = OpNot (OpOr
             [OpAnd [OpHeaderCheck Equals (HOLiteral ''1'') Always HONone, OpHeaderCheck NotEqual (HOLiteral ''123'') Always HONone],
              OpOr [OpNot (OpStatusCodeCheck 200 Equals), OpStatusCodeCheck 201 Equals]])\<rparr>
      in case evaluated no_tables assert 200 hmap [] of
           None \<Rightarrow> False
         | Some r \<Rightarrow>
             \<not> er_result r \<and> reason_path r = ChildIndex 0 (ChildIndex 0 AllChildren) \<and>
             (case extract_failure_data (reason_path r) (root assert) of
                Some (OpNot (OpOr (OpAnd children # _))) \<Rightarrow>
                  children = [OpHeaderCheck Equals (HOLiteral ''1'') Always HONone, OpHeaderCheck NotEqual (HOLiteral ''123'') Always HONone]
              | _ \<Rightarrow> False))"

section \<open>Comparisons\<close>

definition comparison_tables :: "string \<Rightarrow> test_tables" where
  "comparison_tables body = no_tables\<lparr>tt_selected :=
     [((''$.prop.string'', body), [JText ''123'']), ((''$.prop.int'', body), [JNumber ''123'']),
      ((''$.prop.float'', body), [JNumber ''123.0''])]\<rparr>"

definition run_single_jsonpath_assert :: "string \<Rightarrow> string \<Rightarrow> Comparison \<Rightarrow> string \<Rightarrow> bool option" where
  "run_single_jsonpath_assert path operand operator body =
     result_of (comparison_tables body) \<lparr>root = OpJsonPath path operator (JOLiteral operand)\<rparr> 200 [] body"

definition test_comparisons :: bool where
  "test_comparisons \<longleftrightarrow>
     (let body = ''{\"prop\":{\"string\":\"123\",\"int\":123,\"float\":123.0}}''
      in run_single_jsonpath_assert ''$.prop.string'' ''123'' Equals body = Some True \<and>
         run_single_jsonpath_assert ''$.prop.int'' ''123'' Equals body = Some True \<and>
         run_single_jsonpath_assert ''$.prop.float'' ''123.0'' Equals body = Some True \<and>
         run_single_jsonpath_assert ''$.prop.string'' ''124'' Equals body = Some False \<and>
         run_single_jsonpath_assert ''$.prop.int'' ''124'' Equals body = Some False \<and>
         run_single_jsonpath_assert ''$.prop.float'' ''123.1'' Equals body = Some False \<and>
         run_single_jsonpath_assert ''$.prop.string'' ''123a'' NotEqual body = Some True \<and>
         run_single_jsonpath_assert ''$.prop.int'' ''124'' NotEqual body = Some True \<and>
         run_single_jsonpath_assert ''$.prop.float'' ''123.1'' NotEqual body = Some True \<and>
         run_single_jsonpath_assert ''$.prop.string'' ''123'' NotEqual body = Some False \<and>
         run_single_jsonpath_assert ''$.prop.int'' ''123'' NotEqual body = Some False \<and>
         run_single_jsonpath_assert ''$.prop.float'' ''123.0'' NotEqual body = Some False \<and>
         run_single_jsonpath_assert ''$.prop.string'' ''023'' GreaterThan body = Some True \<and>
         run_single_jsonpath_assert ''$.prop.int'' ''122'' GreaterThan body = Some True \<and>
         run_single_jsonpath_assert ''$.prop.float'' ''122.9'' GreaterThan body = Some True \<and>
         run_single_jsonpath_assert ''$.prop.string'' ''123'' GreaterThan body = Some False \<and>
         run_single_jsonpath_assert ''$.prop.int'' ''123'' GreaterThan body = Some False \<and>
         run_single_jsonpath_assert ''$.prop.float'' ''123.0'' GreaterThan body = Some False \<and>
         run_single_jsonpath_assert ''$.prop.string'' ''223'' LessThan body = Some True \<and>
         run_single_jsonpath_assert ''$.prop.int'' ''124'' LessThan body = Some True \<and>
         run_single_jsonpath_assert ''$.prop.float'' ''123.1'' LessThan body = Some True \<and>
         run_single_jsonpath_assert ''$.prop.string'' ''123'' LessThan body = Some False \<and>
         run_single_jsonpath_assert ''$.prop.int'' ''123'' LessThan body = Some False \<and>
         run_single_jsonpath_assert ''$.prop.float'' ''123.0'' LessThan body = Some False \<and>
         run_single_jsonpath_assert ''$.prop.string'' [] Always body = Some True \<and>
         run_single_jsonpath_assert ''$.prop.int'' [] Always body = Some True \<and>
         run_single_jsonpath_assert ''$.prop.float'' [] Always body = Some True \<and>
         run_single_jsonpath_assert ''$.prop.string'' [] Never body = Some False \<and>
         run_single_jsonpath_assert ''$.prop.int'' [] Never body = Some False \<and>
         run_single_jsonpath_assert ''$.prop.float'' [] Never body = Some False)"

section \<open>The numbers of the tests\<close>

lemma bytes_of_string [simp]: "bytes_string (string_bytes s) = s"
proof -
  have "of_char c < (256 :: nat)" for c by simp
  then have "char_of (unat (of_nat (of_char c) :: u8)) = c" for c :: char
    by (simp add: unat_of_nat)
  then show ?thesis by (simp add: bytes_string_def string_bytes_def o_def)
qed

lemma bit_length_eq: "2 ^ k \<le> n \<Longrightarrow> n < 2 ^ Suc k \<Longrightarrow> bit_length n = Suc k"
proof (induction k arbitrary: n)
  case 0
  then have "n = 1" by simp
  then show ?case by (simp add: bit_length.simps)
next
  case (Suc k)
  then have "2 ^ k \<le> n div 2" "n div 2 < 2 ^ Suc k" by auto
  from Suc.IH [OF this] have "bit_length (n div 2) = Suc k" .
  moreover have "0 < (2 :: nat) ^ Suc k" by simp
  with Suc.prems(1) have "n \<noteq> 0" by linarith
  ultimately show ?case by (subst bit_length.simps) simp
qed

text \<open>A ratio between 64 and 128 has steps of \<open>2 ^ 1028\<close>, and is rounded down or up by less than one.\<close>

lemma f64_of_ratio_range:
  assumes "64 * d \<le> n" "n < 128 * d"
  shows "\<exists>v. f64_of_ratio False n d = F64Fin v \<and> int (n * 2 ^ 46 div d) * 2 ^ 1028 \<le> v \<and> v \<le> (int (n * 2 ^ 46 div d) + 1) * 2 ^ 1028 \<and>
    (n * 2 ^ 46 mod d = 0 \<longrightarrow> v = int (n * 2 ^ 46 div d) * 2 ^ 1028)"
proof -
  define p :: nat where "p = 2 ^ 1028"
  have p: "0 < p" "2 ^ 1074 = 2 ^ 46 * p" by (simp_all add: p_def flip: power_add)
  have d: "0 < d" using assms(2) by (cases d) simp_all
  have "64 * 2 ^ 1074 * d \<le> n * 2 ^ 1074" "n * 2 ^ 1074 < 128 * 2 ^ 1074 * d"
    using assms by (simp_all add: mult.commute)
  then have "64 * 2 ^ 1074 \<le> n * 2 ^ 1074 div d" "n * 2 ^ 1074 div d < 128 * 2 ^ 1074"
    using d by (simp_all only: less_eq_div_iff_mult_less_eq div_less_iff_less_mult)
  moreover have "(2 :: nat) ^ 1080 = 64 * 2 ^ 1074" "(2 :: nat) ^ Suc 1080 = 128 * 2 ^ 1074" by simp_all
  ultimately have "bit_length (n * 2 ^ 1074 div d) = Suc 1080"
    by (intro bit_length_eq) (simp_all only:)
  then have b: "bit_length (n * 2 ^ 1074 div d) - 53 = 1028" by simp
  define q where "q = n * 2 ^ 46 div d"
  define r where "r = n * 2 ^ 46 mod d"
  have q: "n * 2 ^ 1074 div (d * p) = q" "n * 2 ^ 1074 mod (d * p) = r * p"
  proof -
    have "n * 2 ^ 1074 = n * 2 ^ 46 * p" by (simp only: p(2) mult.assoc)
    then show "n * 2 ^ 1074 div (d * p) = q" "n * 2 ^ 1074 mod (d * p) = r * p"
      using p(1) by (simp_all only: div_mult_mult2 mod_mult_mult2 q_def r_def) 
  qed
  have q128: "q < 2 ^ 53" using assms(2) d by (simp add: q_def div_less_iff_less_mult)
  have small: "q' * p < 2 ^ 2098" if "q' \<le> Suc q" for q'
  proof -
    have "q' * p \<le> 2 ^ 53 * p" using that q128 by (intro mult_right_mono) simp_all
    also have "\<dots> < 2 ^ 2098" unfolding p_def by (simp flip: power_add)
    finally show ?thesis .
  qed
  define q' where "q' = (if d * p < 2 * (r * p) \<or> (2 * (r * p) = d * p \<and> odd q) then Suc q else q)"
  have "q' * p < 2 ^ 2098" by (rule small) (simp add: q'_def)
  then have h: "\<not> 2 ^ 2098 \<le> q' * p" by (simp only: not_le)
  have "f64_of_ratio False n d = F64Fin (int (q' * p))"
    unfolding f64_of_ratio_def Let_def b p_def [symmetric] q q'_def [symmetric] by (simp only: h if_False)
  moreover have "q \<le> q'" "q' \<le> q + 1" "r = 0 \<longrightarrow> q' = q" using d p(1) by (auto simp: q'_def)
  ultimately show ?thesis
    unfolding q_def [symmetric] r_def [symmetric]
    by (intro exI [of _ "int (q' * p)"]) (auto simp: p_def mult_right_mono simp flip: of_nat_mult of_nat_Suc)
qed

lemma bit_length_le: "n < 2 ^ k \<Longrightarrow> bit_length n \<le> k"
proof (induction k arbitrary: n)
  case (Suc k)
  show ?case
  proof (cases "n = 0")
    case False
    have "n div 2 < 2 ^ k" using Suc.prems by auto
    with Suc.IH False show ?thesis by (subst bit_length.simps) simp
  qed (simp add: bit_length.simps)
qed (simp add: bit_length.simps)

lemma f64_of_int:
  assumes "n < 2 ^ 53"
  shows "f64_of_ratio False n 1 = F64Fin (int n * 2 ^ 1074)"
proof -
  define s where "s = bit_length (n * 2 ^ 1074 div 1) - 53"
  have "n * 2 ^ 1074 < 2 ^ 53 * 2 ^ 1074" using assms by (simp only: mult_less_cancel2) simp
  then have "n * 2 ^ 1074 < 2 ^ (53 + 1074)" by (simp only: power_add)
  from bit_length_le [OF this] have s: "s \<le> 1074" by (simp add: s_def)
  then have p: "(2 :: nat) ^ 1074 = 2 ^ (1074 - s) * 2 ^ s" by (simp only: power_add [symmetric]) simp
  have x: "n * 2 ^ 1074 = n * 2 ^ (1074 - s) * 2 ^ s" by (simp only: p mult.assoc)
  have "n * 2 ^ 1074 div (1 * 2 ^ s) = n * 2 ^ (1074 - s)" "n * 2 ^ 1074 mod (1 * 2 ^ s) = 0" unfolding x by simp_all
  moreover have "n * 2 ^ 1074 < 2 ^ 2098"
    using \<open>n * 2 ^ 1074 < 2 ^ (53 + 1074)\<close> by (rule order.strict_trans) (rule power_strict_increasing; simp)
  then have "\<not> 2 ^ 2098 \<le> n * 2 ^ 1074" by (simp only: not_le)
  moreover have "int (n * 2 ^ 1074) = int n * 2 ^ 1074" by simp
  moreover have "\<not> 1 * 2 ^ s < 2 * (0 :: nat)" "2 * (0 :: nat) \<noteq> 1 * 2 ^ s" by simp_all
  ultimately show ?thesis
    unfolding f64_of_ratio_def Let_def s_def [symmetric] by (simp only: x [symmetric] if_False simp_thms)
qed


text \<open>The numbers of the tests.\<close>

lemmas number_simps = parse_f64_def parse_number_def is_digit_def digit_of_def digits_value_def parse_exponent_def Let_def

lemma parsed:
  "parse_f64 ''1'' = Inr (F64Fin (1 * 2 ^ 1074))" "parse_f64 ''2'' = Inr (F64Fin (2 * 2 ^ 1074))"
  "parse_f64 ''3'' = Inr (F64Fin (3 * 2 ^ 1074))" "parse_f64 ''4'' = Inr (F64Fin (4 * 2 ^ 1074))"
  "parse_f64 ''5'' = Inr (F64Fin (5 * 2 ^ 1074))" "parse_f64 ''122'' = Inr (F64Fin (122 * 2 ^ 1074))"
  "parse_f64 ''123'' = Inr (F64Fin (123 * 2 ^ 1074))" "parse_f64 ''124'' = Inr (F64Fin (124 * 2 ^ 1074))"
  by (simp_all add: number_simps f64_of_int [unfolded One_nat_def])

lemma parsed_123_0: "parse_f64 ''123.0'' = Inr (F64Fin (123 * 2 ^ 1074))"
  using f64_of_ratio_range [of 10 1230] by (simp add: number_simps)

lemma parsed_tenths:
  "\<exists>v. parse_f64 ''123.1'' = Inr (F64Fin v) \<and> 123 * 2 ^ 1074 < v"
  "\<exists>v. parse_f64 ''122.9'' = Inr (F64Fin v) \<and> v < 123 * 2 ^ 1074"
  using f64_of_ratio_range [of 10 1231] f64_of_ratio_range [of 10 1229] by (auto simp: number_simps)

section \<open>The tests pass\<close>

lemmas test_simps =
  result_of_def evaluated_def no_tables_def MAX_ASSERTION_OPS_def ASSERTION_MAX_GAS_def test_response_def test_externals_def
  compile_def compile_op.simps dec_ops_def compile_header_check_def header_operand_of_def compile_glob_def compile_json_path_def
  jsonpath_operand_of_def compilation_error_of_def
  eval_def eval_op.simps consume_def status_check_def finish_leaf.simps json_path_check_def jsonpath_operand_eval_def jsonpath_cmp_def
  header_operand_eval_def cmp_header_value_def cmp_eq_header_def cmp_eq_jsonpath_def cmp_eq_json_def cmp_lt_json_def cmp_gt_json_def
  cmp_coerce_json_def cmp_eq_def cmp_lt_def cmp_gt_def gassed_not_def leaf_node_def and_node_def or_node_def child_idx_def Let_def
  value_of_def parsed header_loop.simps

lemma test_status_comparators_and_passes: "test_status_comparators_and"
  by (simp add: test_status_comparators_and_def test_simps)

lemma test_status_comparators_or_passes: "test_status_comparators_or"
  by (simp add: test_status_comparators_or_def test_simps)

lemma test_booleans_nesting_passes: "test_booleans_nesting"
  by (simp add: test_booleans_nesting_def test_simps)

lemma test_json_path_passes: "test_json_path"
  by (simp add: test_json_path_def test_simps)

lemma test_json_path_object_passes: "test_json_path_object"
  by (simp add: test_json_path_object_def test_simps)

lemma test_json_path_coerce_passes: "test_json_path_coerce"
  proof -
  obtain v where "parse_f64 ''123.1'' = Inr (F64Fin v)" using parsed_tenths(1) by (elim exE conjE)
  then show ?thesis by (simp add: test_json_path_coerce_def test_simps)
qed

lemma test_json_path_arrays_passes: "test_json_path_arrays"
  by (simp add: test_json_path_arrays_def test_simps)

lemma test_header_regex_passes: "test_header_regex"
  by (simp add: test_header_regex_def test_simps)

lemma test_broken_jsonpath_glob_passes: "test_broken_jsonpath_glob"
  by (simp add: test_broken_jsonpath_glob_def test_simps)

lemma test_compile_error_paths_passes: "test_compile_error_paths"
  by (simp add: test_compile_error_paths_def test_simps)

lemma test_runtime_error_paths_passes: "test_runtime_error_paths"
  by (simp add: test_runtime_error_paths_def test_simps)

lemma test_broken_header_glob_passes: "test_broken_header_glob"
  by (simp add: test_broken_header_glob_def test_simps)

lemma test_failing_path_or_passes: "test_failing_path_or"
  by (simp add: test_failing_path_or_def test_simps)

lemma test_failing_path_and_passes: "test_failing_path_and"
  by (simp add: test_failing_path_and_def test_simps)

lemma test_failing_path_nesting_passes: "test_failing_path_nesting"
  by (simp add: test_failing_path_nesting_def test_simps)

lemma test_comparisons_passes: "test_comparisons"
  proof -
  obtain v where v: "parse_f64 ''123.1'' = Inr (F64Fin v)" "123 * 2 ^ 1074 < v" using parsed_tenths(1) by (elim exE conjE)
  obtain w where w: "parse_f64 ''122.9'' = Inr (F64Fin w)" "w < 123 * 2 ^ 1074" using parsed_tenths(2) by (elim exE conjE)
  show ?thesis using v w by (simp add: test_comparisons_def run_single_jsonpath_assert_def comparison_tables_def test_simps parsed_123_0)
qed

end
