(* ===== verification/HttpTests.thy ===== *)
theory HttpTests
  imports ReqwestChecker IpFilter AssertTests
begin

text \<open>
  The unit tests of the HTTP checker (\<open>src/src/checker/reqwest_checker.rs\<close>), replayed on the model.

  The mock server answers a request that it expects as it is told, and any other one with 404; a test that the mock was hit is that the outcome is
  not the one of a 404.  Where the network fails, the failure is given with the chain of causes that the client library reports.  An address is
  what the host of the URL resolves to.
\<close>

section \<open>The mock server\<close>

definition mock_response :: "u16 \<Rightarrow> (string \<times> string) list \<Rightarrow> string \<Rightarrow> response" where
  "mock_response status headers body =
     \<lparr>rs_status = status, rs_headers = map (\<lambda>(k, v). (k, string_bytes v)) headers, rs_stream = [(0, Chunk (string_bytes body))]\<rparr>"

definition mock ::
  "(http_request \<Rightarrow> bool) \<Rightarrow> response \<Rightarrow> http_request \<Rightarrow> reqwest_error + response \<times> RedirectStats list" where
  "mock when then_do req =
     (let r = (if when req then then_do else mock_response 404 [] [])
      in Inr (r, [plain_redirect\<lparr>get_status_code := rs_status r\<rparr>]))"

definition header_exists :: "string \<Rightarrow> http_request \<Rightarrow> bool" where
  "header_exists name req \<longleftrightarrow> fst (hr_trace_header req) = name \<or> name \<in> fst ` set (hr_headers req)"

definition get_path :: "string \<Rightarrow> http_request \<Rightarrow> bool" where
  "get_path url req \<longleftrightarrow> hr_method req = ''GET'' \<and> hr_url req = url \<and> header_exists ''sentry-trace'' req"

text \<open>Options of every test, and what a check meets: a clock that stands still.\<close>

definition test_options :: checker_options where
  "test_options = default_options\<lparr>op_validate_url := False, op_disable_connection_reuse := True\<rparr>"

type_synonym test_cache = "Assertion \<Rightarrow> (string, string) CacheEntry option"

definition test_checker :: "checker_options \<Rightarrow> test_cache ReqwestChecker" where
  "test_checker opts = new_internal opts (\<lambda>_. None)"

definition user_agent_sent :: "test_cache ReqwestChecker \<Rightarrow> bool" where
  "user_agent_sent self \<longleftrightarrow> (''User-Agent'', UPTIME_USER_AGENT) \<in> set (cl_default_headers (rc_client self))"

definition answering ::
  "(http_request \<Rightarrow> reqwest_error + response \<times> RedirectStats list) \<Rightarrow> time_delta \<Rightarrow> reqwest_input" where
  "answering answer elapsed =
     (plain_input 200 [])\<lparr>wi_answer := answer, wi_elapsed := elapsed, wi_elapsed_end := elapsed\<rparr>"

definition make_tick :: Tick where
  "make_tick = from_time (- seconds 60)"

text \<open>The texts of the status codes, and which paths a robots file denies.\<close>

definition test_http :: "(string \<times> string) list \<Rightarrow> http_externals" where
  "test_http denied =
     plain_http\<lparr>status_to_string := \<lambda>s. (if s = 400 then ''400 Bad Request'' else show_nat (unat s)),
       robots_allowed := \<lambda>_ t. Some (\<lambda>u. (bytes_string t, u) \<notin> set denied)\<rparr>"

definition checked ::
  "test_tables \<Rightarrow> checker_options \<Rightarrow> bool \<Rightarrow> reqwest_input \<Rightarrow> check_config \<Rightarrow> (CheckResult \<times> test_cache ReqwestChecker) option" where
  "checked T opts forced w config =
     reqwest_check_url (test_externals T) plain_cache (test_http []) plain_stats plain_fmt (\<lambda>_ _. 7) w
       (new_scheduled_check Uptime make_tick config forced 0) ''us-west'' (test_checker opts)"

definition result_of_check ::
  "test_tables \<Rightarrow> checker_options \<Rightarrow> bool \<Rightarrow> reqwest_input \<Rightarrow> check_config \<Rightarrow> CheckResult option" where
  "result_of_check T opts forced w config = map_option fst (checked T opts forced w config)"

definition succeeded :: "CheckResult \<Rightarrow> bool" where
  "succeeded r \<longleftrightarrow> cr_status r = Success"

definition requested_as :: "RequestMethod \<Rightarrow> CheckResult \<Rightarrow> bool" where
  "requested_as m r \<longleftrightarrow> map_option request_type (cr_request_info r) = Some m"

definition status_code_of :: "CheckResult \<Rightarrow> u16 option" where
  "status_code_of r = Option.bind (cr_request_info r) http_status_code"

definition failed_with :: "u16 option \<Rightarrow> (CheckStatusReasonType \<Rightarrow> bool) \<Rightarrow> (string \<Rightarrow> bool) \<Rightarrow> CheckResult \<Rightarrow> bool" where
  "failed_with code P Q r \<longleftrightarrow>
     cr_status r = Failure \<and> status_code_of r = code \<and>
     (case cr_status_reason r of None \<Rightarrow> False | Some reason \<Rightarrow> P (status_type reason) \<and> Q (description reason))"

definition outcome_is :: "(CheckResult \<Rightarrow> bool) \<Rightarrow> CheckResult option \<Rightarrow> bool" where
  "outcome_is P r = (case r of None \<Rightarrow> False | Some r \<Rightarrow> P r)"

section \<open>Requests\<close>

definition test_default_get :: bool where
  "test_default_get \<longleftrightarrow>
     (let get_mock = mock (get_path ''/no-head'') (mock_response 200 [] []);
          config = default_check_config\<lparr>cc_url := ''/no-head''\<rparr>
      in user_agent_sent (test_checker test_options) \<and>
         outcome_is (\<lambda>r. succeeded r \<and> requested_as Get r) (result_of_check no_tables test_options False (answering get_mock 0) config))"

definition test_configured_post :: bool where
  "test_configured_post \<longleftrightarrow>
     (let get_mock = mock (\<lambda>req. hr_method req = ''POST'' \<and> hr_url req = ''/no-head'' \<and> header_exists ''sentry-trace'' req \<and>
            hr_body req = ''{\"key\":\"value\"}'' \<and> (''Authorization'', ''Bearer my-token'') \<in> set (hr_headers req) \<and>
            (''X-My-Custom-Header'', ''value'') \<in> set (hr_headers req)) (mock_response 200 [] []);
          config = default_check_config\<lparr>cc_url := ''/no-head'', cc_request_method := Post,
            cc_request_headers := [(''Authorization'', ''Bearer my-token''), (''X-My-Custom-Header'', ''value'')],
            cc_request_body := ''{\"key\":\"value\"}''\<rparr>
      in user_agent_sent (test_checker test_options) \<and>
         outcome_is (\<lambda>r. succeeded r \<and> requested_as Post r) (result_of_check no_tables test_options False (answering get_mock 0) config))"

definition test_same_check_same_id :: bool where
  "test_same_check_same_id \<longleftrightarrow>
     (let get_mock = mock (get_path ''/no-head'') (mock_response 200 [] []);
          check = new_scheduled_check Uptime make_tick (default_check_config\<lparr>cc_url := ''/no-head''\<rparr>) False 0;
          check_url = reqwest_check_url (test_externals no_tables) plain_cache (test_http []) plain_stats plain_fmt (\<lambda>_ _. 7)
            (answering get_mock 0) check ''us-west''
      in user_agent_sent (test_checker test_options) \<and>
         (case check_url (test_checker test_options) of
            None \<Rightarrow> False
          | Some (result, self) \<Rightarrow>
              (case check_url self of
                 None \<Rightarrow> False
               | Some (result_2, _) \<Rightarrow>
                   succeeded result \<and> succeeded result_2 \<and> cr_guid result = cr_guid result_2 \<and>
                   cr_trace_id result = cr_trace_id result_2)))"

definition test_trace_sampling :: "u128 \<Rightarrow> u64 \<Rightarrow> bool" where
  "test_trace_sampling trace_id span_id \<longleftrightarrow>
     (let config = default_check_config\<lparr>cc_url := ''http://localhost/'', cc_trace_sampling := False\<rparr>;
          trace_header = make_trace_header plain_fmt config trace_id span_id;
          config_with_sampling = default_check_config\<lparr>cc_url := ''http://localhost/'', cc_trace_sampling := True\<rparr>;
          trace_header_sampling = make_trace_header plain_fmt config_with_sampling trace_id span_id;
          dashes = (\<lambda>s. length (filter (\<lambda>c. c = CHR ''-'') s))
      in trace_header = show_uuid_simple plain_fmt trace_id @ ''-'' @ show_span_id plain_fmt span_id @ ''-0'' \<and>
         trace_header_sampling = show_uuid_simple plain_fmt trace_id @ ''-'' @ show_span_id plain_fmt span_id \<and>
         dashes trace_header = 2 \<and> dashes trace_header_sampling = 1)"

definition test_dns_nameservers :: bool where
  "test_dns_nameservers \<longleftrightarrow>
     (let opts = default_options\<lparr>op_dns_nameservers := Some [''42.55.6.8''], op_validate_url := False\<rparr>;
          get_mock = mock (get_path ''http://localhost/no-head'') (mock_response 200 [] []);
          config = default_check_config\<lparr>cc_url := ''http://localhost/no-head''\<rparr>
      in cl_dns_nameservers (rc_client (test_checker opts)) = Some [''42.55.6.8''] \<and> user_agent_sent (test_checker opts) \<and>
         outcome_is (\<lambda>r. succeeded r \<and> requested_as Get r) (result_of_check no_tables opts False (answering get_mock 0) config))"

section \<open>Responses\<close>

definition test_simple_400 :: bool where
  "test_simple_400 \<longleftrightarrow>
     (let head_mock = mock (get_path ''/get'') (mock_response 400 [] []);
          config = default_check_config\<lparr>cc_url := ''/get''\<rparr>
      in outcome_is (failed_with (Some 400) (\<lambda>t. t = RFailure) (\<lambda>d. d = ''Got non 2xx status: 400 Bad Request''))
           (result_of_check no_tables test_options False (answering head_mock 0) config))"

definition test_response_capture_on_failure :: bool where
  "test_response_capture_on_failure \<longleftrightarrow>
     (let opts = test_options\<lparr>op_response_capture_enabled := True\<rparr>;
          body = ''{\"error\": \"something went wrong\"}'';
          error_mock = mock (get_path ''/error'')
            (mock_response 500 [(''x-error-code'', ''ERR123''), (''content-type'', ''application/json'')] body);
          config = default_check_config\<lparr>cc_url := ''/error''\<rparr>
      in outcome_is (\<lambda>r. cr_status r = Failure \<and> status_code_of r = Some 500 \<and>
           (case cr_request_info r of
              None \<Rightarrow> False
            | Some request_info \<Rightarrow>
                response_body request_info = Some (base64_encode (test_http []) (string_bytes body)) \<and>
                (case response_headers request_info of
                   None \<Rightarrow> False
                 | Some headers \<Rightarrow>
                     (''x-error-code'', ''ERR123'') \<in> set headers \<and> (''content-type'', ''application/json'') \<in> set headers)))
           (result_of_check no_tables opts False (answering error_mock 0) config))"

definition test_response_capture_disabled :: bool where
  "test_response_capture_disabled \<longleftrightarrow>
     (let opts = test_options\<lparr>op_response_capture_enabled := False\<rparr>;
          error_mock = mock (get_path ''/error'') (mock_response 500 [] ''error body'');
          config = default_check_config\<lparr>cc_url := ''/error''\<rparr>
      in outcome_is (\<lambda>r. cr_status r = Failure \<and> status_code_of r = Some 500 \<and>
           (case cr_request_info r of
              None \<Rightarrow> False
            | Some request_info \<Rightarrow> response_body request_info = None \<and> response_headers request_info = None))
           (result_of_check no_tables opts False (answering error_mock 0) config))"

definition test_response_capture_forced :: bool where
  "test_response_capture_forced \<longleftrightarrow>
     (let opts = test_options\<lparr>op_response_capture_enabled := False\<rparr>;
          body_mock = mock (get_path ''/no-head'') (mock_response 200 [] ''body'');
          config = default_check_config\<lparr>cc_url := ''/no-head''\<rparr>
      in outcome_is (\<lambda>r. succeeded r \<and>
           Option.bind (cr_request_info r) response_body = Some (base64_encode (test_http []) (string_bytes ''body'')))
           (result_of_check no_tables opts True (answering body_mock 0) config))"

definition test_jsonpath_body_downloads :: bool where
  "test_jsonpath_body_downloads \<longleftrightarrow>
     (let opts = test_options\<lparr>op_response_capture_enabled := False\<rparr>;
          body = ''{ \"foo\":\"bar\"}'';
          tables = no_tables\<lparr>tt_selected := [((''$.foo'', body), [JText ''bar''])]\<rparr>;
          body_mock = mock (get_path ''/no-head'') (mock_response 200 [] body);
          config = default_check_config\<lparr>cc_url := ''/no-head'',
            cc_assertion := Some \<lparr>root = OpAnd [OpOr [OpNot (OpJsonPath ''$.foo'' Equals (JOLiteral ''baz''))]]\<rparr>\<rparr>
      in outcome_is succeeded (result_of_check tables opts False (answering body_mock 0) config))"

section \<open>Failures of the network\<close>

definition client_error :: "error_source list \<Rightarrow> reqwest_error" where
  "client_error sources =
     \<lparr>re_is_timeout = False, re_is_redirect = False, re_status = None, re_sources = sources, re_debug_without_url = []\<rparr>"

definition test_simple_timeout :: bool where
  "test_simple_timeout \<longleftrightarrow>
     (let timeout = 200 * 1000000;
          timeout_mock = (\<lambda>req. if get_path ''/timeout'' req \<and> hr_timeout req < timeout + 200 * 1000000
            then Inl (client_error [OtherError]\<lparr>re_is_timeout := True\<rparr>) else mock (\<lambda>_. True) (mock_response 200 [] []) req);
          config = default_check_config\<lparr>cc_url := ''/timeout'', cc_timeout := timeout\<rparr>
      in outcome_is (\<lambda>r. failed_with None (\<lambda>t. t = RTimeout) (\<lambda>d. d = ''Request timed out'') r \<and>
           (case cr_duration r of None \<Rightarrow> False | Some d \<Rightarrow> timeout < d))
           (result_of_check no_tables test_options False (answering timeout_mock (timeout + 1000000)) config))"

text \<open>The client refuses an address that its filter does not let pass.\<close>

definition filtered ::
  "test_cache ReqwestChecker \<Rightarrow> IpAddr \<Rightarrow> http_request \<Rightarrow> reqwest_error + response \<times> RedirectStats list" where
  "filtered self ip req =
     (if cl_ip_filter (rc_client self) \<and> \<not> is_external_ip prefix_contains ip
      then Inl (client_error [OtherError, ResolveError ''destination is restricted''])
      else mock (\<lambda>_. True) (mock_response 200 [] []) req)"

definition restricted :: "IpAddr \<Rightarrow> string \<Rightarrow> bool" where
  "restricted ip url \<longleftrightarrow>
     (let opts = test_options\<lparr>op_validate_url := True\<rparr>
      in outcome_is (failed_with None (\<lambda>t. t = RDnsError) (\<lambda>d. d = ''destination is restricted''))
           (result_of_check no_tables opts False (answering (filtered (test_checker opts) ip) 0) (default_check_config\<lparr>cc_url := url\<rparr>)))"

definition test_restricted_resolution :: bool where
  "test_restricted_resolution \<longleftrightarrow> restricted (V4 0x7f000001) ''http://localhost/whatever''"

definition test_validate_url :: bool where
  "test_validate_url \<longleftrightarrow>
     restricted (V4 0x0a000001) ''http://10.0.0.1/'' \<and>
     restricted (V6 0xfd123456789a00010000000000000001) ''http://[fd12:3456:789a:1::1]/''"

definition fails_with_sources :: "error_source list \<Rightarrow> string \<Rightarrow> (CheckStatusReasonType \<Rightarrow> bool) \<Rightarrow> (string \<Rightarrow> bool) \<Rightarrow> bool" where
  "fails_with_sources sources url P Q \<longleftrightarrow>
     outcome_is (failed_with None P Q)
       (result_of_check no_tables test_options False (answering (\<lambda>_. Inl (client_error sources)) 0) (default_check_config\<lparr>cc_url := url\<rparr>))"

definition test_ssl_errors_linux :: bool where
  "test_ssl_errors_linux \<longleftrightarrow>
     fails_with_sources [OtherError, ErrorStack [Some ''certificate verify failed'']] ''https://localhost:1''
       (\<lambda>t. t = RTlsError) (\<lambda>d. d = ''certificate verify failed'')"

definition test_connection_refused :: bool where
  "test_connection_refused \<longleftrightarrow>
     fails_with_sources [HyperUtilError True ''client error (Connect)'', OtherError, IoError ConnectionRefused] ''http://localhost:12345/''
       (\<lambda>t. t = RConnectionError) (\<lambda>d. d = ''Connection refused'')"

definition test_connection_reset :: bool where
  "test_connection_reset \<longleftrightarrow>
     fails_with_sources [HyperUtilError False ''client error (SendRequest)'', HyperError True ''connection closed before message completed'']
       ''http://localhost:1'' (\<lambda>t. t = RConnectionError \<or> t = RFailure) (\<lambda>_. True)"

definition test_too_many_redirects :: bool where
  "test_too_many_redirects \<longleftrightarrow>
     (let redirect_mock = (\<lambda>req. if get_path ''/redirect'' req then Inl (client_error [OtherError]\<lparr>re_is_redirect := True\<rparr>)
            else mock (\<lambda>_. True) (mock_response 404 [] []) req);
          config = default_check_config\<lparr>cc_url := ''/redirect''\<rparr>
      in outcome_is (failed_with None (\<lambda>t. t = RRedirectError) (\<lambda>d. d = ''Too many redirects''))
           (result_of_check no_tables test_options False (answering redirect_mock 0) config))"

section \<open>robots.txt\<close>

text \<open>\<open>denied\<close>: whether the file denies the path, as the parser of such files finds.\<close>

definition robots_check :: "string \<Rightarrow> bool \<Rightarrow> CheckResult option option" where
  "robots_check body denied =
     map_option fst
       (reqwest_check_robots (test_http (if denied then [(body, ''/foo'')] else [])) plain_fmt (\<lambda>_ _. 7)
          ((plain_input 200 [])\<lparr>wi_robots_answer := \<lambda>url. if url = ''/foo/robots.txt'' then Some (mock_response 200 [] body) else None\<rparr>)
          (new_scheduled_check Uptime make_tick (default_check_config\<lparr>cc_url := ''/foo''\<rparr>) False 0) ''us-west''
          (test_checker test_options))"

definition test_robots_deny_sentry_site :: bool where
  "test_robots_deny_sentry_site \<longleftrightarrow>
     (case robots_check (''User-agent: SentryUptimeBot'' @ CHR 0x0A # ''Disallow: *'' @ [CHR 0x0A]) True of
        Some (Some result) \<Rightarrow> cr_status result = DisallowedByRobots | _ \<Rightarrow> False)"

definition test_robots_deny_all_site :: bool where
  "test_robots_deny_all_site \<longleftrightarrow>
     (case robots_check (''User-agent: *'' @ CHR 0x0A # ''Disallow: *'' @ [CHR 0x0A]) True of
        Some (Some result) \<Rightarrow> cr_status result = DisallowedByRobots | _ \<Rightarrow> False)"

definition test_robots_allow_site :: bool where
  "test_robots_allow_site \<longleftrightarrow>
     robots_check (''User-agent: SentryUptimeBot'' @ CHR 0x0A # ''Disallow: /bar/'' @ [CHR 0x0A]) False = Some None"

section \<open>The tests pass\<close>

lemma no_dash: "c \<in> set (hex_digits k n) \<Longrightarrow> c \<noteq> CHR ''-''"
proof (induction k arbitrary: n)
  case (Suc k)
  have "char_of (n mod 16) \<noteq> CHR ''-''"
  proof
    assume "char_of (n mod 16) = CHR ''-''"
    then have "(of_char (char_of (n mod 16) :: char) :: nat) = of_char (CHR ''-'')" by (rule arg_cong)
    then have "n mod 16 mod 256 = 45" by simp
    moreover have "n mod 16 < 16" by simp
    ultimately show False by linarith
  qed
  with Suc show ?case by auto
qed simp

lemma test_trace_sampling_passes: "test_trace_sampling trace_id span_id"
proof -
  have "filter (\<lambda>c. c = CHR ''-'') (hex_digits k n) = []" for k n
    using no_dash by (auto simp: filter_empty_conv)
  then show ?thesis by (simp add: test_trace_sampling_def make_trace_header_def plain_fmt_def)
qed

lemma string_bytes_Nil [simp]: "string_bytes s = [] \<longleftrightarrow> s = []"
  by (simp add: string_bytes_def)

lemmas http_simps =
  result_of_check_def checked_def reqwest_check_url_def new_scheduled_check_def do_request_def answering_def plain_input_def
  checked_response_def to_check_result_def test_checker_def new_internal_def test_options_def default_options_def
  default_check_config_def mock_def mock_response_def header_exists_def get_path_def user_agent_sent_def outcome_of_status_def
  is_success_def check_success_def failure_data_of_def outcome_is_def succeeded_def requested_as_def to_request_info_list_def
  to_request_info_def plain_redirect_def status_code_of_def failed_with_def Let_def
  code_failure_def other_failure_def test_http_def plain_http_def read_body_bounded_def body_deadline_def checked_add_instant_def
  seconds_def MAX_BODY_BYTES_def attach_capture_def header_pairs_def client_error_def reason_of_error_def dns_error_def
  tls_error_def connection_error_def hyper_error_def to_errored_request_infos_def to_std_or_default_def from_std_or_default_def
  i64_max_def restricted_def filtered_def fails_with_sources_def outcome_of_eval_def response_data_of_def robots_check_def
  reqwest_check_robots_def ROBOTS_TIMEOUT_def MAX_ROBOTS_BYTES_def signed_divide_int_def
  is_external_ip_def PRIVATE_RANGES_def ip4_def ip6_def

lemma test_default_get_passes: test_default_get
  by (simp add: test_default_get_def http_simps)

lemma test_configured_post_passes: test_configured_post
  by (simp add: test_configured_post_def http_simps)

lemma test_same_check_same_id_passes: test_same_check_same_id
  by (simp add: test_same_check_same_id_def http_simps)

lemma test_dns_nameservers_passes: test_dns_nameservers
  by (simp add: test_dns_nameservers_def http_simps)

lemma test_simple_400_passes: test_simple_400
  by (simp add: test_simple_400_def http_simps)

lemma test_response_capture_on_failure_passes: test_response_capture_on_failure
  by (simp add: test_response_capture_on_failure_def http_simps test_externals_def)

lemma test_response_capture_disabled_passes: test_response_capture_disabled
  by (simp add: test_response_capture_disabled_def http_simps)

lemma test_response_capture_forced_passes: test_response_capture_forced
  by (simp add: test_response_capture_forced_def http_simps)

lemma test_jsonpath_body_downloads_passes: test_jsonpath_body_downloads
  by (simp add: test_jsonpath_body_downloads_def http_simps test_simps get_or_compile_def plain_cache_def requires_body_def)

lemma test_simple_timeout_passes: test_simple_timeout
  by (simp add: test_simple_timeout_def http_simps)

lemma test_restricted_resolution_passes: test_restricted_resolution
  by (simp add: test_restricted_resolution_def http_simps)

lemma test_validate_url_passes: test_validate_url
  by (simp add: test_validate_url_def http_simps)

lemma test_ssl_errors_linux_passes: test_ssl_errors_linux
  by (simp add: test_ssl_errors_linux_def http_simps)

lemma test_connection_refused_passes: test_connection_refused
  by (simp add: test_connection_refused_def http_simps)

lemma test_connection_reset_passes: test_connection_reset
  by (simp add: test_connection_reset_def http_simps)

lemma test_too_many_redirects_passes: test_too_many_redirects
  by (simp add: test_too_many_redirects_def http_simps)

lemma test_robots_deny_sentry_site_passes: test_robots_deny_sentry_site
  by (simp add: test_robots_deny_sentry_site_def http_simps)

lemma test_robots_deny_all_site_passes: test_robots_deny_all_site
  by (simp add: test_robots_deny_all_site_def http_simps)

lemma test_robots_allow_site_passes: test_robots_allow_site
  by (simp add: test_robots_allow_site_def http_simps)

end
