(* ===== verification/ServiceTests.thy ===== *)
theory ServiceTests
  imports Requests AssertTests
begin

text \<open>
  Unit tests with the dummy checker, replayed on the model: those of the executor that follow one check to its end
  (\<open>src/src/check_executor.rs\<close>), and those of the web endpoint (\<open>src/src/endpoint/\<close>).

  The instants and random identifiers that a test meets are arguments, and so is the tree of a request's body, \<open>None\<close> for an empty one.
\<close>

section \<open>The executor\<close>

definition test_conf :: "u16 \<Rightarrow> ExecutorConfig" where
  "test_conf failure_retries =
     \<lparr>ec_concurrency = 1, ec_checker_parallel = False, ec_failure_retries = failure_retries, ec_region = ''us-west'',
      ec_record_task_metrics = False\<rparr>"

text \<open>A queued check is taken up until it is not queued again; nothing else is in the queue.\<close>

fun run_check :: "nat \<Rightarrow> ExecutorConfig \<Rightarrow> datetime \<Rightarrow> call_input \<Rightarrow> ScheduledCheck \<Rightarrow> DummyChecker \<Rightarrow> CheckResult option" where
  "run_check 0 conf now w c d = None"
| "run_check (Suc n) conf now w c d =
     (case do_check dummy_check_url dummy_check_robots noop_produce (ec_failure_retries conf) (ec_region conf)
             \<lparr>xi_now = now, xi_missed_guid = in_guid w, xi_rx_open = (\<lambda>_. True), xi_queue_open = True\<rparr> w c d () of
        Some (Resolved _ r, _) \<Rightarrow> r
      | Some (Requeued c', d', _) \<Rightarrow> run_check n conf now w c' d'
      | _ \<Rightarrow> None)"

definition awaited :: "u16 \<Rightarrow> CheckKind \<Rightarrow> datetime \<Rightarrow> check_config \<Rightarrow> DummyChecker \<Rightarrow> datetime \<Rightarrow> call_input \<Rightarrow> CheckResult option" where
  "awaited failure_retries kind time config d now w =
     run_check 10 (test_conf failure_retries) now w (new_scheduled_check kind (from_time time) config False 0) d"

definition result_is :: "check_config \<Rightarrow> CheckStatus \<Rightarrow> CheckResult option \<Rightarrow> bool" where
  "result_is config st r =
     (case r of None \<Rightarrow> False | Some r \<Rightarrow> cr_subscription_id r = cc_subscription_id config \<and> cr_status r = st)"

definition after_a_second :: "CheckStatus \<Rightarrow> DummyResult" where
  "after_a_second st = \<lparr>dr_delay = Some (seconds 1), dr_status = st\<rparr>"

definition config_one :: check_config where
  "config_one = default_check_config\<lparr>cc_subscription_id := 1\<rparr>"

definition test_executor_simple :: "datetime \<Rightarrow> datetime \<Rightarrow> call_input \<Rightarrow> bool" where
  "test_executor_simple now later w \<longleftrightarrow>
     (let dummy_checker = queue_result (after_a_second Success) new_dummy
      in result_is config_one Success (awaited 0 Uptime now config_one dummy_checker later w))"

definition test_executor_missed :: "datetime \<Rightarrow> datetime \<Rightarrow> call_input \<Rightarrow> bool" where
  "test_executor_missed now later w \<longleftrightarrow>
     (let dummy_checker = queue_result (after_a_second Success) new_dummy;
          time = now - seconds (2 * 60);
          config = default_check_config\<lparr>cc_subscription_id := 1, cc_interval := OneMinute\<rparr>
      in result_is config MissedWindow (awaited 0 Uptime time config dummy_checker later w))"

definition test_executor_retry :: "datetime \<Rightarrow> datetime \<Rightarrow> call_input \<Rightarrow> bool" where
  "test_executor_retry now later w \<longleftrightarrow>
     (let failed_result = after_a_second Failure; success_result = after_a_second Success;
          dummy_checker = queue_result success_result (queue_result failed_result new_dummy)
      in result_is config_one Success (awaited 1 Uptime now config_one dummy_checker later w))"

definition test_executor_retry_failed :: "datetime \<Rightarrow> datetime \<Rightarrow> call_input \<Rightarrow> bool" where
  "test_executor_retry_failed now later w \<longleftrightarrow>
     (let failed_result = after_a_second Failure; success_result = after_a_second Success;
          dummy_checker = queue_result success_result
            (queue_result failed_result (queue_result failed_result (queue_result failed_result new_dummy)))
      in result_is config_one Failure (awaited 2 Uptime now config_one dummy_checker later w))"

definition test_robots_deny :: "datetime \<Rightarrow> datetime \<Rightarrow> call_input \<Rightarrow> bool" where
  "test_robots_deny now later w \<longleftrightarrow>
     (let dummy_checker = queue_robots_result False new_dummy;
          config = default_check_config\<lparr>cc_interval := OneMinute\<rparr>
      in result_is config DisallowedByRobots (awaited 0 Robots now config dummy_checker later w))"

section \<open>The endpoint\<close>

definition test_axum :: "wire option \<Rightarrow> axum_lib" where
  "test_axum v =
     \<lparr>ax_read_json = \<lambda>content_type _.
        (if content_type \<noteq> Some ''application/json'' then Inl ''content type''
         else case v of None \<Rightarrow> Inl ''EOF while parsing a value'' | Some v \<Rightarrow> Inr v),
      ax_data_error = \<lambda>_. ''missing field'', ax_not_found = \<lparr>hp_status = 404, hp_body = None\<rparr>,
      ax_not_allowed = \<lparr>hp_status = 405, hp_body = None\<rparr>\<rparr>"

definition test_web :: "test_tables \<Rightarrow> wire option \<Rightarrow> (string, string, test_json, call_input, DummyChecker) web_env" where
  "test_web T v =
     \<lparr>we_axum = test_axum v, we_externals = test_externals T, we_check_url = dummy_check_url,
      we_check_robots = dummy_check_robots, we_formats = plain_formats, we_fmt = plain_fmt,
      we_times = \<lparr>tf_timestamp_ms = \<lambda>t. t div 1000000, tf_timestamp_us = \<lambda>t. t div 1000, tf_duration_ms = \<lambda>t. t div 1000000,
        tf_duration_us = \<lambda>t. t div 1000\<rparr>\<rparr>"

definition oneshot ::
  "test_tables \<Rightarrow> DummyChecker \<Rightarrow> call_input request_input \<Rightarrow> string \<Rightarrow> wire option \<Rightarrow> web_reply option" where
  "oneshot T d i path v =
     map_option fst (handle_request (test_web T v) \<lparr>es_checker = d, es_region = ''region'', es_max_assertion_ops = 16\<rparr> i
       (post path (Some ''application/json'')))"

text \<open>The status of a reply, and the fields of its body.\<close>

definition replied :: "nat \<Rightarrow> ((string \<times> wire) list \<Rightarrow> bool) \<Rightarrow> web_reply option \<Rightarrow> bool" where
  "replied status P r =
     (case r of
        Some reply \<Rightarrow> hp_status reply = status \<and> (case hp_body reply of Some (WObj fs) \<Rightarrow> P fs | _ \<Rightarrow> False)
      | None \<Rightarrow> False)"

definition error_is :: "string \<Rightarrow> (string \<times> wire) list \<Rightarrow> bool" where
  "error_is e fs \<longleftrightarrow> get_field ''error'' fs = Some (Some (WText e))"

definition test_bad_request :: "string \<Rightarrow> call_input request_input \<Rightarrow> string \<Rightarrow> bool" where
  "test_bad_request path i uuid \<longleftrightarrow>
     replied 400 (error_is ''serialization_error'') (oneshot no_tables new_dummy i path None) \<and>
     (let req = WObj [(''subscription_id'', WText uuid)]
      in replied 400 (error_is ''serialization_error'') (oneshot no_tables new_dummy i path (Some req)))"

definition test_execute_bad_request :: "call_input request_input \<Rightarrow> string \<Rightarrow> bool" where
  "test_execute_bad_request i uuid \<longleftrightarrow> test_bad_request ''/execute_config'' i uuid"

definition test_validate_bad_request :: "call_input request_input \<Rightarrow> string \<Rightarrow> bool" where
  "test_validate_bad_request i uuid \<longleftrightarrow> test_bad_request ''/validate_check'' i uuid"

definition test_success_result :: "call_input request_input \<Rightarrow> bool" where
  "test_success_result i \<longleftrightarrow>
     (let checker = queue_result \<lparr>dr_delay = None, dr_status = Success\<rparr> new_dummy;
          config = default_check_config
      in replied 200
           (\<lambda>obj. case get_field ''check_result'' obj of
              Some (Some (WObj cr)) \<Rightarrow>
                get_field ''region'' cr = Some (Some (WText ''region'')) \<and>
                get_field ''status'' cr = Some (Some (WText ''success''))
            | _ \<Rightarrow> False)
           (oneshot no_tables checker i ''/execute_config'' (Some (enc_config plain_formats config))))"

definition test_compilation_error :: "call_input request_input \<Rightarrow> u128 \<Rightarrow> bool" where
  "test_compilation_error i uuid \<longleftrightarrow>
     (let glob = ''[]]])('';
          valid_check =
            \<lparr>cc_subscription_id = uuid, cc_interval = FiveMinutes, cc_timeout = (1 - 2 ^ 63) * 1000000,
             cc_url = ''https://foo.bar'', cc_request_method = Get, cc_request_headers = [], cc_request_body = [],
             cc_trace_sampling = False, cc_active_regions = None, cc_region_schedule_mode = None,
             cc_assertion = Some \<lparr>root = OpHeaderCheck Equals (HOGlob \<lparr>glob_value = glob\<rparr>) Always HONone\<rparr>,
             cc_capture_response_on_failure = True\<rparr>
      in replied 400
           (\<lambda>fs. error_is ''compilation_error'' fs \<and>
              (case get_field ''compile_error'' fs of Some (Some v) \<Rightarrow> v \<noteq> WNull | _ \<Rightarrow> False))
           (oneshot (no_tables\<lparr>tt_broken_globs := [glob]\<rparr>) new_dummy i ''/validate_check''
              (Some (enc_config plain_formats valid_check))))"

section \<open>The tests of the executor pass\<close>

lemma run_check_numeral:
  "run_check (numeral n) conf now w c d =
     (case do_check dummy_check_url dummy_check_robots noop_produce (ec_failure_retries conf) (ec_region conf)
             \<lparr>xi_now = now, xi_missed_guid = in_guid w, xi_rx_open = (\<lambda>_. True), xi_queue_open = True\<rparr> w c d () of
        Some (Resolved _ r, _) \<Rightarrow> r
      | Some (Requeued c', d', _) \<Rightarrow> run_check (pred_numeral n) conf now w c' d'
      | _ \<Rightarrow> None)"
  by (simp add: numeral_eq_Suc)

lemmas executor_simps =
  awaited_def run_check_numeral do_check_def check_outcome_def new_scheduled_check_def from_time_def seconds_def test_conf_def
  config_one_def default_check_config_def after_a_second_def queue_result_def queue_robots_result_def new_dummy_def dummy_check_url_def
  dummy_check_robots_def noop_produce_def record_result_def missed_from_def result_is_def

lemma executor_tests:
  assumes "now \<le> later" "later < now + seconds 60"
  shows "test_executor_simple now later w" "test_executor_missed now later w" "test_executor_retry now later w"
    "test_executor_retry_failed now later w" "test_robots_deny now later w"
  using assms
  by (simp_all add: test_executor_simple_def test_executor_missed_def test_executor_retry_def test_executor_retry_failed_def
    test_robots_deny_def executor_simps)

section \<open>The tests of the endpoint pass\<close>

lemmas endpoint_simps =
  replied_def oneshot_def handle_request_def new_router_cases post_def test_web_def test_axum_def app_json_def error_is_def

lemma bad_request_tests: "test_execute_bad_request i uuid" "test_validate_bad_request i uuid"
  by (simp_all add: test_execute_bad_request_def test_validate_bad_request_def test_bad_request_def endpoint_simps
    post_execute_config_def post_validate_check_def execute_reply_def validate_reply_def dec_config_def required_def)

lemma test_success_result_passes:
  assumes "rq_later i - rq_now i \<le> seconds 60"
  shows "test_success_result i"
proof -
  have "cc_interval default_check_config = OneMinute" by (simp add: default_check_config_def)
  with assms show ?thesis
    unfolding test_success_result_def Let_def
    by (simp add: endpoint_simps configs_dec_enc [OF plain_formats_law] post_execute_config_def
      execute_config_def do_check_def check_outcome_def execute_input_def new_scheduled_check_def from_time_def Let_def
      queue_result_def new_dummy_def dummy_check_url_def noop_produce_def record_result_def
      execute_reply_def enc_wrapper_def enc_option_def enc_result_def)
qed

lemma test_compilation_error_passes: "test_compilation_error i uuid"
proof -
  have law: "config_formats_law plain_formats c \<longleftrightarrow> (cc_timeout c div 1000000 * 1000000 = cc_timeout c \<and>
      i64_min \<le> cc_timeout c div 1000000 \<and> cc_timeout c div 1000000 \<le> i64_max)" for c
    using plain_formats_law by (auto simp: config_formats_law_def plain_formats_def)
  show ?thesis
    unfolding test_compilation_error_def Let_def
    by (simp add: endpoint_simps configs_dec_enc law i64_min_def i64_max_def post_validate_check_def validate_check_def
      validate_reply_def test_simps enc_compilation_error.simps)
qed

end
