(* ===== verification/Spec2Isabelle.thy ===== *)
theory Spec2Isabelle
  imports SchedulerRun Requests ConfigLayers Startup Metrics ProcessMarks ConfigTests WireTests HttpTests ServiceTests
begin

text \<open>
  A model of the Sentry uptime checker (\<open>src/src\<close>), with the properties that make it correct.

  The program.  Configurations of checks live in Redis, in one hash per partition.  A checker process owns
  some partitions, keeps their configurations in memory, and once per second queues the checks whose turn
  it is.  An executor runs the queued checks with bounded concurrency: it requests the URL, evaluates the
  configured assertion on the response, and hands the result to a producer.  A tick whose checks are all
  resolved becomes the watermark, from which the next process continues.

  Theories, in the order of their imports, and the files they model:
  \<^item> \<open>UCPrelude\<close>: machine integers, instants, shared lemmas.  \<open>RustStd\<close>: decimal integers, 64-bit floats and
    strings of the standard library.
  \<^item> \<open>CheckConfigs\<close> (\<open>types/check_config.rs\<close>, \<open>types/shared.rs\<close>, \<open>Tick\<close>): a configuration, its slots in the hour,
    the rotation over the regions, the robots.txt window.
  \<^item> \<open>ConfigStore\<close> (\<open>config_store.rs\<close>): buckets per second and map by subscription; the invariant \<open>store_inv\<close> and the locale
    \<open>config_registry\<close>, which the store interprets, by which any sequence of updates acts as on a plain map.
  \<^item> \<open>AssertSyntax\<close>, \<open>AssertCompile\<close>, \<open>AssertEval\<close>, \<open>AssertMeaning\<close>, \<open>AssertCache\<close> (\<open>assertions/\<close>): the language, its compiler with the
    operation budget and error paths, the evaluator with gas and evidence path, a reference semantics \<open>holds\<close> without
    gas that the evaluator agrees with, and the transparency of the cache of compiled assertions.
  \<^item> \<open>CheckResults\<close> (\<open>types/result.rs\<close>): results, timings, certificates.  \<open>IpFilter\<close>, \<open>HttpErrors\<close>, \<open>Checker\<close>,
    \<open>ReqwestChecker\<close> (\<open>checker.rs\<close>, \<open>checker/\<close>): the address filter, the classification of request errors, the interface of a checker
    as the locale \<open>checker\<close> with its three interpretations, and the HTTP checker.
  \<^item> \<open>Producers\<close> (\<open>producer/\<close>): the interface as the locale \<open>results_producer\<close>, four interpretations, the retry loop and the worker of
    the Vector producer as a step relation.
  \<^item> \<open>CheckExecutor\<close> (\<open>check_executor.rs\<close>): one execution, and the executor as a step relation over queueing, sending, starting,
    finishing and cancelling, with its invariant \<open>executor_inv\<close> and the measure \<open>executor_work\<close> by which it drains.
  \<^item> \<open>Scheduler\<close>, \<open>ConfigWaiter\<close> (\<open>scheduler.rs\<close>, \<open>config_waiter.rs\<close>): start, ticks, queueing, the tick processor as a function of the outcomes of its
    writes, and the wait for the boot of a partition.
  \<^item> \<open>AppConfig\<close> (\<open>app/config.rs\<close>, \<open>app/cli.rs\<close>, \<open>logging.rs\<close>): the configuration of the process.  \<open>Redis\<close> (\<open>redis.rs\<close>): the client.
  \<^item> \<open>Manager\<close> (\<open>manager.rs\<close>): services per partition behind counted references, and the locale \<open>partition_manager\<close>.
  \<^item> \<open>ConfigProvider\<close> (\<open>check_config_provider/redis_config_provider.rs\<close>): owned partitions, initial load, updates.
  \<^item> \<open>Endpoint\<close> (\<open>endpoint/\<close>): both handlers, and the shape of every result.
  \<^item> \<open>SchedulerRun\<close>: the scheduler on a Redis server; its tick processor refines the one of \<open>Scheduler\<close>.
  \<^item> \<open>Transitions\<close>: step relations in general: the locales \<open>invariant_steps\<close> (what every step keeps holds in every run) and \<open>weighted_steps\<close>
    (a run does as much work as the weight it loses), interpreted by the executor and by the process.
  \<^item> \<open>ProcessSteps\<close> (\<open>app.rs\<close>, and the tasks of \<open>manager.rs\<close>, \<open>redis_config_provider.rs\<close>, \<open>scheduler.rs\<close>, \<open>check_executor.rs\<close>, \<open>vector_producer.rs\<close>,
    \<open>endpoint/mod.rs\<close>): the process as one state on which the tasks take their steps in any order, from the start to the end of a
    shutdown; its steps are the operations of the component theories.  \<open>ProcessRuns\<close>: runs of a small process, among them one that stops.
  \<^item> \<open>ProcessResults\<close>: no check is lost track of and no result is lost.  \<open>ProcessStop\<close>, \<open>ProcessEnds\<close>: the provider's bookkeeping, the
    weight \<open>process_weight\<close> of what is left to do after the request to stop, and that there is always a step left.  \<open>ProcessSafe\<close>,
    \<open>ProcessPanics\<close>: no panic until a shutdown, which panics a shutdown can meet, and runs that meet them.
    \<open>ProcessMarks\<close>: the tick processors next to the process, and what the watermarks in Redis are worth when it ends at any moment.
  \<^item> \<open>Startup\<close> (\<open>main.rs\<close>, \<open>app.rs\<close>, \<open>metrics.rs\<close>, \<open>logging.rs\<close>): from the command line to the running process, and from its end to the
    exit code.  \<open>Metrics\<close> (\<open>check_executor.rs\<close>): what the executor records, along its runs.
  \<^item> \<open>WireFormat\<close> (\<open>assertions/\<close>, \<open>types/\<close>): the trees that the \<open>serde\<close> attributes describe, with the locales \<open>wire_format\<close> (what is written can
    be read) and \<open>wire_value\<close> (it is not \<open>null\<close>, so that it can be optional), interpreted by every type.
  \<^item> \<open>Requests\<close> (\<open>endpoint/\<close>): a request to the web server from its path to its reply.  \<open>ConfigLayers\<close> (\<open>app/config.rs\<close>): the layers of
    the configuration (defaults, file, environment, command line) field by field, how each is read, and the tests of that file.
  \<^item> \<open>ConfigTests\<close>, \<open>AssertTests\<close>, \<open>WireTests\<close>, \<open>HttpTests\<close>, \<open>ServiceTests\<close>: unit tests of the program replayed on the model, as a check that the
    model does what the program is known to do: those of configurations, store, partitions and manager; of the compiled assertions; of the formats;
    of the HTTP checker; of the executor and the endpoint.  A test is a definition with its assertions, under its own name, and a
    lemma proves it.
  \<^item> this theory: from the configurations in Redis to the checks that are queued.

  Parameters.  Third-party code is an argument of the definitions that use it, in records named after its
  user: \<open>externals\<close> (globs, JSON, JSONPath), \<open>http_externals\<close>, \<open>stats_externals\<close>, \<open>fmt_externals\<close> (texts of identifiers),
  \<open>producer_externals\<close>, \<open>redis_lib\<close> and \<open>config_lib\<close>, and functions for version-5 UUIDs, decoders and the order in which a hash set
  is read.  What is relied on is a named hypothesis (\<open>cache_law\<close>, \<open>js_gas_law\<close>, \<open>fmt_law\<close>, \<open>set_get_law\<close>, \<open>iteration_order\<close>), shown to be
  satisfiable by a concrete instance whose name starts with \<open>plain\<close>.  The environment of the process is the record \<open>process_env\<close>;
  \<open>calm\<close> says that Redis answers, services can be started and checks return, and \<open>one_env\<close> satisfies it.

  Conventions.  \<open>Inl\<close> is an error and \<open>None\<close> a panic or a call that does not return.  Clocks and answers of the
  outside are inputs; a loop over them is a recursion over the list of what its iterations see, so no fuel is
  used.  The gas of an evaluation is the program's own.  The only non-structural recursions are \<open>range_step_by\<close>, by a
  measure, and those whose termination is found automatically.

  What is shown.  Data: the store is a map with exact buckets; every configuration runs once per interval, in one region
  at a time.  Assertions: compilation succeeds exactly within its limits, evaluation agrees with the reference semantics, and the
  evidence names a part that is false.  Execution: results are about their check and well formed, each check is
  resolved at most once within its retries and the concurrency limit.  Progress: a watermark is a completed tick, and no second is
  skipped or repeated across a restart.  Partitions: each has one owner; loading and updating make each store what Redis says;
  the failure behaviours that lose an update or panic are stated as they are.  The process: while nobody asks it to stop it does not
  panic, and it can be killed at any moment without a check being forgotten; a stop comes to an end and delivers every result, unless it aborts, which it can in the ways
  that are named; but it can forget checks that were queued.  With either producer: Vector gets the payloads, Kafka one message per result.
  The edges: every request to the web server is answered, with a status that depends on the request alone; every setting comes from the
  last layer that gives it; and what is written can be read.

  Not modelled.  Log output, tracing, and the metrics outside the executor; the inside of the web framework, the HTTP client, TLS and DNS; the bytes of
  JSON, YAML and MessagePack (a text is its tree, as \<open>WireFormat\<close> and \<open>ConfigLayers\<close> describe it).  Locks are not modelled as such: an
  operation on the store is atomic, and a lock is held for one step of the process.  In the process the checks of a tick are
  queued in one step, and time is left out: any step that is possible may come next.  Tests that look at the clock while tasks run
  (those of the scheduler, the boot waiter, the batching of the Vector worker and the concurrency of the executor), that need a live Redis, or that
  validate against a schema outside the repository are not replayed.
\<close>

section \<open>From the configurations in Redis to the checks of a tick\<close>

text \<open>The configurations a store schedules at a tick, as the scheduler finds them.\<close>

lemma bucket_of_store:
  assumes "stores_ok v5 m" "mg_services m p = Some svc"
  shows "get_configs (from_time t) (ps_config_store svc)
    = Some {c. configs_of m p (cc_subscription_id c) = Some c \<and> due v5 c (from_time t)}"
proof -
  have "configs_of m p = configs (ps_config_store svc)" by (simp add: configs_of_def assms(2))
  then show ?thesis
    using store.at_ok [OF stores_okD [OF assms] tick_index_less] by simp
qed

text \<open>What the scheduler of a partition should find at a tick, given the configurations of the partition.\<close>

definition due_configs :: "uuid_v5 \<Rightarrow> (u128 \<Rightarrow> check_config option) \<Rightarrow> Tick \<Rightarrow> check_config set" where
  "due_configs v5 m tick = {c. m (cc_subscription_id c) = Some c \<and> due v5 c tick}"

lemma scheduled_tick:
  assumes "stores_ok v5 m" "mg_services m p = Some svc" "set (ord (due_configs v5 (configs_of m p) (from_time t))) = due_configs v5 (configs_of m p) (from_time t)"
  shows "\<exists>bd s'. schedule_tick v5 ord region (from_time t) True True tx (ps_config_store svc) s = Some (Inr (bd, s')) \<and>
     eb_tick bd = from_time t \<and>
     set (map sc_config (drop (length (ex_sending s)) (ex_sending s')))
       = {c \<in> due_configs v5 (configs_of m p) (from_time t). runs_here v5 (from_time t) region c}"
proof -
  let ?b = "due_configs v5 (configs_of m p) (from_time t)"
  let ?cs = "zip (ord ?b) [tx..<tx + length (ord ?b)]"
  let ?run = "filter (\<lambda>x. runs_here v5 (from_time t) region (fst x)) ?cs"
  have "map fst ?cs = ord ?b" by simp
  then have fsts: "fst ` set ?cs = ?b" using assms(3) by (metis image_set)
  obtain s' where s': "schedule_configs v5 region (from_time t) True ?cs s = Some (Inr (map snd ?run, s'))"
      "ex_sending s' = ex_sending s @ map (\<lambda>x. new_scheduled_check Uptime (from_time t) (fst x) False (snd x)) ?run"
    using schedule_configs_open by blast
  have "set (map sc_config (drop (length (ex_sending s)) (ex_sending s')))
      = {c \<in> fst ` set ?cs. runs_here v5 (from_time t) region c}"
    unfolding s'(2) by (auto simp: new_scheduled_check_def image_iff)
  moreover have "schedule_tick v5 ord region (from_time t) True True tx (ps_config_store svc) s
      = Some (Inr (\<lparr>eb_tick = from_time t, eb_checks = map snd ?run\<rparr>, s'))"
    by (simp add: schedule_tick_def bucket_of_store [OF assms(1,2)] due_configs_def [symmetric] schedule_checks_def s'(1))
  ultimately show ?thesis unfolding fsts by (intro exI [of _ "\<lparr>eb_tick = from_time t, eb_checks = map snd ?run\<rparr>"] exI [of _ s']) auto
qed

text \<open>
  C2: After the provider's initial load, the checks that the scheduler of an owned partition queues at any tick are those of exactly the configurations
  that the partition's hash in Redis holds (the last decodable one of every subscription), that are due at this tick, and whose turn
  it is in this region; nothing on the way panics.
\<close>

theorem loaded_checks_queued:
  assumes "iteration_order ord" "manager_ok lib m" "mg_services m = Map.empty"
    and "get_async_connection lib (pv_redis pv) db = (Inr ops, db1)"
    and "\<forall>p \<in> pv_partitions pv. rd_hvals lib (get_conn ops) (rp_config_key (new_partition p)) db1 = (Inr (pl p), db1)"
    and "p \<in> pv_partitions pv" and "loaded = upsert_all (decoded d (pl p)) Map.empty"
    and "set (bucket_ord (due_configs v5 loaded (from_time t))) = due_configs v5 loaded (from_time t)"
  shows "\<exists>m' svc bd s'. load_initial_configs lib v5 d ord now pv (get_partition_keys ord pv) m db = Some (m', db1) \<and>
    mg_services m' p = Some svc \<and>
    schedule_tick v5 bucket_ord region (from_time t) True True tx (ps_config_store svc) s = Some (Inr (bd, s')) \<and>
    set (map sc_config (drop (length (ex_sending s)) (ex_sending s')))
      = {c. loaded (cc_subscription_id c) = Some c \<and> due v5 c (from_time t) \<and>
            runs_here v5 (from_time t) region c}"
proof -
  obtain m' where m': "load_initial_configs lib v5 d ord now pv (get_partition_keys ord pv) m db = Some (m', db1)"
      "dom (mg_services m') = pv_partitions pv" "stores_ok v5 m'"
      "configs_of m' p = loaded"
    using load_initial_ok [OF assms(1-5)] assms(6,7) by blast
  obtain svc where svc: "mg_services m' p = Some svc" using m'(2) assms(6) by blast
  from scheduled_tick [OF m'(3) svc, of bucket_ord t region tx s, unfolded m'(4), OF assms(8)] m'(1) svc
  show ?thesis by (auto simp: due_configs_def)
qed

theorem loaded_checks_queued_witness:
  "\<exists>m' svc bd s'. load_initial_configs plain_redis (\<lambda>_ _. 7) (\<lambda>_. Inr default_check_config) sorted_list_of_set (\<lambda>_. 5)
      plain_provider (map new_partition [3]) (new_manager default_config) one_update = Some (m', one_update) \<and>
    mg_services m' 3 = Some svc \<and>
    schedule_tick (\<lambda>_ _. 7) (\<lambda>_. [default_check_config]) ''us'' (from_time (seconds 127)) True True 9
      (ps_config_store svc) (new_executor new_dummy ()) = Some (Inr (bd, s'))"
proof -
  have loaded: "[0 \<mapsto> default_check_config] = upsert_all (decoded (\<lambda>_. Inr default_check_config) [[]]) Map.empty"
    by (simp add: deserialize_rmp_def default_check_config_def)
  have id: "cc_subscription_id default_check_config = 0" by (simp add: default_check_config_def)
  have "due (\<lambda>_ _. 7) default_check_config (from_time (seconds 127))"
    by (simp add: due_iff tick_index_less from_time_index first_slot_def default_check_config_def)
  then have "due_configs (\<lambda>_ _. 7) [0 \<mapsto> default_check_config] (from_time (seconds 127)) = {default_check_config}"
    using id by (auto simp: due_configs_def split: if_splits)
  then have order: "set ((\<lambda>_. [default_check_config]) (due_configs (\<lambda>_ _. 7) [0 \<mapsto> default_check_config] (from_time (seconds 127))))
      = due_configs (\<lambda>_ _. 7) [0 \<mapsto> default_check_config] (from_time (seconds 127))" by simp
  have mem: "3 \<in> pv_partitions plain_provider" by (simp add: plain_provider_partitions)
  from loaded_checks_queued [OF sorted_iteration_order plain_manager_ok new_manager_empty [of default_config]
      plain_provider_connects plain_provider_reads mem loaded,
      where bucket_ord = "\<lambda>_. [default_check_config]" and t = "seconds 127", OF order, of "\<lambda>_. 5" "''us''" 9 "new_executor new_dummy ()"]
  show ?thesis unfolding plain_provider_keys by blast
qed

end
